(* ===== verification/Prelude.thy ===== *)
theory Prelude
  imports Main "HOL-Library.AList" "HOL-Library.Word"
begin

text \<open>
  Shared vocabulary of the development: Go byte strings, the error and panic results of Go
  functions, the parts of the Go standard library (\<^verbatim>\<open>strings\<close>, \<^verbatim>\<open>strconv\<close>, \<^verbatim>\<open>encoding/hex\<close>) that
  the modelled packages call, and association lists standing for Go maps.  A Go string is a list
  of bytes, written as an Isabelle \<^typ>\<open>string\<close>; case mapping and white space are the ASCII ones.
\<close>

named_theorems str_simps \<open>evaluation rules of the string library\<close>
named_theorems res_simps \<open>rules for results of fallible functions\<close>

section \<open>Results\<close>

type_synonym bytes = string

text \<open>
  Errors of the program: \<open>Errorf\<close> is an error made by \<^verbatim>\<open>fmt.Errorf\<close> or \<^verbatim>\<open>errors.New\<close>; \<open>Wrap\<close> is
  \<^verbatim>\<open>fmt.Errorf("msg: %w", err)\<close>; \<open>Errno\<close> is a \<^verbatim>\<open>syscall.Errno\<close>; \<open>Foreign\<close> is an error value that
  comes from code outside the repository.
\<close>

datatype error = Errorf string | Wrap string error | Errno nat | Foreign string

type_synonym 'a res = "error + 'a"

text \<open>A Go call either returns a value or panics.\<close>

datatype 'a outcome = Return 'a | Panic string

fun outcome_bind :: "'a outcome \<Rightarrow> ('a \<Rightarrow> 'b outcome) \<Rightarrow> 'b outcome" where
  "outcome_bind (Return x) f = f x"
| "outcome_bind (Panic m) f = Panic m"

fun is_err :: "'a res \<Rightarrow> bool" where
  "is_err (Inl e) = True"
| "is_err (Inr x) = False"

lemma is_err_iff [res_simps]: "is_err r \<longleftrightarrow> (\<exists>e. r = Inl e)"
  by (cases r) auto

lemma not_is_err_iff [res_simps]: "\<not> is_err r \<longleftrightarrow> (\<exists>x. r = Inr x)"
  by (cases r) auto

text \<open>\<^verbatim>\<open>errors.As(err, &errno)\<close>: the first \<^verbatim>\<open>syscall.Errno\<close> in the chain of wrapped errors.\<close>

fun errors_as_errno :: "error \<Rightarrow> nat option" where
  "errors_as_errno (Errno n) = Some n"
| "errors_as_errno (Wrap m e) = errors_as_errno e"
| "errors_as_errno (Errorf m) = None"
| "errors_as_errno (Foreign m) = None"

section \<open>The strings library\<close>

definition has_prefix :: "string \<Rightarrow> string \<Rightarrow> bool" where
  "has_prefix s p \<longleftrightarrow> take (length p) s = p"

definition has_suffix :: "string \<Rightarrow> string \<Rightarrow> bool" where
  "has_suffix s p \<longleftrightarrow> length p \<le> length s \<and> drop (length s - length p) s = p"

definition trim_prefix :: "string \<Rightarrow> string \<Rightarrow> string" where
  "trim_prefix s p = (if has_prefix s p then drop (length p) s else s)"

fun index_byte :: "string \<Rightarrow> char \<Rightarrow> nat option" where
  "index_byte [] c = None"
| "index_byte (x # xs) c = (if x = c then Some 0 else map_option Suc (index_byte xs c))"

fun index_str :: "string \<Rightarrow> string \<Rightarrow> nat option" where
  "index_str [] p = (if p = [] then Some 0 else None)"
| "index_str (x # xs) p =
     (if has_prefix (x # xs) p then Some 0 else map_option Suc (index_str xs p))"

definition contains_str :: "string \<Rightarrow> string \<Rightarrow> bool" where
  "contains_str s p \<longleftrightarrow> index_str s p \<noteq> None"

text \<open>\<^verbatim>\<open>strings.Split(s, c)\<close> for a separator of one byte: never empty.\<close>

fun split_on :: "char \<Rightarrow> string \<Rightarrow> string list" where
  "split_on c [] = [[]]"
| "split_on c (x # xs) =
     (if x = c then [] # split_on c xs
      else (case split_on c xs of [] \<Rightarrow> [[x]] | y # ys \<Rightarrow> (x # y) # ys))"

fun join_with :: "string \<Rightarrow> string list \<Rightarrow> string" where
  "join_with sep [] = []"
| "join_with sep [x] = x"
| "join_with sep (x # y # ys) = x @ sep @ join_with sep (y # ys)"

text \<open>\<^verbatim>\<open>strings.ReplaceAll(s, c, r)\<close> for a pattern of one byte.\<close>

definition replace_all :: "string \<Rightarrow> char \<Rightarrow> string \<Rightarrow> string" where
  "replace_all s c r = concat (map (\<lambda>x. if x = c then r else [x]) s)"

definition lower_char :: "char \<Rightarrow> char" where
  "lower_char c = (if 65 \<le> (of_char c :: nat) \<and> (of_char c :: nat) \<le> 90
                   then char_of ((of_char c :: nat) + 32) else c)"

definition upper_char :: "char \<Rightarrow> char" where
  "upper_char c = (if 97 \<le> (of_char c :: nat) \<and> (of_char c :: nat) \<le> 122
                   then char_of ((of_char c :: nat) - 32) else c)"

definition to_lower :: "string \<Rightarrow> string" where
  "to_lower s = map lower_char s"

definition to_upper :: "string \<Rightarrow> string" where
  "to_upper s = map upper_char s"

definition equal_fold :: "string \<Rightarrow> string \<Rightarrow> bool" where
  "equal_fold a b \<longleftrightarrow> to_lower a = to_lower b"

definition is_space :: "char \<Rightarrow> bool" where
  "is_space c \<longleftrightarrow> (let n = (of_char c :: nat) in n = 32 \<or> (9 \<le> n \<and> n \<le> 13))"

definition trim_right_of :: "(char \<Rightarrow> bool) \<Rightarrow> string \<Rightarrow> string" where
  "trim_right_of P s = rev (dropWhile P (rev s))"

definition trim_space :: "string \<Rightarrow> string" where
  "trim_space s = trim_right_of is_space (dropWhile is_space s)"

lemma has_prefix_append [simp]: "has_prefix (p @ s) p"
  by (simp add: has_prefix_def)

lemma has_prefix_Nil [simp]: "has_prefix s []"
  by (simp add: has_prefix_def)

lemma has_prefix_iff: "has_prefix s p \<longleftrightarrow> (\<exists>t. s = p @ t)"
  by (metis append_take_drop_id has_prefix_append has_prefix_def)

lemma trim_prefix_append [simp]: "trim_prefix (p @ s) p = s"
  by (simp add: trim_prefix_def)

lemma trim_prefix_no [simp]: "\<not> has_prefix s p \<Longrightarrow> trim_prefix s p = s"
  by (simp add: trim_prefix_def)

lemma index_byte_None_iff: "index_byte s c = None \<longleftrightarrow> c \<notin> set s"
  by (induction s) auto

lemma index_byte_Some:
  "index_byte s c = Some n \<Longrightarrow> n < length s \<and> s ! n = c \<and> c \<notin> set (take n s)"
  by (induction s arbitrary: n) (auto split: if_splits simp: nth_Cons')

lemma index_byte_append [simp]:
  "c \<notin> set a \<Longrightarrow> index_byte (a @ c # b) c = Some (length a)"
  by (induction a) auto

lemma index_str_Some:
  "index_str s p = Some n \<Longrightarrow> n + length p \<le> length s \<and> take (length p) (drop n s) = p"
proof (induction s arbitrary: n)
  case Nil
  then show ?case by (auto split: if_splits)
next
  case (Cons x xs)
  show ?case
  proof (cases "has_prefix (x # xs) p")
    case True
    with Cons.prems have "n = 0" by simp
    moreover from True obtain t where "x # xs = p @ t"
      by (auto simp: has_prefix_iff)
    moreover from this have "length (x # xs) = length p + length t"
      by (metis length_append)
    ultimately show ?thesis by simp
  next
    case False
    with Cons.prems obtain m where "n = Suc m" "index_str xs p = Some m"
      by auto
    with Cons.IH show ?thesis by simp
  qed
qed

lemma contains_str_iff: "contains_str s p \<longleftrightarrow> (\<exists>a b. s = a @ p @ b)"
proof
  assume "contains_str s p"
  then obtain n where "index_str s p = Some n"
    by (auto simp: contains_str_def)
  then have "s = take n s @ p @ drop (length p + n) s"
    by (metis append_take_drop_id drop_drop index_str_Some)
  then show "\<exists>a b. s = a @ p @ b" by blast
next
  assume "\<exists>a b. s = a @ p @ b"
  then obtain a b where "s = a @ p @ b" by blast
  then show "contains_str s p"
  proof (induction a arbitrary: s)
    case Nil
    then have "has_prefix s p" by simp
    then show ?case
      by (cases s) (auto simp: contains_str_def has_prefix_iff)
  next
    case (Cons x a)
    then have "contains_str (a @ p @ b) p" by blast
    with Cons.prems show ?case by (simp add: contains_str_def)
  qed
qed

lemma contains_str_append [intro]: "contains_str s p \<Longrightarrow> contains_str (a @ s @ b) p"
  by (metis append.assoc contains_str_iff)

lemma split_on_not_Nil [simp]: "split_on c s \<noteq> []"
  by (induction s) (auto split: list.splits)

lemma split_on_single [simp]: "c \<notin> set s \<Longrightarrow> split_on c s = [s]"
  by (induction s) auto

lemma split_on_append [simp]: "c \<notin> set a \<Longrightarrow> split_on c (a @ c # b) = a # split_on c b"
  by (induction a) auto

lemma split_on_parts: "p \<in> set (split_on c s) \<Longrightarrow> c \<notin> set p"
proof (induction s arbitrary: p)
  case (Cons x s)
  then show ?case by (cases "split_on c s") (auto split: if_splits)
qed simp

lemma join_split: "join_with [c] (split_on c s) = s"
proof (induction s)
  case (Cons x s)
  obtain y ys where s: "split_on c s = y # ys"
    by (cases "split_on c s") auto
  show ?case using Cons.IH by (cases ys) (auto simp: s)
qed simp

lemma join_with_Cons: "xs \<noteq> [] \<Longrightarrow> join_with sep (x # xs) = x @ sep @ join_with sep xs"
  by (cases xs) auto

lemma split_join:
  "xs \<noteq> [] \<Longrightarrow> \<forall>x \<in> set xs. c \<notin> set x \<Longrightarrow> split_on c (join_with [c] xs) = xs"
proof (induction xs)
  case (Cons x xs)
  then show ?case by (cases xs) auto
qed simp

lemma replace_all_Nil [simp]: "replace_all [] c r = []"
  by (simp add: replace_all_def)

lemma replace_all_Cons [simp]:
  "replace_all (x # s) c r = (if x = c then r else [x]) @ replace_all s c r"
  by (simp add: replace_all_def)

lemma replace_all_append: "replace_all (a @ b) c r = replace_all a c r @ replace_all b c r"
  by (simp add: replace_all_def)

lemma replace_all_id: "c \<notin> set s \<Longrightarrow> replace_all s c r = s"
  by (induction s) auto

end
