(* ===== verification/Strconv.thy ===== *)
theory Strconv
  imports Prelude
begin

text \<open>
  The number and byte codecs of the Go standard library that the packages use:
  \<^verbatim>\<open>strconv.Itoa\<close>/\<^verbatim>\<open>Atoi\<close>/\<^verbatim>\<open>ParseInt\<close>, \<^verbatim>\<open>encoding/hex\<close> and \<^verbatim>\<open>encoding/base64\<close> (standard alphabet, padded).
  The locale \<open>codec\<close> is the contract all of them share: decoding what was encoded gives it back.
\<close>

section \<open>Decimal numbers\<close>

definition digit_char :: "nat \<Rightarrow> char" where
  "digit_char n = char_of (48 + n)"

definition is_digit :: "char \<Rightarrow> bool" where
  "is_digit c \<longleftrightarrow> 48 \<le> (of_char c :: nat) \<and> (of_char c :: nat) \<le> 57"

definition digit_val :: "char \<Rightarrow> nat" where
  "digit_val c = of_char c - 48"

fun show_nat :: "nat \<Rightarrow> string" where
  "show_nat n = (if n < 10 then [digit_char n] else show_nat (n div 10) @ [digit_char (n mod 10)])"

declare show_nat.simps [simp del]

definition show_int :: "int \<Rightarrow> string" where
  "show_int i = (if i < 0 then CHR ''-'' # show_nat (nat (- i)) else show_nat (nat i))"

fun digits_val :: "nat \<Rightarrow> string \<Rightarrow> nat" where
  "digits_val acc [] = acc"
| "digits_val acc (c # cs) = digits_val (10 * acc + digit_val c) cs"

definition parse_digits :: "string \<Rightarrow> nat option" where
  "parse_digits s = (if s \<noteq> [] \<and> list_all is_digit s then Some (digits_val 0 s) else None)"

text \<open>
  \<^verbatim>\<open>strconv.ParseInt(s, 10, bits)\<close>: an optional sign, then decimal digits; out of range is an
  error.  (With base 10 no underscores are accepted.)
\<close>

definition parse_int :: "nat \<Rightarrow> string \<Rightarrow> int res" where
  "parse_int bits s =
     (let neg = (s \<noteq> [] \<and> hd s = CHR ''-'');
          body = (if s \<noteq> [] \<and> (hd s = CHR ''-'' \<or> hd s = CHR ''+'') then tl s else s)
      in case parse_digits body of
           None \<Rightarrow> Inl (Errorf (''strconv.ParseInt: parsing '' @ s @ '': invalid syntax''))
         | Some n \<Rightarrow>
             (if (\<not> neg \<and> 2 ^ (bits - 1) \<le> n) \<or> (neg \<and> 2 ^ (bits - 1) < n)
              then Inl (Errorf (''strconv.ParseInt: parsing '' @ s @ '': value out of range''))
              else Inr (if neg then - int n else int n)))"

definition atoi :: "string \<Rightarrow> int res" where
  "atoi s = parse_int 64 s"

lemma of_char_digit: "n < 10 \<Longrightarrow> (of_char (digit_char n) :: nat) = 48 + n"
  by (simp add: digit_char_def)

lemma digit_val_digit [simp]: "n < 10 \<Longrightarrow> digit_val (digit_char n) = n"
  by (simp add: digit_val_def of_char_digit)

lemma is_digit_digit [simp]: "n < 10 \<Longrightarrow> is_digit (digit_char n)"
  by (simp add: is_digit_def of_char_digit)

lemma digits_val_append: "digits_val acc (a @ b) = digits_val (digits_val acc a) b"
  by (induction a arbitrary: acc) auto

lemma show_nat_digits: "list_all is_digit (show_nat n)"
proof (induction n rule: show_nat.induct)
  case (1 n)
  then show ?case by (subst show_nat.simps) auto
qed

lemma show_nat_not_Nil [simp]: "show_nat n \<noteq> []"
  by (subst show_nat.simps) simp

lemma digits_val_show_nat: "digits_val 0 (show_nat n) = n"
proof (induction n rule: show_nat.induct)
  case (1 n)
  then show ?case by (subst show_nat.simps) (auto simp: digits_val_append)
qed

lemma parse_digits_show_nat [simp]: "parse_digits (show_nat n) = Some n"
  by (simp add: parse_digits_def show_nat_digits digits_val_show_nat)

lemma show_nat_inject: "show_nat m = show_nat n \<Longrightarrow> m = n"
  by (metis digits_val_show_nat)

lemma show_nat_hd_digit: "is_digit (hd (show_nat n))"
  using show_nat_digits [of n] by (cases "show_nat n") auto

lemma not_digit_sign: "\<not> is_digit (CHR ''-'')" "\<not> is_digit (CHR ''+'')"
  by (simp_all add: is_digit_def)

lemma show_nat_hd_no_sign: "hd (show_nat n) \<noteq> CHR ''-''" "hd (show_nat n) \<noteq> CHR ''+''"
  using show_nat_hd_digit [of n] not_digit_sign by metis+

lemma parse_int_show_int:
  assumes "- (2 ^ 63) \<le> i" "i < 2 ^ 63"
  shows "parse_int 64 (show_int i) = Inr i"
  using assms by (auto simp: parse_int_def show_int_def show_nat_hd_no_sign)

lemma atoi_show_nat: "n < 2 ^ 63 \<Longrightarrow> atoi (show_nat n) = Inr (int n)"
  by (simp add: atoi_def parse_int_def show_nat_hd_no_sign)

section \<open>Hexadecimal\<close>

definition hex_digit :: "nat \<Rightarrow> char" where
  "hex_digit n = (if n < 10 then char_of (48 + n) else char_of (87 + n))"

definition hex_val :: "char \<Rightarrow> nat option" where
  "hex_val c = (let n = (of_char c :: nat) in
     if 48 \<le> n \<and> n \<le> 57 then Some (n - 48)
     else if 97 \<le> n \<and> n \<le> 102 then Some (n - 87)
     else if 65 \<le> n \<and> n \<le> 70 then Some (n - 55)
     else None)"

fun hex_encode :: "bytes \<Rightarrow> string" where
  "hex_encode [] = []"
| "hex_encode (b # bs) = hex_digit (of_char b div 16) # hex_digit (of_char b mod 16) # hex_encode bs"

fun hex_decode :: "string \<Rightarrow> bytes res" where
  "hex_decode [] = Inr []"
| "hex_decode [c] = Inl (Errorf (case hex_val c of
       None \<Rightarrow> ''encoding/hex: invalid byte'' | Some _ \<Rightarrow> ''encoding/hex: odd length hex string''))"
| "hex_decode (c # d # s) =
     (case (hex_val c, hex_val d) of
        (Some h, Some l) \<Rightarrow>
          (case hex_decode s of Inl e \<Rightarrow> Inl e | Inr bs \<Rightarrow> Inr (char_of (16 * h + l) # bs))
      | _ \<Rightarrow> Inl (Errorf ''encoding/hex: invalid byte''))"

lemma hex_val_digit: "n < 16 \<Longrightarrow> hex_val (hex_digit n) = Some n"
  by (auto simp: hex_val_def hex_digit_def Let_def)

lemma hex_roundtrip: "hex_decode (hex_encode b) = Inr b"
proof (induction b)
  case (Cons c b)
  have "of_char c div 16 < (16::nat)"
    using nat_of_char_less_256 [of c] by (simp add: less_mult_imp_div_less)
  moreover have "16 * (of_char c div 16) + of_char c mod 16 = (of_char c :: nat)" by simp
  ultimately show ?case using Cons.IH by (simp add: hex_val_digit)
qed simp

lemma length_hex_encode [simp]: "length (hex_encode b) = 2 * length b"
  by (induction b) auto

definition is_hex :: "char \<Rightarrow> bool" where
  "is_hex c \<longleftrightarrow> hex_val c \<noteq> None"

lemma hex_encode_is_hex: "list_all is_hex (hex_encode b)"
proof (induction b)
  case (Cons c b)
  have "of_char c div 16 < (16::nat)"
    using nat_of_char_less_256 [of c] by (simp add: less_mult_imp_div_less)
  with Cons.IH show ?case by (simp add: is_hex_def hex_val_digit)
qed simp

lemma hex_encode_inject: "hex_encode a = hex_encode b \<Longrightarrow> a = b"
  by (metis hex_roundtrip sum.inject(2))

section \<open>Base 64\<close>

definition b64_alphabet :: string where
  "b64_alphabet = ''ABCDEFGHIJKLMNOPQRSTUVWXYZabcdefghijklmnopqrstuvwxyz0123456789+/''"

definition b64_char :: "nat \<Rightarrow> char" where
  "b64_char n = b64_alphabet ! n"

definition b64_val :: "char \<Rightarrow> nat option" where
  "b64_val c = index_byte b64_alphabet c"

fun b64_encode :: "bytes \<Rightarrow> string" where
  "b64_encode [] = []"
| "b64_encode [a] = (let x = of_char a in
     [b64_char (x div 4), b64_char (x mod 4 * 16), CHR ''='', CHR ''=''])"
| "b64_encode [a, b] = (let x = of_char a; y = of_char b in
     [b64_char (x div 4), b64_char (x mod 4 * 16 + y div 16), b64_char (y mod 16 * 4), CHR ''=''])"
| "b64_encode (a # b # c # s) = (let x = of_char a; y = of_char b; z = of_char c in
     b64_char (x div 4) # b64_char (x mod 4 * 16 + y div 16)
       # b64_char (y mod 16 * 4 + z div 64) # b64_char (z mod 64) # b64_encode s)"

text \<open>
  \<^verbatim>\<open>base64.StdEncoding.DecodeString\<close>, not strict: the bits a final group does not use are ignored,
  line breaks are skipped.
\<close>

fun b64_groups :: "string \<Rightarrow> bytes res" where
  "b64_groups [] = Inr []"
| "b64_groups (p # q # r # t # s) =
     (case (b64_val p, b64_val q) of
        (Some w, Some x) \<Rightarrow>
          (if s = [] \<and> r = CHR ''='' \<and> t = CHR ''='' then Inr [char_of (w * 4 + x div 16)]
           else case b64_val r of
             None \<Rightarrow> Inl (Errorf ''illegal base64 data'')
           | Some y \<Rightarrow>
               (if s = [] \<and> t = CHR ''=''
                then Inr [char_of (w * 4 + x div 16), char_of (x mod 16 * 16 + y div 4)]
                else case b64_val t of
                  None \<Rightarrow> Inl (Errorf ''illegal base64 data'')
                | Some z \<Rightarrow>
                    (case b64_groups s of
                       Inl e \<Rightarrow> Inl e
                     | Inr bs \<Rightarrow> Inr (char_of (w * 4 + x div 16) # char_of (x mod 16 * 16 + y div 4)
                                        # char_of (y mod 4 * 64 + z) # bs))))
      | _ \<Rightarrow> Inl (Errorf ''illegal base64 data''))"
| "b64_groups s = Inl (Errorf ''illegal base64 data'')"

definition b64_decode :: "string \<Rightarrow> bytes res" where
  "b64_decode s = b64_groups (filter (\<lambda>c. c \<noteq> CHR 0x0A \<and> c \<noteq> CHR 0x0D) s)"

lemma index_byte_nth_distinct:
  "distinct s \<Longrightarrow> n < length s \<Longrightarrow> index_byte s (s ! n) = Some n"
proof (induction s arbitrary: n)
  case (Cons x s)
  then show ?case by (cases n) (auto simp: nth_eq_iff_index_eq)
qed simp

lemma b64_alphabet_facts: "distinct b64_alphabet" "length b64_alphabet = 64"
  "CHR ''='' \<notin> set b64_alphabet" "CHR 0x0A \<notin> set b64_alphabet" "CHR 0x0D \<notin> set b64_alphabet"
  by (simp_all add: b64_alphabet_def)

lemma b64_val_char: "n < 64 \<Longrightarrow> b64_val (b64_char n) = Some n"
  by (simp add: b64_val_def b64_char_def index_byte_nth_distinct b64_alphabet_facts)

lemma b64_char_in: "n < 64 \<Longrightarrow> b64_char n \<in> set b64_alphabet"
  by (simp add: b64_char_def b64_alphabet_facts)

lemma b64_char_not_special:
  assumes "n < 64"
  shows "b64_char n \<noteq> CHR ''=''" "b64_char n \<noteq> CHR 0x0A" "b64_char n \<noteq> CHR 0x0D"
  using b64_char_in [OF assms] b64_alphabet_facts by metis+

lemma div_mod_pack:
  fixes a b n :: nat
  assumes "b < n"
  shows "(a * n + b) div n = a" "(a * n + b) mod n = b"
  using assms by simp_all

lemma byte_div: "(x::nat) < 256 \<Longrightarrow> x div 4 < 64" "(x::nat) < 256 \<Longrightarrow> x div 16 < 16"
  "(x::nat) < 256 \<Longrightarrow> x div 64 < 4"
  by (simp_all add: less_mult_imp_div_less)

lemma pack_less:
  "v < 16 \<Longrightarrow> (x::nat) mod 4 * 16 + v < 64" "v < 4 \<Longrightarrow> (x::nat) mod 16 * 4 + v < 64"
  "(x::nat) mod 4 * 16 < 64" "(x::nat) mod 16 * 4 < 64"
  using mod_less_divisor [of 4 x] mod_less_divisor [of 16 x] by linarith+

lemmas b64_arith = byte_div pack_less div_mod_pack div_mod_pack [where b = 0, simplified]
  div_mult_mod_eq nat_of_char_less_256

lemma b64_chars_ok: "c \<in> set (b64_encode b) \<Longrightarrow> c \<noteq> CHR 0x0A \<and> c \<noteq> CHR 0x0D"
  by (induction b rule: b64_encode.induct)
    (auto simp: Let_def b64_char_not_special b64_arith)

lemma b64_groups_encode: "b64_groups (b64_encode b) = Inr b"
proof (induction b rule: b64_encode.induct)
  case (4 a b c s)
  then show ?case
    by (simp add: Let_def b64_val_char b64_char_not_special b64_arith)
qed (simp_all add: Let_def b64_val_char b64_char_not_special b64_arith)

lemma b64_roundtrip: "b64_decode (b64_encode b) = Inr b"
proof -
  have "filter (\<lambda>c. c \<noteq> CHR 0x0A \<and> c \<noteq> CHR 0x0D) (b64_encode b) = b64_encode b"
    using b64_chars_ok by (auto simp: filter_id_conv)
  then show ?thesis by (simp add: b64_decode_def b64_groups_encode)
qed

section \<open>The contract of a codec\<close>

locale codec =
  fixes enc :: "'a \<Rightarrow> string" and dec :: "string \<Rightarrow> 'a res"
  assumes dec_enc: "dec (enc x) = Inr x"
begin

lemma enc_inject: "enc x = enc y \<Longrightarrow> x = y"
  by (metis dec_enc sum.inject(2))

lemma dec_enc_twice:
  "(case dec2 (enc2 (enc x)) of Inl e \<Rightarrow> Inl e | Inr y \<Rightarrow> dec y) = Inr x"
  if "\<And>y. dec2 (enc2 y) = Inr y"
  by (simp add: that dec_enc)

end

text \<open>
  UTF-8: the number of bytes of the first rune, 1 for an ill-formed byte; and whether a text has no
  ill-formed byte.
\<close>

definition rune_len :: "nat list \<Rightarrow> nat" where
  "rune_len s =
     (let b = (\<lambda>i. if i < length s then s ! i else 0);
          cont = (\<lambda>n. 128 \<le> n \<and> n \<le> 191);
          b0 = b 0; b1 = b 1
      in if 194 \<le> b0 \<and> b0 \<le> 223 then (if cont b1 then 2 else 1)
         else if 224 \<le> b0 \<and> b0 \<le> 239 then
           (if (if b0 = 224 then 160 \<le> b1 \<and> b1 \<le> 191
                else if b0 = 237 then 128 \<le> b1 \<and> b1 \<le> 159 else cont b1) \<and> cont (b 2)
            then 3 else 1)
         else if 240 \<le> b0 \<and> b0 \<le> 244 then
           (if (if b0 = 240 then 144 \<le> b1 \<and> b1 \<le> 191
                else if b0 = 244 then 128 \<le> b1 \<and> b1 \<le> 143 else cont b1) \<and> cont (b 2) \<and> cont (b 3)
            then 4 else 1)
         else 1)"

fun utf8_fuel :: "nat \<Rightarrow> nat list \<Rightarrow> bool" where
  "utf8_fuel 0 s \<longleftrightarrow> s = []"
| "utf8_fuel (Suc n) s \<longleftrightarrow> s = [] \<or> (hd s < 128 \<or> 1 < rune_len s) \<and> utf8_fuel n (drop (rune_len s) s)"

definition utf8 :: "string \<Rightarrow> bool" where
  "utf8 s = utf8_fuel (length s) (map of_char s)"

lemma rune_len_ascii: "c < 128 \<Longrightarrow> rune_len (c # s) = 1"
  by (simp add: rune_len_def Let_def)

lemma utf8_ascii: "list_all (\<lambda>c. of_char c < (128 :: nat)) s \<Longrightarrow> utf8 s"
  unfolding utf8_def by (induction s) (simp_all add: rune_len_ascii)

lemma hex_ascii: "list_all is_hex s \<Longrightarrow> list_all (\<lambda>c. of_char c < (128 :: nat)) s"
proof -
  have "is_hex c \<Longrightarrow> of_char c < (128 :: nat)" for c
    by (auto simp: is_hex_def hex_val_def Let_def split: if_splits)
  then show "list_all is_hex s \<Longrightarrow> list_all (\<lambda>c. of_char c < (128 :: nat)) s" by (auto simp: list_all_iff)
qed

lemma utf8_show_int: "utf8 (show_int i)"
proof -
  have "list_all (\<lambda>c. of_char c < (128 :: nat)) (show_nat n)" for n
    using show_nat_digits [of n] by (auto simp: list_all_iff is_digit_def)
  then show ?thesis by (intro utf8_ascii) (simp add: show_int_def)
qed

interpretation hex_codec: codec hex_encode hex_decode
  by unfold_locales (rule hex_roundtrip)

interpretation b64_codec: codec b64_encode b64_decode
  by unfold_locales (rule b64_roundtrip)

end
