(* ===== verification/Go_Value.thy ===== *)
theory Go_Value
  imports Strconv Complex_Main
begin

text \<open>
  Go values of static type \<^verbatim>\<open>interface{}\<close>, as the runtime package meets them: what
  \<^verbatim>\<open>json.Unmarshal\<close>, \<^verbatim>\<open>gjson.Result.Value\<close> or a protobuf \<^verbatim>\<open>Struct\<close> produce, and what user code
  puts in a variable.  A map is an association list with distinct keys; the order of the list is
  the (unspecified) order in which a \<^verbatim>\<open>range\<close> loop visits it.  A finite float64 is the rational it
  denotes; \<open>round_f64\<close> is the conversion of an integer to the nearest float64, ties to even.
\<close>

datatype goval =
    GNil
  | GBool bool
  | GInt int            \<comment> \<open>a value of dynamic type int64\<close>
  | GFloat rat          \<comment> \<open>a finite float64\<close>
  | GStr string
  | GList "goval list"
  | GMap "(string \<times> goval) list"
  | GOther string       \<comment> \<open>a value of any other dynamic type, by the name of the type\<close>

fun as_str :: "goval \<Rightarrow> string option" where
  "as_str (GStr s) = Some s"
| "as_str _ = None"

fun as_map :: "goval \<Rightarrow> (string \<times> goval) list option" where
  "as_map (GMap m) = Some m"
| "as_map _ = None"

fun as_float :: "goval \<Rightarrow> rat option" where
  "as_float (GFloat r) = Some r"
| "as_float _ = None"

text \<open>\<open>m[k]\<close> on a \<^verbatim>\<open>map[string]interface{}\<close>: nil for a missing key.\<close>

definition map_get :: "(string \<times> goval) list \<Rightarrow> string \<Rightarrow> goval" where
  "map_get m k = (case map_of m k of None \<Rightarrow> GNil | Some v \<Rightarrow> v)"

section \<open>float64 and integers\<close>

text \<open>The number of binary digits of a natural number.\<close>

fun bit_len :: "nat \<Rightarrow> nat" where
  "bit_len n = (if n = 0 then 0 else Suc (bit_len (n div 2)))"

declare bit_len.simps [simp del]

text \<open>
  A float64 carries 53 significant bits: an integer of more than 53 bits loses the low
  \<open>bit_len n - 53\<close> of them, rounded to the nearest multiple, ties to the even one.
\<close>

definition round_nat :: "nat \<Rightarrow> nat" where
  "round_nat n =
     (let sh = bit_len n - 53; m = 2 ^ sh; q = n div m; r = n mod m in
      if sh = 0 then n
      else if 2 * r < m then q * m
      else if m < 2 * r then Suc q * m
      else if even q then q * m else Suc q * m)"

definition round_f64 :: "int \<Rightarrow> rat" where
  "round_f64 i = (if i < 0 then - of_nat (round_nat (nat (- i))) else of_nat (round_nat (nat i)))"

text \<open>\<^verbatim>\<open>int64(f)\<close> for a float64 in range: truncation toward zero.\<close>

definition trunc_f64 :: "rat \<Rightarrow> int" where
  "trunc_f64 r = (if r < 0 then - \<lfloor>- r\<rfloor> else \<lfloor>r\<rfloor>)"

lemma bit_len_less: "n < 2 ^ k \<Longrightarrow> bit_len n \<le> k"
proof (induction k arbitrary: n)
  case 0
  then show ?case by (simp add: bit_len.simps)
next
  case (Suc k)
  then have "n div 2 < 2 ^ k" by simp
  then have "bit_len (n div 2) \<le> k" by (rule Suc.IH)
  then show ?case by (subst bit_len.simps) simp
qed

lemma round_nat_exact: "n < 2 ^ 53 \<Longrightarrow> round_nat n = n"
  using bit_len_less [of n 53] by (simp add: round_nat_def)

lemma bit_len_eq: "2 ^ k \<le> n \<Longrightarrow> n < 2 ^ Suc k \<Longrightarrow> bit_len n = Suc k"
proof (induction k arbitrary: n)
  case 0
  then have "n = 1" by simp
  then show ?case by (simp add: bit_len.simps)
next
  case (Suc k)
  then have "2 ^ k \<le> n div 2" "n div 2 < 2 ^ Suc k" by auto
  then have "bit_len (n div 2) = Suc k" by (rule Suc.IH)
  with Suc.prems show ?case by (subst bit_len.simps) simp
qed

lemma round_nat_2_53: "round_nat (2 ^ 53) = 2 ^ 53" "round_nat (2 ^ 53 + 1) = 2 ^ 53"
  using bit_len_eq [of 53 "2 ^ 53"] bit_len_eq [of 53 "2 ^ 53 + 1"] by (simp_all add: round_nat_def)

lemma round_f64_exact: "\<bar>i\<bar> \<le> 2 ^ 53 \<Longrightarrow> round_f64 i = of_int i"
proof -
  assume a: "\<bar>i\<bar> \<le> 2 ^ 53"
  have r: "round_nat n = n" if "n \<le> 2 ^ 53" for n
    using that round_nat_exact [of n] round_nat_2_53 by (cases "n = 2 ^ 53") auto
  show ?thesis
  proof (cases "i < 0")
    case True
    with a have "nat (- i) \<le> 2 ^ 53" by simp
    with True show ?thesis by (simp add: round_f64_def r)
  next
    case False
    with a have "nat i \<le> 2 ^ 53" by simp
    with False show ?thesis by (simp add: round_f64_def r)
  qed
qed

lemma trunc_of_int [simp]: "trunc_f64 (of_int i) = i"
  by (simp add: trunc_f64_def flip: of_int_minus)

lemma f64_int_roundtrip: "\<bar>i\<bar> \<le> 2 ^ 53 \<Longrightarrow> trunc_f64 (round_f64 i) = i"
  by (simp add: round_f64_exact)

lemma f64_int_loss: "trunc_f64 (round_f64 (2 ^ 53 + 1)) = 2 ^ 53"
proof -
  have "nat (2 ^ 53 + 1) = 2 ^ 53 + 1" by simp
  then have "round_f64 (2 ^ 53 + 1) = of_nat (2 ^ 53)"
    unfolding round_f64_def by (simp only: round_nat_2_53) simp
  then have "round_f64 (2 ^ 53 + 1) = of_int (2 ^ 53)" by simp
  then show ?thesis by (metis trunc_of_int)
qed

end
