(* ===== verification/Gjson.thy ===== *)
theory Gjson
  imports Go_Value
begin

text \<open>
  The libraries outside the repository that the blob store and the message context call:
  \<^verbatim>\<open>tidwall/gjson\<close>, \<^verbatim>\<open>tidwall/sjson\<close>, \<^verbatim>\<open>klauspost/compress/zstd\<close> and \<^verbatim>\<open>zeebo/xxh3\<close>.  Their functions are
  the fields of the record \<open>lib\<close>, a parameter of every definition that uses them.  What the code
  relies on is stated as laws over a denotation \<open>den\<close>, which gives the JSON value of a document
  that writes its object keys without escapes and its numbers in the library's range; a document
  outside that class has no denotation and no law speaks of it.
\<close>

section \<open>JSON values\<close>

datatype json =
    JNull
  | JBool bool
  | JNum string
  | JStr string
  | JArr "json list"
  | JObj "(string \<times> json) list"

text \<open>\<^verbatim>\<open>gjson.Type\<close>; \<open>TJSON\<close> is an object or an array.\<close>

datatype jtype = TNull | TFalse | TTrue | TNumber | TString | TJSON

text \<open>The fields of \<^verbatim>\<open>gjson.Result\<close> that the repository reads.\<close>

record gresult =
  gtype :: jtype
  graw :: bytes

definition no_result :: gresult where
  "no_result = \<lparr>gtype = TNull, graw = []\<rparr>"

fun type_of :: "json \<Rightarrow> jtype" where
  "type_of JNull = TNull"
| "type_of (JBool b) = (if b then TTrue else TFalse)"
| "type_of (JNum n) = TNumber"
| "type_of (JStr s) = TString"
| "type_of (JArr vs) = TJSON"
| "type_of (JObj kvs) = TJSON"

section \<open>The library functions\<close>

record lib =
  valid :: "bytes \<Rightarrow> bool"                                  \<comment> \<open>gjson.ValidBytes\<close>
  parse :: "bytes \<Rightarrow> gresult"                               \<comment> \<open>gjson.ParseBytes, gjson.Parse\<close>
  get :: "bytes \<Rightarrow> string \<Rightarrow> gresult"                       \<comment> \<open>gjson.GetBytes, gjson.Get\<close>
  exists :: "gresult \<Rightarrow> bool"                               \<comment> \<open>Result.Exists\<close>
  str :: "gresult \<Rightarrow> string"                                \<comment> \<open>Result.String\<close>
  int_of :: "gresult \<Rightarrow> int"                                \<comment> \<open>Result.Int\<close>
  arr_len :: "gresult \<Rightarrow> nat"                               \<comment> \<open>len(Result.Array)\<close>
  for_each :: "gresult \<Rightarrow> (gresult \<times> gresult) list"         \<comment> \<open>the pairs Result.ForEach visits, in order\<close>
  val :: "gresult \<Rightarrow> goval"                                 \<comment> \<open>Result.Value\<close>
  set_raw :: "bytes \<Rightarrow> string \<Rightarrow> bytes \<Rightarrow> bytes \<times> error option" \<comment> \<open>sjson.SetRawBytes\<close>
  set_val :: "bytes \<Rightarrow> string \<Rightarrow> goval \<Rightarrow> bytes \<times> error option" \<comment> \<open>sjson.SetBytes\<close>
  zenc :: "bytes \<Rightarrow> bytes"                                  \<comment> \<open>zstd EncodeAll\<close>
  zdec :: "bytes \<Rightarrow> bytes res"                              \<comment> \<open>zstd DecodeAll\<close>
  xxh :: "bytes \<Rightarrow> 64 word \<times> 64 word"                       \<comment> \<open>xxh3.Hash128: Hi, Lo\<close>

section \<open>Plain keys\<close>

definition plain_char :: "char \<Rightarrow> bool" where
  "plain_char c \<longleftrightarrow> (let n = (of_char c :: nat) in
     (48 \<le> n \<and> n \<le> 57) \<or> (65 \<le> n \<and> n \<le> 90) \<or> (97 \<le> n \<and> n \<le> 122) \<or> n = 95 \<or> n = 45 \<or> n = 32)"

text \<open>
  A simple key is one path component that stands for itself; a plain key may also hold dots, which
  \<open>escape\<close> protects.  Keys with the other characters of the path syntax (\<^verbatim>\<open>* ? # | @ \\ :\<close> and so on)
  are neither.
\<close>

definition simple_key :: "string \<Rightarrow> bool" where
  "simple_key k \<longleftrightarrow> k \<noteq> [] \<and> list_all plain_char k"

definition plain_key :: "string \<Rightarrow> bool" where
  "plain_key k \<longleftrightarrow> k \<noteq> [] \<and> list_all (\<lambda>c. plain_char c \<or> c = CHR ''.'') k"

definition dot_escape :: "string \<Rightarrow> string" where
  "dot_escape key = replace_all key (CHR ''.'') [CHR 0x5C, CHR ''.'']"

fun wf_json :: "json \<Rightarrow> bool" where
  "wf_json (JArr vs) = list_all wf_json vs"
| "wf_json (JObj kvs) = (distinct (map fst kvs) \<and> list_all (\<lambda>(k, v). plain_key k \<and> wf_json v) kvs)"
| "wf_json _ = True"

text \<open>The keys of one object are plain and different.\<close>

fun wf_keys :: "json \<Rightarrow> bool" where
  "wf_keys (JObj kvs) = (distinct (map fst kvs) \<and> list_all plain_key (map fst kvs))"
| "wf_keys _ = True"

lemma wf_json_keys: "wf_json j \<Longrightarrow> wf_keys j"
  by (cases j) (auto simp: list_all_iff)

lemma simple_key_plain: "simple_key k \<Longrightarrow> plain_key k"
  by (auto simp: simple_key_def plain_key_def list_all_iff)

lemma simple_key_escape: "simple_key k \<Longrightarrow> dot_escape k = k"
  by (auto simp: simple_key_def dot_escape_def list_all_iff plain_char_def Let_def
      intro!: replace_all_id)

section \<open>What a result represents\<close>

record sem =
  den :: "bytes \<Rightarrow> json option"
  jint :: "json \<Rightarrow> int"

fun opens_with :: "json \<Rightarrow> bytes \<Rightarrow> bool" where
  "opens_with (JObj kvs) b = has_prefix b ''{''"
| "opens_with (JArr vs) b = has_prefix b ''[''"
| "opens_with _ b = True"

definition rep :: "sem \<Rightarrow> gresult \<Rightarrow> json \<Rightarrow> bool" where
  "rep D r j \<longleftrightarrow> den D (graw r) = Some j \<and> gtype r = type_of j \<and> opens_with j (graw r)"

fun str_nonempty :: "json \<Rightarrow> bool" where
  "str_nonempty JNull = False"
| "str_nonempty (JStr s) = (s \<noteq> [])"
| "str_nonempty _ = True"

text \<open>The key under which ForEach reports the i-th child, and the child.\<close>

fun children :: "json \<Rightarrow> (string \<times> json) list" where
  "children (JObj kvs) = kvs"
| "children (JArr vs) = map (\<lambda>(i, v). (show_nat i, v)) (enumerate 0 vs)"
| "children _ = []"

text \<open>A document with its i-th child replaced.\<close>

fun replace_child :: "json \<Rightarrow> nat \<Rightarrow> json \<Rightarrow> json" where
  "replace_child (JObj kvs) i v = JObj (kvs[i := (fst (kvs ! i), v)])"
| "replace_child (JArr vs) i v = JArr (vs[i := v])"
| "replace_child j i v = j"

fun container :: "json \<Rightarrow> bool" where
  "container (JObj kvs) = True"
| "container (JArr vs) = True"
| "container _ = False"

section \<open>The laws\<close>

text \<open>Parsing: a document that means \<open>j\<close> is valid and parses to a result that represents \<open>j\<close>.\<close>

definition parse_law :: "lib \<Rightarrow> sem \<Rightarrow> bool" where
  "parse_law L D \<longleftrightarrow> (\<forall>b j. den D b = Some j \<longrightarrow> valid L b \<and> rep D (parse L b) j)"

text \<open>ForEach visits the children in document order.\<close>

definition child_rep :: "lib \<Rightarrow> sem \<Rightarrow> gresult \<times> gresult \<Rightarrow> string \<times> json \<Rightarrow> bool" where
  "child_rep L D = (\<lambda>(kr, vr) (k, v).
     str L kr = k \<and> rep D vr v)"

definition for_each_law :: "lib \<Rightarrow> sem \<Rightarrow> bool" where
  "for_each_law L D \<longleftrightarrow> (\<forall>r j. rep D r j \<longrightarrow> container j \<longrightarrow>
     list_all2 (child_rep L D) (for_each L r) (children j))"

text \<open>
  SetRawBytes at the escaped key of an existing child replaces that child; the other bytes of the
  document are kept, so its opening bracket is.
\<close>

definition set_raw_law :: "lib \<Rightarrow> sem \<Rightarrow> bool" where
  "set_raw_law L D \<longleftrightarrow> (\<forall>b j i v raw.
     den D b = Some j \<longrightarrow> wf_keys j \<longrightarrow> container j \<longrightarrow> i < length (children j) \<longrightarrow> den D raw = Some v \<longrightarrow>
     (\<exists>b'. set_raw L b (dot_escape (fst (children j ! i))) raw = (b', None)
        \<and> den D b' = Some (replace_child j i v)
        \<and> (opens_with j b \<longrightarrow> opens_with j b')))"

text \<open>Get of a simple key finds the member of an object, and nothing in any other value.\<close>

definition get_law :: "lib \<Rightarrow> sem \<Rightarrow> bool" where
  "get_law L D \<longleftrightarrow> (\<forall>b j k. den D b = Some j \<longrightarrow> simple_key k \<longrightarrow> \<not> list_all is_digit k \<longrightarrow>
     (case (case j of JObj kvs \<Rightarrow> map_of kvs k | _ \<Rightarrow> None) of
        None \<Rightarrow> \<not> exists L (get L b k) \<and> get L b k = no_result
      | Some v \<Rightarrow> exists L (get L b k) \<and> rep D (get L b k) v))"

text \<open>Int and String of a result.  The only values with an empty String are \<^verbatim>\<open>null\<close> and \<^verbatim>\<open>""\<close>.\<close>

definition scalar_law :: "lib \<Rightarrow> sem \<Rightarrow> bool" where
  "scalar_law L D \<longleftrightarrow>
     (\<forall>r j. rep D r j \<longrightarrow> int_of L r = jint D j \<and> (str L r \<noteq> [] \<longleftrightarrow> str_nonempty j)) \<and>
     (\<forall>r s. rep D r (JStr s) \<longrightarrow> str L r = s) \<and>
     (\<forall>r j. rep D r j \<longrightarrow> \<not> str_nonempty j \<longrightarrow> length (graw r) \<le> 4) \<and>
     (\<forall>r vs. rep D r (JArr vs) \<longrightarrow> arr_len L r = length vs) \<and>
     int_of L no_result = 0 \<and> str L no_result = [] \<and> \<not> exists L no_result \<and>
     (\<forall>n < 2 ^ 53. jint D (JNum (show_nat n)) = int n) \<and>
     (\<forall>j. container j \<longrightarrow> jint D j = 0)"

text \<open>
  A key that is a path of its own and that sjson does not take for an index of an array, as it does with a
  number or \<open>-1\<close> when it starts a document.
\<close>

definition path_key :: "string \<Rightarrow> bool" where
  "path_key k \<longleftrightarrow> simple_key k \<and> \<not> list_all is_digit k \<and> k \<noteq> ''-1''"

text \<open>
  SetBytes with such a key replaces the member of an object, or appends one, also to nothing, which starts
  an object.  A text must be UTF-8: JSON has no other ones.  The key is written as it is, and so are all simple keys of a
  document that has a denotation.
\<close>

definition members :: "sem \<Rightarrow> bytes \<Rightarrow> (string \<times> json) list option" where
  "members D b = (if b = [] then Some [] else
     case den D b of Some (JObj kvs) \<Rightarrow> Some kvs | _ \<Rightarrow> None)"

fun lit_json :: "goval \<Rightarrow> json option" where
  "lit_json (GStr s) = Some (JStr s)"
| "lit_json (GInt i) = Some (JNum (show_int i))"
| "lit_json _ = None"

fun lit_ok :: "goval \<Rightarrow> bool" where
  "lit_ok (GStr s) = utf8 s"
| "lit_ok _ = True"

definition set_val_law :: "lib \<Rightarrow> sem \<Rightarrow> bool" where
  "set_val_law L D \<longleftrightarrow>
     (\<forall>b kvs k g v. members D b = Some kvs \<longrightarrow> path_key k \<longrightarrow> lit_ok g \<longrightarrow> lit_json g = Some v \<longrightarrow>
        (\<exists>b'. set_val L b k g = (b', None) \<and> den D b' = Some (JObj (AList.update k v kvs)) \<and> has_prefix b' ''{'')) \<and>
     (\<forall>b kvs k. den D b = Some (JObj kvs) \<longrightarrow> simple_key k \<longrightarrow> k \<in> fst ` set kvs \<longrightarrow> contains_str b k)"

lemma update_new: "k \<notin> fst ` set kvs \<Longrightarrow> AList.update k v kvs = kvs @ [(k, v)]"
  by (induction kvs) auto

text \<open>Compression is lossless, and of something yields something.\<close>

definition zstd_law :: "lib \<Rightarrow> bool" where
  "zstd_law L \<longleftrightarrow> (\<forall>b. zdec L (zenc L b) = Inr b \<and> (b \<noteq> [] \<longrightarrow> zenc L b \<noteq> []))"

definition lib_laws :: "lib \<Rightarrow> sem \<Rightarrow> bool" where
  "lib_laws L D \<longleftrightarrow> parse_law L D \<and> for_each_law L D \<and> set_raw_law L D \<and> get_law L D
     \<and> scalar_law L D \<and> set_val_law L D \<and> zstd_law L"

lemma lib_lawsD:
  assumes "lib_laws L D"
  shows "parse_law L D" "for_each_law L D" "set_raw_law L D" "get_law L D" "scalar_law L D"
    "set_val_law L D" "zstd_law L"
  using assms by (simp_all add: lib_laws_def)

section \<open>Consequences used by the clients\<close>

lemma den_not_empty_rep: "rep D r j \<Longrightarrow> den D (graw r) = Some j"
  by (simp add: rep_def)

lemma rep_type_json: "rep D r j \<Longrightarrow> gtype r = TJSON \<longleftrightarrow> container j"
  by (cases j) (auto simp: rep_def)

lemma rep_obj_prefix: "rep D r (JObj kvs) \<Longrightarrow> has_prefix (graw r) ''{''"
  by (simp add: rep_def)

lemma rep_arr_prefix: "rep D r (JArr vs) \<Longrightarrow> has_prefix (graw r) ''['' \<and> \<not> has_prefix (graw r) ''{''"
  by (auto simp: rep_def has_prefix_def)

lemma parse_rep: "lib_laws L D \<Longrightarrow> den D b = Some j \<Longrightarrow> rep D (parse L b) j"
  by (simp add: lib_laws_def parse_law_def)

lemma parse_valid: "lib_laws L D \<Longrightarrow> den D b = Some j \<Longrightarrow> valid L b"
  by (simp add: lib_laws_def parse_law_def)

lemma length_children_replace [simp]: "length (children (replace_child j i v)) = length (children j)"
  by (cases j) auto

lemma container_replace [simp]: "container (replace_child j i v) = container j"
  by (cases j) auto

lemma children_keys_replace: "map fst (children (replace_child j i v)) = map fst (children j)"
proof (cases j)
  case (JObj kvs)
  then show ?thesis
    by (cases "i < length kvs") (auto simp: map_update list_update_same_conv list_update_beyond)
qed (auto simp: enumerate_eq_zip zip_map_fst_snd intro!: nth_equalityI)

lemma wf_keys_replace: "wf_keys j \<Longrightarrow> wf_keys (replace_child j i v)"
  using children_keys_replace [of j i v] by (cases j) auto

lemma children_replace:
  "i < length (children j) \<Longrightarrow>
     children (replace_child j i v) = (children j)[i := (fst (children j ! i), v)]"
  by (cases j) (auto intro!: nth_equalityI simp: enumerate_eq_zip nth_list_update)

lemma keys_distinct: "wf_keys j \<Longrightarrow> distinct (map fst (children j))"
proof (cases j)
  case (JArr vs)
  have "map fst (children j) = map show_nat [0..<length vs]"
    by (auto simp: JArr enumerate_eq_zip intro!: nth_equalityI)
  then show ?thesis by (auto simp: distinct_map inj_on_def dest: show_nat_inject)
qed auto

text \<open>Objects and arrays with the same keys and the same children are equal.\<close>

definition same_kind :: "json \<Rightarrow> json \<Rightarrow> bool" where
  "same_kind a b \<longleftrightarrow> (case (a, b) of
     (JObj _, JObj _) \<Rightarrow> True | (JArr _, JArr _) \<Rightarrow> True | _ \<Rightarrow> False)"

lemma same_kind_refl: "container j \<Longrightarrow> same_kind j j"
  by (cases j) (auto simp: same_kind_def)

lemma same_kind_trans: "same_kind a b \<Longrightarrow> same_kind b c \<Longrightarrow> same_kind a c"
  by (auto simp: same_kind_def split: json.splits)

lemma same_kind_replace: "container j \<Longrightarrow> same_kind j (replace_child j i v)"
  by (cases j) (auto simp: same_kind_def)

lemma same_kind_opens: "same_kind a b \<Longrightarrow> opens_with a x = opens_with b x"
  by (auto simp: same_kind_def split: json.splits)

lemma container_eqI: "same_kind a b \<Longrightarrow> children a = children b \<Longrightarrow> a = b"
proof -
  have "map snd (map (\<lambda>(i, v). (show_nat i, v)) (enumerate 0 vs)) = (vs :: json list)" for vs
    by (simp add: comp_def split_def)
  then have arr: "map snd (children (JArr vs)) = vs" for vs by (metis children.simps(2))
  show "same_kind a b \<Longrightarrow> children a = children b \<Longrightarrow> a = b"
    by (auto simp: same_kind_def split: json.splits) (metis arr children.simps(2))
qed

end
