(* ===== verification/Os.thy ===== *)
theory Os
  imports Strconv
begin

text \<open>
  The part of Go's \<^verbatim>\<open>os\<close> and \<^verbatim>\<open>path/filepath\<close> packages that the blob store calls, over a file system
  kept as a state.  Every system call may fail: the field \<open>fault\<close> says, for the n-th call, whether
  the environment makes it fail and with which error, so a statement about every \<open>os\<close> is a
  statement about every schedule of failures.  \<open>short\<close> is how many bytes a failing write leaves,
  \<open>rnd\<close> the random suffix \<^verbatim>\<open>os.CreateTemp\<close> draws, \<open>slept\<close> the microseconds spent in \<^verbatim>\<open>time.Sleep\<close>.
\<close>

record os =
  files :: "string \<Rightarrow> bytes option"
  dirs :: "string set"
  fault :: "nat \<Rightarrow> error option"
  short :: "nat \<Rightarrow> nat"
  rnd :: "nat \<Rightarrow> string"
  calls :: nat
  slept :: nat

definition enoent :: error where
  "enoent = Errno 2"

definition eexist :: error where
  "eexist = Errno 17"

definition tick :: "os \<Rightarrow> os" where
  "tick w = w\<lparr>calls := Suc (calls w)\<rparr>"

text \<open>The outcome of the next system call, before its effect.\<close>

definition next_fault :: "os \<Rightarrow> error option" where
  "next_fault w = fault w (calls w)"

definition faultless :: "os \<Rightarrow> bool" where
  "faultless w \<longleftrightarrow> (\<forall>n. fault w n = None)"

section \<open>System calls\<close>

text \<open>\<^verbatim>\<open>os.Stat\<close>: the size of the file.\<close>

definition os_stat :: "string \<Rightarrow> os \<Rightarrow> nat res \<times> os" where
  "os_stat p w = (case next_fault w of
     Some e \<Rightarrow> (Inl e, tick w)
   | None \<Rightarrow> (case files w p of None \<Rightarrow> (Inl enoent, tick w) | Some b \<Rightarrow> (Inr (length b), tick w)))"

definition os_mkdir_all :: "string \<Rightarrow> os \<Rightarrow> error option \<times> os" where
  "os_mkdir_all d w = (case next_fault w of
     Some e \<Rightarrow> (Some e, tick w)
   | None \<Rightarrow> (None, (tick w)\<lparr>dirs := insert d (dirs w)\<rparr>))"

text \<open>\<^verbatim>\<open>os.CreateTemp(dir, ".tmp-*")\<close>: a new, empty file.  A name that is taken is an error.\<close>

definition os_create_temp :: "string \<Rightarrow> os \<Rightarrow> string res \<times> os" where
  "os_create_temp d w = (case next_fault w of
     Some e \<Rightarrow> (Inl e, tick w)
   | None \<Rightarrow>
       (let p = d @ ''/.tmp-'' @ rnd w (calls w) in
        if d \<notin> dirs w then (Inl enoent, tick w)
        else if files w p \<noteq> None then (Inl eexist, tick w)
        else (Inr p, (tick w)\<lparr>files := (files w)(p \<mapsto> [])\<rparr>)))"

definition os_write :: "string \<Rightarrow> bytes \<Rightarrow> os \<Rightarrow> error option \<times> os" where
  "os_write p b w = (case next_fault w of
     Some e \<Rightarrow> (Some e, (tick w)\<lparr>files := (files w)(p \<mapsto> take (short w (calls w)) b)\<rparr>)
   | None \<Rightarrow> (None, (tick w)\<lparr>files := (files w)(p \<mapsto> b)\<rparr>))"

definition os_close :: "string \<Rightarrow> os \<Rightarrow> error option \<times> os" where
  "os_close p w = (next_fault w, tick w)"

definition os_rename :: "string \<Rightarrow> string \<Rightarrow> os \<Rightarrow> error option \<times> os" where
  "os_rename p q w = (case next_fault w of
     Some e \<Rightarrow> (Some e, tick w)
   | None \<Rightarrow> (case files w p of
       None \<Rightarrow> (Some enoent, tick w)
     | Some b \<Rightarrow> (None, (tick w)\<lparr>files := (files w)(p := None, q := Some b)\<rparr>)))"

definition os_remove :: "string \<Rightarrow> os \<Rightarrow> error option \<times> os" where
  "os_remove p w = (case next_fault w of
     Some e \<Rightarrow> (Some e, tick w)
   | None \<Rightarrow> (if files w p = None then (Some enoent, tick w)
              else (None, (tick w)\<lparr>files := (files w)(p := None)\<rparr>)))"

definition os_read_file :: "string \<Rightarrow> os \<Rightarrow> bytes res \<times> os" where
  "os_read_file p w = (case next_fault w of
     Some e \<Rightarrow> (Inl e, tick w)
   | None \<Rightarrow> (case files w p of None \<Rightarrow> (Inl enoent, tick w) | Some b \<Rightarrow> (Inr b, tick w)))"

text \<open>\<^verbatim>\<open>time.Sleep\<close>, in microseconds.\<close>

definition os_sleep :: "nat \<Rightarrow> os \<Rightarrow> os" where
  "os_sleep d w = w\<lparr>slept := slept w + d\<rparr>"

lemmas os_defs = os_stat_def os_mkdir_all_def os_create_temp_def os_write_def os_close_def
  os_rename_def os_remove_def os_read_file_def os_sleep_def next_fault_def tick_def Let_def

lemma faultless_next [simp]: "faultless w \<Longrightarrow> next_fault w = None"
  by (simp add: faultless_def next_fault_def)

section \<open>Paths\<close>

text \<open>\<^verbatim>\<open>filepath.Clean\<close> on the segments of a path: a stack, the last segment first.\<close>

definition clean_step :: "bool \<Rightarrow> string \<Rightarrow> string list \<Rightarrow> string list" where
  "clean_step rooted s st =
     (if s = [] \<or> s = ''.'' then st
      else if s = ''..'' then
        (case st of [] \<Rightarrow> if rooted then [] else [s]
         | t # ts \<Rightarrow> if t = ''..'' then s # st else ts)
      else s # st)"

definition path_segs :: "bool \<Rightarrow> string list \<Rightarrow> string list" where
  "path_segs rooted ss = rev (fold (clean_step rooted) ss [])"

definition path_clean :: "string \<Rightarrow> string" where
  "path_clean p =
     (let rooted = has_prefix p ''/''; segs = path_segs rooted (split_on (CHR ''/'') p)
      in if rooted then CHR ''/'' # join_with ''/'' segs
         else if segs = [] then ''.'' else join_with ''/'' segs)"

definition path_join :: "string list \<Rightarrow> string" where
  "path_join ps =
     (let qs = filter (\<lambda>p. p \<noteq> []) ps in if qs = [] then [] else path_clean (join_with ''/'' qs))"

text \<open>\<^verbatim>\<open>filepath.Dir\<close> of a clean path: all but the last segment.\<close>

definition path_dir :: "string \<Rightarrow> string" where
  "path_dir p = path_clean (join_with ''/'' (butlast (split_on (CHR ''/'') p)))"

definition plain_seg :: "string \<Rightarrow> bool" where
  "plain_seg s \<longleftrightarrow> s \<noteq> [] \<and> s \<noteq> ''.'' \<and> s \<noteq> ''..'' \<and> CHR ''/'' \<notin> set s"

lemma path_segs_snoc: "plain_seg s \<Longrightarrow> path_segs r (ss @ [s]) = path_segs r ss @ [s]"
  by (simp add: path_segs_def clean_step_def plain_seg_def)

lemma split_on_append_sep: "split_on c (a @ c # b) = split_on c a @ split_on c b"
proof (induction a)
  case (Cons x a)
  then show ?case by (cases "split_on c a") auto
qed simp

lemma join_with_snoc: "xs \<noteq> [] \<Longrightarrow> join_with sep (xs @ [x]) = join_with sep xs @ sep @ x"
proof (induction xs)
  case (Cons y ys)
  then show ?case by (cases ys) auto
qed simp

lemma path_clean_snoc:
  assumes "plain_seg s" "path_segs (has_prefix p ''/'') (split_on (CHR ''/'') p) \<noteq> []"
  shows "path_clean (p @ CHR ''/'' # s) = path_clean p @ CHR ''/'' # s"
proof -
  have "p \<noteq> []" using assms(2) by (auto simp: path_segs_def clean_step_def)
  then have r: "has_prefix (p @ CHR ''/'' # s) ''/'' = has_prefix p ''/''"
    by (cases p) (auto simp: has_prefix_def)
  have "split_on (CHR ''/'') (p @ CHR ''/'' # s) = split_on (CHR ''/'') p @ [s]"
    using assms(1) by (simp add: split_on_append_sep plain_seg_def)
  then show ?thesis
    using assms
    by (cases "has_prefix p ''/''") (simp_all add: path_clean_def r path_segs_snoc join_with_snoc Let_def)
qed

text \<open>
  A joined path whose last segment is plain ends in a slash and that segment, after the joined
  path of the others when those end in a plain segment too.
\<close>

lemma path_join_snoc:
  assumes "plain_seg s" "plain_seg t"
  shows "path_join (ps @ [t, s]) = path_join (ps @ [t]) @ CHR ''/'' # s"
proof -
  define q where "q = filter (\<lambda>p. p \<noteq> []) ps @ [t]"
  have ne: "q \<noteq> []" by (simp add: q_def)
  have seg: "path_segs (has_prefix (join_with ''/'' q) ''/'') (split_on (CHR ''/'') (join_with ''/'' q)) \<noteq> []"
  proof (cases "filter (\<lambda>p. p \<noteq> []) ps = []")
    case True
    then have "split_on (CHR ''/'') (join_with ''/'' q) = [] @ [t]"
      using assms(2) by (simp add: q_def plain_seg_def)
    then show ?thesis using assms(2) by (simp only: path_segs_snoc) simp
  next
    case False
    then have "join_with ''/'' q = join_with ''/'' (filter (\<lambda>p. p \<noteq> []) ps) @ CHR ''/'' # t"
      by (simp add: q_def join_with_snoc)
    then have "split_on (CHR ''/'') (join_with ''/'' q)
        = split_on (CHR ''/'') (join_with ''/'' (filter (\<lambda>p. p \<noteq> []) ps)) @ [t]"
      using assms(2) by (simp add: split_on_append_sep plain_seg_def)
    then show ?thesis using assms(2) by (simp add: path_segs_snoc)
  qed
  have "path_join (ps @ [t, s]) = path_clean (join_with ''/'' (q @ [s]))"
    using assms by (simp add: path_join_def q_def plain_seg_def)
  also have "\<dots> = path_clean (join_with ''/'' q @ CHR ''/'' # s)"
    using ne by (simp add: join_with_snoc)
  also have "\<dots> = path_clean (join_with ''/'' q) @ CHR ''/'' # s"
    using assms(1) seg by (rule path_clean_snoc)
  also have "path_clean (join_with ''/'' q) = path_join (ps @ [t])"
    using assms(2) by (simp add: path_join_def q_def plain_seg_def)
  finally show ?thesis .
qed

end
