(* ===== verification/Lmo_File.thy ===== *)
theory Lmo_File
  imports Os
begin

text \<open>
  \<^verbatim>\<open>runtime/lmo/store_unix.go\<close> and \<^verbatim>\<open>runtime/lmo/store_windows.go\<close>: \<^verbatim>\<open>renameAtomic\<close> and \<^verbatim>\<open>readFile\<close>.  The
  build tag that selects one of the two files is the parameter \<open>platform\<close>.  On Windows a sharing
  error is retried with a doubling back-off; durations are microseconds.
\<close>

datatype platform = Posix | Windows

definition maxFileRetries :: nat where
  "maxFileRetries = 16"

definition initialFileBackoff :: nat where
  "initialFileBackoff = 100"

definition maxFileBackoff :: nat where
  "maxFileBackoff = 8000"

definition errSharingViolation :: nat where
  "errSharingViolation = 32"

definition errLockViolation :: nat where
  "errLockViolation = 33"

definition errAccessDenied :: nat where
  "errAccessDenied = 5"

definition isTransientShareErr :: "error \<Rightarrow> bool" where
  "isTransientShareErr e = (case errors_as_errno e of
     None \<Rightarrow> False
   | Some n \<Rightarrow> n = errSharingViolation \<or> n = errLockViolation \<or> n = errAccessDenied)"

definition next_backoff :: "nat \<Rightarrow> nat" where
  "next_backoff b = (if b < maxFileBackoff then b * 2 else b)"

text \<open>The loop of \<^verbatim>\<open>renameAtomic\<close> with \<open>n\<close> iterations left; the last component is \<^verbatim>\<open>lastErr\<close>.\<close>

fun rename_loop :: "nat \<Rightarrow> nat \<Rightarrow> string \<Rightarrow> string \<Rightarrow> error option \<Rightarrow> os \<Rightarrow> error option \<times> os" where
  "rename_loop 0 backoff old new lastErr w = (lastErr, w)"
| "rename_loop (Suc n) backoff old new lastErr w =
     (case os_rename old new w of
        (None, w') \<Rightarrow> (None, w')
      | (Some e, w') \<Rightarrow>
          if \<not> isTransientShareErr e then (Some e, w')
          else rename_loop n (next_backoff backoff) old new (Some e) (os_sleep backoff w'))"

definition renameAtomic :: "platform \<Rightarrow> string \<Rightarrow> string \<Rightarrow> os \<Rightarrow> error option \<times> os" where
  "renameAtomic pf old new w = (case pf of
     Posix \<Rightarrow> os_rename old new w
   | Windows \<Rightarrow> rename_loop maxFileRetries initialFileBackoff old new None w)"

fun read_loop :: "nat \<Rightarrow> nat \<Rightarrow> string \<Rightarrow> error option \<Rightarrow> os \<Rightarrow> bytes res \<times> os" where
  "read_loop 0 backoff p lastErr w = ((case lastErr of None \<Rightarrow> Inr [] | Some e \<Rightarrow> Inl e), w)"
| "read_loop (Suc n) backoff p lastErr w =
     (case os_read_file p w of
        (Inr data, w') \<Rightarrow> (Inr data, w')
      | (Inl e, w') \<Rightarrow>
          if \<not> isTransientShareErr e then (Inl e, w')
          else read_loop n (next_backoff backoff) p (Some e) (os_sleep backoff w'))"

definition readFile :: "platform \<Rightarrow> string \<Rightarrow> os \<Rightarrow> bytes res \<times> os" where
  "readFile pf p w = (case pf of
     Posix \<Rightarrow> os_read_file p w
   | Windows \<Rightarrow> read_loop maxFileRetries initialFileBackoff p None w)"

section \<open>What a rename may do\<close>

text \<open>
  A rename either moves the whole file and reports success, or fails and moves nothing.  The
  relation \<open>moved\<close> says the first and \<open>same_files\<close> the second; both hold for the plain call and,
  by induction on the iterations left, for the retrying one.
\<close>

definition same_files :: "os \<Rightarrow> os \<Rightarrow> bool" where
  "same_files w w' \<longleftrightarrow> files w' = files w \<and> dirs w' = dirs w"

definition same_env :: "os \<Rightarrow> os \<Rightarrow> bool" where
  "same_env w w' \<longleftrightarrow> fault w' = fault w \<and> rnd w' = rnd w \<and> short w' = short w \<and> calls w \<le> calls w'"

lemma same_files_refl [simp]: "same_files w w"
  by (simp add: same_files_def)

lemma same_files_trans: "same_files a b \<Longrightarrow> same_files b c \<Longrightarrow> same_files a c"
  by (simp add: same_files_def)

lemma same_env_refl [simp]: "same_env w w"
  by (simp add: same_env_def)

lemma same_env_trans: "same_env a b \<Longrightarrow> same_env b c \<Longrightarrow> same_env a c"
  by (auto simp: same_env_def)

definition moved :: "string \<Rightarrow> string \<Rightarrow> os \<Rightarrow> os \<Rightarrow> bool" where
  "moved p q w w' \<longleftrightarrow>
     (\<exists>b. files w p = Some b \<and> files w' = (files w)(p := None, q := Some b)) \<and> dirs w' = dirs w"

definition rename_result :: "error option \<Rightarrow> string \<Rightarrow> string \<Rightarrow> os \<Rightarrow> os \<Rightarrow> bool" where
  "rename_result r p q w w' \<longleftrightarrow>
     (if r = None then moved p q w w' else same_files w w') \<and> same_env w w'"

lemma os_rename_cases:
  "os_rename p q w = (r, w') \<Longrightarrow>
     rename_result r p q w w'"
  by (auto simp: os_defs rename_result_def moved_def same_files_def same_env_def split: option.splits)

lemma rename_result_sleep:
  assumes "same_files w w1" "same_env w w1" "rename_result r p q (os_sleep bo w1) w'"
  shows "rename_result r p q w w'"
proof -
  have "same_env w w'"
    using assms by (simp add: rename_result_def os_sleep_def same_env_def)
  moreover have "if r = None then moved p q w w' else same_files w w'"
    using assms by (cases r) (simp_all add: rename_result_def os_sleep_def same_files_def moved_def)
  ultimately show ?thesis by (simp add: rename_result_def)
qed

lemma rename_loop_cases:
  "rename_loop n bo p q lst w = (r, w') \<Longrightarrow> 0 < n \<or> lst \<noteq> None \<Longrightarrow> rename_result r p q w w'"
proof (induction n arbitrary: bo lst w)
  case 0
  then show ?case by (auto simp: rename_result_def)
next
  case (Suc n)
  obtain r1 w1 where c: "os_rename p q w = (r1, w1)" by fastforce
  note rc = os_rename_cases [OF c]
  show ?case
  proof (cases "\<exists>e. r1 = Some e \<and> isTransientShareErr e")
    case True
    then obtain e where e: "r1 = Some e" "isTransientShareErr e" by blast
    let ?w2 = "os_sleep bo w1"
    have "rename_loop n (next_backoff bo) p q (Some e) ?w2 = (r, w')"
      using Suc.prems c e by simp
    from Suc.IH [OF this] have "rename_result r p q ?w2 w'" by simp
    moreover have "same_files w w1" "same_env w w1"
      using rc e by (simp_all add: rename_result_def)
    ultimately show ?thesis by (rule rename_result_sleep [rotated 2])
  next
    case False
    with Suc.prems c have "r = r1" "w' = w1" by (auto split: option.splits if_splits)
    with rc show ?thesis by simp
  qed
qed

lemma renameAtomic_cases:
  assumes "renameAtomic pf p q w = (r, w')"
  shows "rename_result r p q w w'"
  using assms os_rename_cases rename_loop_cases [of maxFileRetries]
  by (cases pf) (auto simp: renameAtomic_def maxFileRetries_def)

lemma renameAtomic_faultless:
  assumes "faultless w" "files w p = Some b"
  shows "\<exists>w'. renameAtomic pf p q w = (None, w')"
  using assms by (cases pf) (auto simp: renameAtomic_def maxFileRetries_def numeral_eq_Suc os_rename_def)

lemma os_read_file_env: "os_read_file p w = (r, w') \<Longrightarrow> same_files w w' \<and> same_env w w'"
  by (auto simp: os_defs same_files_def same_env_def split: option.splits)

lemma readFile_faultless:
  assumes "faultless w" "files w p = Some b"
  shows "readFile pf p w = (Inr b, tick w)"
  using assms by (cases pf) (simp_all add: readFile_def maxFileRetries_def numeral_eq_Suc os_read_file_def)

lemma read_loop_env: "read_loop n bo p lst w = (r, w') \<Longrightarrow> same_files w w' \<and> same_env w w'"
proof (induction n arbitrary: bo lst w)
  case (Suc n)
  obtain r1 w1 where c: "os_read_file p w = (r1, w1)" by fastforce
  note sf = os_read_file_env [OF c]
  show ?case
  proof (cases "\<exists>e. r1 = Inl e \<and> isTransientShareErr e")
    case True
    then obtain e where e: "r1 = Inl e" "isTransientShareErr e" by blast
    then have "read_loop n (next_backoff bo) p (Some e) (os_sleep bo w1) = (r, w')"
      using Suc.prems c by simp
    from Suc.IH [OF this] sf show ?thesis
      by (auto simp: os_sleep_def same_files_def same_env_def)
  next
    case False
    with Suc.prems c have "w' = w1" by (auto split: sum.splits if_splits)
    with sf show ?thesis by simp
  qed
qed simp

lemma readFile_env: "readFile pf p w = (r, w') \<Longrightarrow> same_files w w' \<and> same_env w w'"
  by (cases pf) (auto simp: readFile_def dest: os_read_file_env read_loop_env)

section \<open>Bounds of the retry loop\<close>

text \<open>The back-off before the i-th retry.\<close>

fun backoff_at :: "nat \<Rightarrow> nat" where
  "backoff_at 0 = initialFileBackoff"
| "backoff_at (Suc i) = next_backoff (backoff_at i)"

fun backoff_sum :: "nat \<Rightarrow> nat \<Rightarrow> nat" where
  "backoff_sum b 0 = 0"
| "backoff_sum b (Suc n) = b + backoff_sum (next_backoff b) n"

lemma loop_numerals:
  "rename_loop (numeral k) bo p q lst w =
     (case os_rename p q w of
        (None, w') \<Rightarrow> (None, w')
      | (Some e, w') \<Rightarrow>
          if \<not> isTransientShareErr e then (Some e, w')
          else rename_loop (pred_numeral k) (next_backoff bo) p q (Some e) (os_sleep bo w'))"
  "backoff_sum b (numeral k) = b + backoff_sum (next_backoff b) (pred_numeral k)"
  "backoff_at (numeral k) = next_backoff (backoff_at (pred_numeral k))"
  by (simp_all add: numeral_eq_Suc)

lemma rename_loop_bounds:
  "rename_loop n bo p q lst w = (r, w') \<Longrightarrow>
     calls w' \<le> calls w + n \<and> slept w' \<le> slept w + backoff_sum bo n"
proof (induction n arbitrary: bo lst w)
  case (Suc n)
  obtain r1 w1 where c: "os_rename p q w = (r1, w1)" by fastforce
  then have w1: "calls w1 = Suc (calls w)" "slept w1 = slept w"
    by (auto simp: os_defs split: option.splits)
  show ?case
  proof (cases "\<exists>e. r1 = Some e \<and> isTransientShareErr e")
    case True
    then obtain e where "r1 = Some e" "isTransientShareErr e" by blast
    then have "rename_loop n (next_backoff bo) p q (Some e) (os_sleep bo w1) = (r, w')"
      using Suc.prems c by simp
    from Suc.IH [OF this] w1 show ?thesis by (simp add: os_sleep_def)
  next
    case False
    with Suc.prems c have "w' = w1" by (auto split: option.splits if_splits)
    with w1 show ?thesis by simp
  qed
qed simp

lemma backoff_total: "backoff_sum initialFileBackoff maxFileRetries = 127900"
  by (simp add: initialFileBackoff_def maxFileRetries_def loop_numerals next_backoff_def
      maxFileBackoff_def)

text \<open>
  C7. On every platform and under every schedule of failures \<^verbatim>\<open>renameAtomic\<close> makes at most 16
  system calls, sleeps at most 127.9 ms in total, and is atomic: it reports success exactly when
  the source file has moved, whole, onto the destination, and on an error no file has changed.
\<close>

theorem renameAtomic_bounded_atomic:
  assumes "renameAtomic pf p q w = (r, w')"
  shows "calls w' \<le> calls w + 16 \<and> slept w' \<le> slept w + 127900 \<and>
    (if r = None then \<exists>b. files w p = Some b \<and> files w' = (files w)(p := None, q := Some b)
     else files w' = files w)"
proof -
  have "calls w' \<le> calls w + 16 \<and> slept w' \<le> slept w + 127900"
  proof (cases pf)
    case Posix
    with assms have "os_rename p q w = (r, w')" by (simp add: renameAtomic_def)
    then have "calls w' = Suc (calls w)" "slept w' = slept w"
      by (auto simp: os_defs split: option.splits)
    then show ?thesis by simp
  next
    case Windows
    with assms have "rename_loop maxFileRetries initialFileBackoff p q None w = (r, w')"
      by (simp add: renameAtomic_def)
    from rename_loop_bounds [OF this] show ?thesis
      by (simp add: backoff_total) (simp add: maxFileRetries_def)
  qed
  with renameAtomic_cases [OF assms] show ?thesis
    by (auto simp: rename_result_def moved_def same_files_def)
qed

definition busy_os :: os where
  "busy_os = \<lparr>files = [''p'' \<mapsto> ''x''], dirs = {}, fault = (\<lambda>n. if n = 0 then Some (Errno 32) else None),
     short = (\<lambda>n. 0), rnd = show_nat, calls = 0, slept = 0\<rparr>"

theorem renameAtomic_bounded_atomic_witness:
  "\<exists>w'. renameAtomic Windows ''p'' ''q'' busy_os = (None, w') \<and> files w' = [''q'' \<mapsto> ''x'']
     \<and> calls w' \<le> 16 \<and> 0 < slept w' \<and> slept w' \<le> 127900"
proof -
  obtain r w' where e: "renameAtomic Windows ''p'' ''q'' busy_os = (r, w')" by fastforce
  have "fst (renameAtomic Windows ''p'' ''q'' busy_os) = None \<and> 0 < slept (snd (renameAtomic Windows ''p'' ''q'' busy_os))"
    by (simp add: renameAtomic_def maxFileRetries_def initialFileBackoff_def loop_numerals busy_os_def os_defs
        isTransientShareErr_def errSharingViolation_def)
  with e have r: "r = None" "0 < slept w'" by simp_all
  with renameAtomic_bounded_atomic [OF e]
  have "\<exists>b. files busy_os ''p'' = Some b \<and> files w' = (files busy_os)(''p'' := None, ''q'' := Some b)"
    and "calls w' \<le> calls busy_os + 16" "slept w' \<le> slept busy_os + 127900" by simp_all
  then show ?thesis using e r by (auto simp: busy_os_def)
qed

text \<open>
  The back-off passes the constant that names its maximum: the doubling is guarded by the value
  before it, so the eighth and later pauses are 12.8 ms, not 8 ms.
\<close>

theorem backoff_exceeds_max: "backoff_at 7 = 12800 \<and> maxFileBackoff < backoff_at 7"
  by (simp add: loop_numerals initialFileBackoff_def next_backoff_def maxFileBackoff_def)

end
