(* ===== verification/Lmo_Store.thy ===== *)
theory Lmo_Store
  imports Gjson Lmo_File
begin

text \<open>
  \<^verbatim>\<open>runtime/lmo/store.go\<close>: the content-addressed blob store behind large message objects.  A store
  operation takes the libraries (\<open>lib\<close>), the platform, the store's fields and the file system, and
  returns its result with the new file system.  The recursive walks carry fuel; \<open>None\<close> means it ran
  out, and \<open>Lmo_Walk\<close> proves how much is enough.
\<close>

definition Magic :: int where
  "Magic = 20260301"

definition Threshold :: nat where
  "Threshold = 4096"

record blob_ref =
  Ref :: string
  RMagic :: int
  Size :: nat
  Path :: string
  Type :: string
  Len :: nat

record store =
  configDir :: string
  relPath :: string

section \<open>Construction\<close>

text \<open>\<^verbatim>\<open>NewStore\<close>: the two arguments are what \<^verbatim>\<open>zstd.NewWriter\<close> and \<^verbatim>\<open>zstd.NewReader\<close> report.\<close>

definition NewStore :: "error option \<Rightarrow> error option \<Rightarrow> string \<Rightarrow> store res" where
  "NewStore enc_err dec_err cfg = (case enc_err of
     Some e \<Rightarrow> Inl (Wrap ''lmo: zstd encoder'' e)
   | None \<Rightarrow> (case dec_err of
       Some e \<Rightarrow> Inl (Wrap ''lmo: zstd decoder'' e)
     | None \<Rightarrow> Inr \<lparr>configDir = cfg, relPath = []\<rparr>))"

definition SetRelPath :: "string \<Rightarrow> store \<Rightarrow> os \<Rightarrow> error option \<times> store \<times> os" where
  "SetRelPath rel st w =
     (let st' = st\<lparr>relPath := rel\<rparr>;
          blobDir = path_join [configDir st', ''store'', rel, ''blobs'']
      in case os_mkdir_all blobDir w of
           (Some e, w') \<Rightarrow> (Some (Wrap ''lmo: create blobs dir'' e), st', w')
         | (None, w') \<Rightarrow> (None, st', w'))"

section \<open>Addresses\<close>

definition be_bytes :: "64 word \<Rightarrow> bytes" where
  "be_bytes h = map (\<lambda>s. char_of (unat (ucast (drop_bit s h) :: 8 word)))
     [56, 48, 40, 32, 24, 16, 8, 0]"

definition hashRef :: "lib \<Rightarrow> bytes \<Rightarrow> string" where
  "hashRef L data = (let (hi, lo) = xxh L data in ''xxh3:'' @ hex_encode (be_bytes hi @ be_bytes lo))"

definition blobDirOf :: "store \<Rightarrow> string \<Rightarrow> string" where
  "blobDirOf st rel = path_join [configDir st, ''store'', rel, ''blobs'']"

definition blobPath :: "store \<Rightarrow> string \<Rightarrow> string \<Rightarrow> string" where
  "blobPath st rel ref =
     (let h = trim_prefix ref ''xxh3:''
      in path_join [configDir st, ''store'', rel, ''blobs'', take 2 h, drop 2 h])"

text \<open>
  \<^verbatim>\<open>blobPathLocal\<close> slices \<^verbatim>\<open>h[:2]\<close> without a check: it panics on a reference of fewer than two hex
  digits.  \<open>blobPathLocal_hashRef\<close> below shows that no reference it is given is that short.
\<close>

definition blobPathLocal :: "store \<Rightarrow> string \<Rightarrow> string outcome" where
  "blobPathLocal st ref =
     (if length (trim_prefix ref ''xxh3:'') < 2 then Panic ''slice bounds out of range''
      else Return (blobPath st (relPath st) ref))"

section \<open>Reading and writing one blob\<close>

definition GetBlob :: "lib \<Rightarrow> platform \<Rightarrow> store \<Rightarrow> string \<Rightarrow> string \<Rightarrow> os \<Rightarrow> bytes res \<times> os" where
  "GetBlob L pf st ref rel w =
     (let h = trim_prefix ref ''xxh3:'' in
      if length h < 3 then (Inl (Errorf (''lmo: invalid ref '' @ ref @ '': hex too short'')), w)
      else case readFile pf (blobPath st rel ref) w of
        (Inl e, w') \<Rightarrow> (Inl (Wrap (''lmo: read blob '' @ ref) e), w')
      | (Inr compressed, w') \<Rightarrow>
          (case zdec L compressed of
             Inl e \<Rightarrow> (Inl (Wrap (''lmo: decompress blob '' @ ref) e), w')
           | Inr data \<Rightarrow> (Inr data, w')))"

text \<open>The file exists and is not empty: the dedup test, made twice.\<close>

definition nonempty_stat :: "string \<Rightarrow> os \<Rightarrow> bool \<times> os" where
  "nonempty_stat p w = (case os_stat p w of
     (Inr n, w') \<Rightarrow> (0 < n, w') | (Inl e, w') \<Rightarrow> (False, w'))"

text \<open>The end of \<^verbatim>\<open>PutBlob\<close>, from the call of \<^verbatim>\<open>renameAtomic\<close> on.\<close>

definition put_rename :: "platform \<Rightarrow> string \<Rightarrow> string \<Rightarrow> string \<Rightarrow> os \<Rightarrow> string res \<times> os" where
  "put_rename pf ref tmpPath p w =
     (case renameAtomic pf tmpPath p w of
        (None, w') \<Rightarrow> (Inr ref, w')
      | (Some e, w') \<Rightarrow>
          (case nonempty_stat p w' of
             (True, w'') \<Rightarrow> (Inr ref, snd (os_remove tmpPath w''))
           | (False, w'') \<Rightarrow> (Inl (Wrap ''lmo: rename blob'' e), snd (os_remove tmpPath w''))))"

text \<open>The middle of \<^verbatim>\<open>PutBlob\<close>: the compressed bytes go to the temporary file.\<close>

definition put_tmp :: "platform \<Rightarrow> string \<Rightarrow> bytes \<Rightarrow> string \<Rightarrow> string \<Rightarrow> os \<Rightarrow> string res \<times> os" where
  "put_tmp pf ref compressed tmpPath p w =
     (case os_write tmpPath compressed w of
        (Some e, w') \<Rightarrow>
          (Inl (Wrap ''lmo: write tmp blob'' e), snd (os_remove tmpPath (snd (os_close tmpPath w'))))
      | (None, w') \<Rightarrow>
          (case os_close tmpPath w' of
             (Some e, w'') \<Rightarrow> (Inl (Wrap ''lmo: close tmp blob'' e), snd (os_remove tmpPath w''))
           | (None, w'') \<Rightarrow> put_rename pf ref tmpPath p w''))"

text \<open>Its head: the address, the dedup test, the directory.  \<^verbatim>\<open>dir\<close> is \<^verbatim>\<open>filepath.Dir(p)\<close>.\<close>

definition PutBlob :: "lib \<Rightarrow> platform \<Rightarrow> store \<Rightarrow> bytes \<Rightarrow> os \<Rightarrow> string res \<times> os" where
  "PutBlob L pf st data w =
     (let ref = hashRef L data; p = blobPath st (relPath st) ref; dir = path_dir p in
      case nonempty_stat p w of
        (True, w') \<Rightarrow> (Inr ref, w')
      | (False, w') \<Rightarrow>
          (case os_mkdir_all dir w' of
             (Some e, w'') \<Rightarrow> (Inl (Wrap ''lmo: mkdir blob'' e), w'')
           | (None, w'') \<Rightarrow>
               (case os_create_temp dir w'' of
                  (Inl e, w3) \<Rightarrow> (Inl (Wrap ''lmo: create tmp blob'' e), w3)
                | (Inr tmpPath, w3) \<Rightarrow> put_tmp pf ref (zenc L data) tmpPath p w3)))"

section \<open>Detection\<close>

definition IsBlobRef :: "lib \<Rightarrow> gresult \<Rightarrow> bool" where
  "IsBlobRef L v \<longleftrightarrow>
     gtype v = TJSON \<and> contains_str (graw v) ''__magic'' \<and> contains_str (graw v) ''__ref'' \<and>
     (let magic = get L (graw v) ''__magic''; ref = get L (graw v) ''__ref''
      in int_of L magic = Magic \<and> exists L ref \<and> str L ref \<noteq> [])"

definition IsBlobRefMap :: "goval \<Rightarrow> bool" where
  "IsBlobRefMap v = (case as_map v of
     None \<Rightarrow> False
   | Some m \<Rightarrow>
       (let magic = (case as_float (map_get m ''__magic'') of None \<Rightarrow> 0 | Some f \<Rightarrow> f);
            ref = (case as_str (map_get m ''__ref'') of None \<Rightarrow> [] | Some s \<Rightarrow> s)
        in trunc_f64 magic = Magic \<and> ref \<noteq> []))"

section \<open>Markers\<close>

text \<open>\<^verbatim>\<open>utf8.RuneCountInString\<close>: an ill-formed byte counts as one rune.\<close>

fun rune_count_fuel :: "nat \<Rightarrow> nat list \<Rightarrow> nat" where
  "rune_count_fuel 0 s = 0"
| "rune_count_fuel (Suc n) s = (if s = [] then 0 else Suc (rune_count_fuel n (drop (rune_len s) s)))"

definition rune_count :: "string \<Rightarrow> nat" where
  "rune_count s = rune_count_fuel (length s) (map of_char s)"

definition buildBlobRef :: "lib \<Rightarrow> store \<Rightarrow> string \<Rightarrow> gresult \<Rightarrow> blob_ref" where
  "buildBlobRef L st ref v =
     (let raw = graw v;
          br = \<lparr>Ref = ref, RMagic = Magic, Size = length raw, Path = relPath st, Type = [], Len = 0\<rparr>
      in if gtype v = TJSON \<and> has_prefix raw ''['' then br\<lparr>Type := ''array'', Len := arr_len L v\<rparr>
         else if gtype v = TJSON \<and> has_prefix raw ''{'' then br\<lparr>Type := ''object''\<rparr>
         else if gtype v = TString then br\<lparr>Type := ''string'', Len := rune_count (str L v)\<rparr>
         else if gtype v = TNumber then br\<lparr>Type := ''number''\<rparr>
         else if gtype v = TTrue \<or> gtype v = TFalse then br\<lparr>Type := ''boolean''\<rparr>
         else br)"

text \<open>The fields of a marker in the order \<^verbatim>\<open>marshalBlobRef\<close> writes them.\<close>

definition blob_ref_fields :: "blob_ref \<Rightarrow> (string \<times> goval) list" where
  "blob_ref_fields br =
     [(''__ref'', GStr (Ref br)), (''__magic'', GInt (RMagic br)), (''__size'', GInt (int (Size br))),
      (''__path'', GStr (Path br)), (''__type'', GStr (Type br))]
     @ (if 0 < Len br then [(''__len'', GInt (int (Len br)))] else [])"

definition marshalBlobRef :: "lib \<Rightarrow> blob_ref \<Rightarrow> bytes" where
  "marshalBlobRef L br = fold (\<lambda>(k, v) out. fst (set_val L out k v)) (blob_ref_fields br) []"

definition escape :: "string \<Rightarrow> string" where
  "escape key = replace_all key (CHR ''.'') [CHR 0x5C, CHR ''.'']"

definition splitPath :: "string \<Rightarrow> string list" where
  "splitPath path = split_on (CHR ''.'') path"

section \<open>The walk over the members of a document\<close>

text \<open>
  Every operation below visits the children of a document with the same closure: it asks a visitor
  for the child's replacement and writes it with \<^verbatim>\<open>sjson.SetRawBytes\<close>; the first error ends the walk.
  A visitor answers \<open>None\<close> for a child that stays.  In an array of \<^verbatim>\<open>resolveValue\<close> the path is the
  running index (\<open>arr\<close>), elsewhere the escaped key.
\<close>

type_synonym visit_result = "(bytes option res \<times> os) option"
type_synonym visitor = "gresult \<Rightarrow> os \<Rightarrow> visit_result"

definition walk_path :: "bool \<Rightarrow> nat \<Rightarrow> string \<Rightarrow> string" where
  "walk_path arr i key = (if arr then show_nat i else escape key)"

definition walk_msg :: "bool \<Rightarrow> nat \<Rightarrow> string \<Rightarrow> string" where
  "walk_msg arr i key =
     (if arr then ''lmo: sjson set ['' @ show_nat i @ '']'' else ''lmo: sjson set '' @ key)"

fun walk :: "lib \<Rightarrow> bool \<Rightarrow> visitor \<Rightarrow> (gresult \<times> gresult) list \<Rightarrow> nat \<Rightarrow> bytes \<Rightarrow> bool \<Rightarrow> os
    \<Rightarrow> ((bytes \<times> bool) res \<times> os) option" where
  "walk L arr vis [] i out modified w = Some (Inr (out, modified), w)"
| "walk L arr vis ((key, value) # rest) i out modified w =
     (case vis value w of
        None \<Rightarrow> None
      | Some (Inl e, w') \<Rightarrow> Some (Inl e, w')
      | Some (Inr None, w') \<Rightarrow> walk L arr vis rest (Suc i) out modified w'
      | Some (Inr (Some newRaw), w') \<Rightarrow>
          (case set_raw L out (walk_path arr i (str L key)) newRaw of
             (out', Some e) \<Rightarrow> Some (Inl (Wrap (walk_msg arr i (str L key)) e), w')
           | (out', None) \<Rightarrow> walk L arr vis rest (Suc i) out' True w'))"

section \<open>Packing\<close>

text \<open>\<^verbatim>\<open>PutBlob\<close> of a raw value and the marker that replaces it.\<close>

definition put_ref :: "lib \<Rightarrow> platform \<Rightarrow> store \<Rightarrow> gresult \<Rightarrow> os \<Rightarrow> visit_result" where
  "put_ref L pf st v w =
     (case PutBlob L pf st (graw v) w of
        (Inl e, w') \<Rightarrow> Some (Inl e, w')
      | (Inr ref, w') \<Rightarrow> Some (Inr (Some (marshalBlobRef L (buildBlobRef L st ref v))), w'))"

fun extractField :: "nat \<Rightarrow> lib \<Rightarrow> platform \<Rightarrow> store \<Rightarrow> visitor"
  and extractObject :: "nat \<Rightarrow> lib \<Rightarrow> platform \<Rightarrow> store \<Rightarrow> visitor" where
  "extractField 0 L pf st v w = None"
| "extractField (Suc n) L pf st v w =
     (if IsBlobRef L v then Some (Inr None, w)
      else if gtype v = TJSON \<and> has_prefix (graw v) ''{'' then extractObject n L pf st v w
      else if Threshold \<le> length (graw v) then put_ref L pf st v w
      else Some (Inr None, w))"
| "extractObject n L pf st v w =
     (if length (graw v) < Threshold then Some (Inr None, w)
      else case walk L False (\<lambda>c u. extractField n L pf st c u) (for_each L v) 0 (graw v) False w of
        None \<Rightarrow> None
      | Some (Inl e, w') \<Rightarrow> Some (Inl e, w')
      | Some (Inr (out, modified), w') \<Rightarrow>
          if \<not> modified then put_ref L pf st v w' else Some (Inr (Some out), w'))"

definition Pack :: "nat \<Rightarrow> lib \<Rightarrow> platform \<Rightarrow> store \<Rightarrow> bytes \<Rightarrow> os \<Rightarrow> (bytes res \<times> os) option" where
  "Pack n L pf st payload w =
     (if relPath st = [] then Some (Inr payload, w)
      else if \<not> valid L payload then Some (Inr payload, w)
      else if gtype (parse L payload) \<noteq> TJSON then Some (Inr payload, w)
      else case walk L False (extractField n L pf st) (for_each L (parse L payload)) 0 payload False w of
        None \<Rightarrow> None
      | Some (Inl e, w') \<Rightarrow> Some (Inl e, w')
      | Some (Inr (out, modified), w') \<Rightarrow> Some (Inr (if modified then out else payload), w'))"

section \<open>Resolving\<close>

definition resolveRef :: "lib \<Rightarrow> platform \<Rightarrow> store \<Rightarrow> gresult \<Rightarrow> os \<Rightarrow> gresult res \<times> os" where
  "resolveRef L pf st v w =
     (let ref = str L (get L (graw v) ''__ref''); rel = str L (get L (graw v) ''__path'')
      in case GetBlob L pf st ref rel w of
           (Inl e, w') \<Rightarrow> (Inl e, w')
         | (Inr data, w') \<Rightarrow> (Inr (parse L data), w'))"

definition maxResolveDepth :: nat where
  "maxResolveDepth = 32"

text \<open>The loop of \<^verbatim>\<open>fullyResolveRef\<close> with \<open>n\<close> iterations left.\<close>

fun fully_loop :: "nat \<Rightarrow> lib \<Rightarrow> platform \<Rightarrow> store \<Rightarrow> gresult \<Rightarrow> os \<Rightarrow> gresult res \<times> os" where
  "fully_loop 0 L pf st current w =
     (Inl (Errorf (''lmo: BlobRef chain exceeded max resolve depth '' @ show_nat maxResolveDepth
        @ '' (possible cycle or pathological input)'')), w)"
| "fully_loop (Suc n) L pf st current w =
     (if \<not> IsBlobRef L current then (Inr current, w)
      else case resolveRef L pf st current w of
        (Inl e, w') \<Rightarrow> (Inl e, w')
      | (Inr resolved, w') \<Rightarrow> fully_loop n L pf st resolved w')"

definition fullyResolveRef :: "lib \<Rightarrow> platform \<Rightarrow> store \<Rightarrow> gresult \<Rightarrow> os \<Rightarrow> gresult res \<times> os" where
  "fullyResolveRef L pf st v w = fully_loop maxResolveDepth L pf st v w"

text \<open>The walk over the prefixes of a path in \<^verbatim>\<open>Resolve\<close>; \<open>before\<close> are the segments already taken.\<close>

fun resolve_prefixes :: "lib \<Rightarrow> platform \<Rightarrow> store \<Rightarrow> bytes \<Rightarrow> string list \<Rightarrow> string list \<Rightarrow> os
    \<Rightarrow> gresult res \<times> os" where
  "resolve_prefixes L pf st data before [] w = (Inr no_result, w)"
| "resolve_prefixes L pf st data before (p # remaining) w =
     (let seg = get L data (join_with ''.'' (before @ [p])) in
      if \<not> exists L seg then resolve_prefixes L pf st data (before @ [p]) remaining w
      else if IsBlobRef L seg then
        (case fullyResolveRef L pf st seg w of
           (Inl e, w') \<Rightarrow> (Inl e, w')
         | (Inr resolved, w') \<Rightarrow>
             if remaining = [] then (Inr resolved, w')
             else let inner = get L (graw resolved) (join_with ''.'' remaining) in
                  if exists L inner then
                    (if IsBlobRef L inner then fullyResolveRef L pf st inner w' else (Inr inner, w'))
                  else (Inr no_result, w'))
      else resolve_prefixes L pf st data (before @ [p]) remaining w)"

definition Resolve :: "lib \<Rightarrow> platform \<Rightarrow> store \<Rightarrow> bytes \<Rightarrow> string \<Rightarrow> os \<Rightarrow> gresult res \<times> os" where
  "Resolve L pf st data key w =
     (let value = get L data key in
      if exists L value then
        (if IsBlobRef L value then fullyResolveRef L pf st value w else (Inr value, w))
      else resolve_prefixes L pf st data [] (splitPath key) w)"

fun resolveValue :: "nat \<Rightarrow> lib \<Rightarrow> platform \<Rightarrow> store \<Rightarrow> visitor" where
  "resolveValue 0 L pf st v w = None"
| "resolveValue (Suc n) L pf st v w =
     (if IsBlobRef L v then
        (case resolveRef L pf st v w of
           (Inl e, w') \<Rightarrow> Some (Inl e, w')
         | (Inr resolved, w') \<Rightarrow>
             (case resolveValue n L pf st resolved w' of
                None \<Rightarrow> None
              | Some (Inl e, w'') \<Rightarrow> Some (Inl e, w'')
              | Some (Inr (Some nestedFixed), w'') \<Rightarrow> Some (Inr (Some nestedFixed), w'')
              | Some (Inr None, w'') \<Rightarrow> Some (Inr (Some (graw resolved)), w'')))
      else if gtype v = TJSON \<and> (has_prefix (graw v) ''{'' \<or> has_prefix (graw v) ''['') then
        (case walk L (\<not> has_prefix (graw v) ''{'') (\<lambda>c u. resolveValue n L pf st c u)
                (for_each L (parse L (graw v))) 0 (graw v) False w of
           None \<Rightarrow> None
         | Some (Inl e, w') \<Rightarrow> Some (Inl e, w')
         | Some (Inr (out, modified), w') \<Rightarrow> Some (Inr (if modified then Some out else None), w'))
      else Some (Inr None, w))"

definition ResolveAll :: "nat \<Rightarrow> lib \<Rightarrow> platform \<Rightarrow> store \<Rightarrow> bytes \<Rightarrow> os \<Rightarrow> (bytes res \<times> os) option" where
  "ResolveAll n L pf st data w =
     (if \<not> valid L data then Some (Inr data, w)
      else if gtype (parse L data) \<noteq> TJSON then Some (Inr data, w)
      else case walk L False (resolveValue n L pf st) (for_each L (parse L data)) 0 data False w of
        None \<Rightarrow> None
      | Some (Inl e, w') \<Rightarrow> Some (Inl e, w')
      | Some (Inr (out, modified), w') \<Rightarrow> Some (Inr (if modified then out else data), w'))"

end
