(* ===== verification/Lmo_Blob.thy ===== *)
theory Lmo_Blob
  imports Lmo_Store
begin

text \<open>
  What one \<^verbatim>\<open>PutBlob\<close> and one \<^verbatim>\<open>GetBlob\<close> promise, under every schedule of file system failures.  The
  locale \<open>blob_store\<close> is the contract the packing and resolving walks rely on; it is interpreted on
  the model's own operations.
\<close>

section \<open>Addresses\<close>

lemma length_be_bytes [simp]: "length (be_bytes h) = 8"
  by (simp add: be_bytes_def)

lemma hashRef_split:
  "\<exists>h. hashRef L d = ''xxh3:'' @ h \<and> length h = 32 \<and> list_all is_hex h"
proof -
  obtain hi lo where x: "xxh L d = (hi, lo)" by fastforce
  show ?thesis
    by (rule exI [of _ "hex_encode (be_bytes hi @ be_bytes lo)"])
      (simp add: hashRef_def x hex_encode_is_hex)
qed

text \<open>No slice of \<^verbatim>\<open>blobPathLocal\<close> is ever out of range on a reference that \<^verbatim>\<open>hashRef\<close> made.\<close>

lemma blobPathLocal_hashRef:
  "blobPathLocal st (hashRef L d) = Return (blobPath st (relPath st) (hashRef L d))"
  using hashRef_split [of L d] by (auto simp: blobPathLocal_def trim_prefix_append [of "''xxh3:''", simplified])

lemma is_hex_plain: "is_hex c \<Longrightarrow> c \<noteq> CHR ''/'' \<and> c \<noteq> CHR ''.''"
  by (auto simp: is_hex_def hex_val_def)

lemma hex_plain_seg: "h \<noteq> [] \<Longrightarrow> list_all is_hex h \<Longrightarrow> plain_seg h"
  using is_hex_plain by (fastforce simp: plain_seg_def list_all_iff)

lemma hashRef_hex:
  obtains h where "trim_prefix (hashRef L d) ''xxh3:'' = h" "hashRef L d = ''xxh3:'' @ h" "length h = 32"
    "plain_seg (take 2 h)" "plain_seg (drop 2 h)" "list_all is_hex h"
proof -
  obtain h where h: "hashRef L d = ''xxh3:'' @ h" "length h = 32" "list_all is_hex h"
    using hashRef_split by blast
  have "list_all is_hex (take 2 h)" "list_all is_hex (drop 2 h)"
    using h(3) by (auto simp: list_all_iff dest: in_set_takeD in_set_dropD)
  moreover have "take 2 h \<noteq> []" "drop 2 h \<noteq> []" using h(2) by auto
  ultimately have "plain_seg (take 2 h)" "plain_seg (drop 2 h)"
    by (simp_all add: hex_plain_seg)
  moreover have "trim_prefix (hashRef L d) ''xxh3:'' = h"
    using h(1) trim_prefix_append [of "''xxh3:''"] by simp
  ultimately show thesis using h that by blast
qed

definition addr :: "lib \<Rightarrow> store \<Rightarrow> bytes \<Rightarrow> string" where
  "addr L st d = blobPath st (relPath st) (hashRef L d)"

lemma blobPath_form:
  assumes "plain_seg (take 2 h)" "plain_seg (drop 2 h)" "trim_prefix ref ''xxh3:'' = h"
  shows "blobPath st rel ref =
    path_join [configDir st, ''store'', rel, ''blobs''] @ ''/'' @ take 2 h @ ''/'' @ drop 2 h"
proof -
  have pb: "plain_seg ''blobs''" by (simp add: plain_seg_def)
  have "path_join [configDir st, ''store'', rel, ''blobs'', take 2 h, drop 2 h]
      = path_join [configDir st, ''store'', rel, ''blobs'', take 2 h] @ CHR ''/'' # drop 2 h"
    using path_join_snoc [OF assms(2,1), of "[configDir st, ''store'', rel, ''blobs'']"] by simp
  also have "path_join [configDir st, ''store'', rel, ''blobs'', take 2 h]
      = path_join [configDir st, ''store'', rel, ''blobs''] @ CHR ''/'' # take 2 h"
    using path_join_snoc [OF assms(1) pb, of "[configDir st, ''store'', rel]"] by simp
  finally show ?thesis using assms(3) by (simp add: blobPath_def)
qed

lemma addr_inject: "addr L st a = addr L st b \<Longrightarrow> hashRef L a = hashRef L b"
proof -
  assume e: "addr L st a = addr L st b"
  obtain g where g: "trim_prefix (hashRef L a) ''xxh3:'' = g" "hashRef L a = ''xxh3:'' @ g" "length g = 32"
    "plain_seg (take 2 g)" "plain_seg (drop 2 g)" by (rule hashRef_hex)
  obtain h where h: "trim_prefix (hashRef L b) ''xxh3:'' = h" "hashRef L b = ''xxh3:'' @ h" "length h = 32"
    "plain_seg (take 2 h)" "plain_seg (drop 2 h)" by (rule hashRef_hex)
  have "take 2 g @ ''/'' @ drop 2 g = take 2 h @ ''/'' @ drop 2 h"
    using e by (simp add: addr_def blobPath_form [OF g(4,5,1)] blobPath_form [OF h(4,5,1)])
  then have "take 2 g = take 2 h \<and> drop 2 g = drop 2 h"
    using g(3) h(3) by (simp add: append_eq_append_conv)
  then have "g = h" by (metis append_take_drop_id)
  with g(2) h(2) show ?thesis by simp
qed

text \<open>A temporary name is never the address of a blob: its last segment starts with a dot.\<close>

lemma last_segment: "CHR ''/'' \<notin> set b \<Longrightarrow> CHR ''/'' \<notin> set d \<Longrightarrow> a @ ''/'' @ b = c @ ''/'' @ d \<Longrightarrow> b = d"
proof -
  assume b: "CHR ''/'' \<notin> set b" "CHR ''/'' \<notin> set d" and e: "a @ ''/'' @ b = c @ ''/'' @ d"
  have "split_on (CHR ''/'') (a @ CHR ''/'' # b) = split_on (CHR ''/'') (c @ CHR ''/'' # d)"
    using e by simp
  then show "b = d" using b by (simp add: split_on_append_sep)
qed

definition tmp_of :: "string \<Rightarrow> string \<Rightarrow> bool" where
  "tmp_of dir t \<longleftrightarrow> (\<exists>s. CHR ''/'' \<notin> set s \<and> t = dir @ ''/.tmp-'' @ s)"

lemma tmp_not_addr: "tmp_of dir t \<Longrightarrow> t \<noteq> addr L st d"
proof
  assume "tmp_of dir t" "t = addr L st d"
  then obtain s where s: "CHR ''/'' \<notin> set s" "addr L st d = dir @ ''/.tmp-'' @ s"
    by (auto simp: tmp_of_def)
  obtain h where h: "trim_prefix (hashRef L d) ''xxh3:'' = h" "length h = 32"
    "plain_seg (take 2 h)" "plain_seg (drop 2 h)" "list_all is_hex h" by (rule hashRef_hex)
  define base where "base = path_join [configDir st, ''store'', relPath st, ''blobs''] @ ''/'' @ take 2 h"
  have "base @ ''/'' @ drop 2 h = dir @ ''/'' @ (''.tmp-'' @ s)"
    using s(2) by (simp add: addr_def blobPath_form [OF h(3,4,1)] base_def)
  then have "drop 2 h = ''.tmp-'' @ s"
    using last_segment [of "drop 2 h" "''.tmp-'' @ s" base dir] s(1) h(4) by (simp add: plain_seg_def)
  then have "CHR ''.'' \<in> set h" by (metis append_Cons in_set_dropD list.set_intros(1))
  with h(5) is_hex_plain show False by (auto simp: list_all_iff)
qed

section \<open>The effect of PutBlob\<close>

text \<open>\<open>effect t p b w w'\<close>: only the files \<open>t\<close> and \<open>p\<close> may differ, and \<open>p\<close> only by now holding \<open>b\<close>.\<close>

definition effect :: "string \<Rightarrow> string \<Rightarrow> bytes \<Rightarrow> os \<Rightarrow> os \<Rightarrow> bool" where
  "effect t p b w w' \<longleftrightarrow>
     (\<forall>q. q \<noteq> t \<longrightarrow> q \<noteq> p \<longrightarrow> files w' q = files w q) \<and>
     (files w' p = files w p \<or> files w' p = Some b) \<and> same_env w w'"

lemma effect_refl: "effect t p b w w"
  by (simp add: effect_def)

lemma effect_trans: "effect t p b u v \<Longrightarrow> effect t p b v w \<Longrightarrow> effect t p b u w"
  by (auto simp: effect_def intro: same_env_trans)

lemma effect_same: "files w' = files w \<Longrightarrow> same_env w w' \<Longrightarrow> effect t p b w w'"
  by (simp add: effect_def)

lemma stat_effect: "nonempty_stat p w = (x, w') \<Longrightarrow> files w' = files w \<and> dirs w' = dirs w \<and> same_env w w'"
  by (auto simp: nonempty_stat_def os_defs same_env_def split: option.splits sum.splits)

lemma stat_true: "nonempty_stat p w = (True, w') \<Longrightarrow> \<exists>c. files w p = Some c \<and> c \<noteq> []"
  by (auto simp: nonempty_stat_def os_defs split: option.splits sum.splits)

lemma remove_effect: "t \<noteq> p \<Longrightarrow> effect t p b w (snd (os_remove t w))"
  by (auto simp: effect_def os_defs same_env_def split: option.splits)

lemma close_effect: "os_close t w = (r, w') \<Longrightarrow> files w' = files w \<and> same_env w w'"
  by (auto simp: os_defs same_env_def)

lemma write_effect: "os_write t c w = (r, w') \<Longrightarrow> t \<noteq> p \<Longrightarrow>
    effect t p b w w' \<and> (r = None \<longrightarrow> files w' t = Some c)"
  by (auto simp: effect_def os_defs same_env_def split: option.splits)

lemma put_rename_effect:
  assumes "put_rename pf ref t p w = (r, w')" "files w t = Some b" "b \<noteq> []" "t \<noteq> p"
  shows "effect t p b w w' \<and> (\<forall>x. r = Inr x \<longrightarrow> x = ref \<and> (\<exists>c. files w' p = Some c \<and> c \<noteq> []))"
proof -
  obtain r1 w1 where c: "renameAtomic pf t p w = (r1, w1)" by fastforce
  note rc = renameAtomic_cases [OF c]
  show ?thesis
  proof (cases r1)
    case None
    with rc assms(2) have "files w1 = (files w)(t := None, p := Some b)" "same_env w w1"
      by (auto simp: rename_result_def moved_def)
    then have "effect t p b w w1" "files w1 p = Some b" by (auto simp: effect_def)
    with None assms(1,3) c show ?thesis by (auto simp: put_rename_def)
  next
    case (Some e)
    with rc have same: "files w1 = files w" "same_env w w1"
      by (auto simp: rename_result_def same_files_def)
    obtain y w2 where s: "nonempty_stat p w1 = (y, w2)" by fastforce
    define w3 where "w3 = snd (os_remove t w2)"
    have "effect t p b w w1" "effect t p b w1 w2" "effect t p b w2 w3"
      using same stat_effect [OF s] remove_effect [OF assms(4)] by (auto simp: effect_same w3_def)
    then have eff: "effect t p b w w3" by (blast intro: effect_trans)
    have "files w3 p = files w1 p"
      using stat_effect [OF s] assms(4) by (auto simp: w3_def os_defs split: option.splits)
    with eff Some assms(1) c s stat_true [of p w1 w2] show ?thesis
      by (cases y) (auto simp: put_rename_def w3_def)
  qed
qed

lemma put_tmp_effect:
  assumes "put_tmp pf ref b t p w = (r, w')" "b \<noteq> []" "t \<noteq> p"
  shows "effect t p b w w' \<and> (\<forall>x. r = Inr x \<longrightarrow> x = ref \<and> (\<exists>c. files w' p = Some c \<and> c \<noteq> []))"
proof -
  obtain r1 w1 where wr: "os_write t b w = (r1, w1)" by fastforce
  obtain r2 w2 where cl: "os_close t w1 = (r2, w2)" by fastforce
  have e1: "effect t p b w w1" and e2: "effect t p b w1 w2"
    using write_effect [OF wr assms(3)] close_effect [OF cl] by (auto intro: effect_same)
  have e3: "effect t p b w (snd (os_remove t w2))"
    using e1 e2 remove_effect [OF assms(3)] by (blast intro: effect_trans)
  show ?thesis
  proof (cases "r1 = None \<and> r2 = None")
    case True
    then have pr: "put_rename pf ref t p w2 = (r, w')"
      using assms(1) wr cl by (simp add: put_tmp_def)
    have "files w2 t = Some b"
      using True write_effect [OF wr assms(3)] close_effect [OF cl] by simp
    from put_rename_effect [OF pr this assms(2,3)] e1 e2 show ?thesis
      by (blast intro: effect_trans)
  next
    case False
    with assms(1) wr cl e3 show ?thesis
      by (cases r1; cases r2) (auto simp: put_tmp_def)
  qed
qed

definition rnd_ok :: "os \<Rightarrow> bool" where
  "rnd_ok w \<longleftrightarrow> (\<forall>n. CHR ''/'' \<notin> set (rnd w n))"

lemma PutBlob_effect:
  assumes put: "PutBlob L pf st d w = (r, w')" and z: "zstd_law L" "d \<noteq> []" and ok: "rnd_ok w"
  defines "p \<equiv> addr L st d"
  shows "\<exists>t. tmp_of (path_dir p) t \<and> effect t p (zenc L d) w w'
    \<and> (\<forall>x. r = Inr x \<longrightarrow> x = hashRef L d \<and> (\<exists>c. files w' p = Some c \<and> c \<noteq> []))"
proof -
  define dir where "dir = path_dir p"
  have nz: "zenc L d \<noteq> []" using z by (simp add: zstd_law_def)
  have anyt: "tmp_of dir (dir @ ''/.tmp-'' @ rnd w n)" for n
    using ok by (auto simp: tmp_of_def rnd_ok_def)
  obtain x w1 where s: "nonempty_stat p w = (x, w1)" by fastforce
  note se = stat_effect [OF s]
  have put': "(case nonempty_stat p w of (True, w') \<Rightarrow> (Inr (hashRef L d), w')
      | (False, w') \<Rightarrow> (case os_mkdir_all dir w' of
             (Some e, w'') \<Rightarrow> (Inl (Wrap ''lmo: mkdir blob'' e), w'')
           | (None, w'') \<Rightarrow> (case os_create_temp dir w'' of
                  (Inl e, w3) \<Rightarrow> (Inl (Wrap ''lmo: create tmp blob'' e), w3)
                | (Inr tmpPath, w3) \<Rightarrow> put_tmp pf (hashRef L d) (zenc L d) tmpPath p w3))) = (r, w')"
    using put unfolding dir_def p_def addr_def by (simp add: PutBlob_def Let_def)
  show ?thesis
  proof (cases x)
    case True
    with put' s have "r = Inr (hashRef L d)" "w' = w1" by simp_all
    with se stat_true [of p w w1] s True anyt show ?thesis
      by (intro exI [of _ "dir @ ''/.tmp-'' @ rnd w 0"]) (auto simp: effect_same dir_def)
  next
    case False
    obtain y w2 where m: "os_mkdir_all dir w1 = (y, w2)" by fastforce
    then have me: "files w2 = files w1 \<and> same_env w1 w2"
      by (auto simp: os_defs same_env_def split: option.splits)
    obtain z' w3 where c: "os_create_temp dir w2 = (z', w3)" by fastforce
    have envs: "same_env w w2" using se me by (blast intro: same_env_trans)
    show ?thesis
    proof (cases "y = None \<and> (\<exists>t. z' = Inr t)")
      case True
      then obtain t where t: "y = None" "z' = Inr t" by blast
      then have tt: "t = dir @ ''/.tmp-'' @ rnd w2 (calls w2)"
        and ce: "files w3 = (files w2)(t := Some [])" "same_env w2 w3"
        using c by (auto simp: os_defs same_env_def split: option.splits if_splits)
      have tmp: "tmp_of dir t" using tt anyt envs by (simp add: same_env_def)
      then have tp: "t \<noteq> p" unfolding p_def by (rule tmp_not_addr)
      have e03: "effect t p (zenc L d) w w3"
        using se me ce envs tp by (auto simp: effect_def intro: same_env_trans)
      have "put_tmp pf (hashRef L d) (zenc L d) t p w3 = (r, w')"
        using put' s False m c t by simp
      from put_tmp_effect [OF this nz tp] e03 tmp show ?thesis
        by (auto simp: dir_def intro: effect_trans)
    next
      case False
      have c3: "files w3 = files w2 \<and> same_env w2 w3" if "z' = Inl e" for e
        using c that by (auto simp: os_defs same_env_def split: option.splits if_splits)
      from False put' s \<open>\<not> x\<close> m c have "(\<exists>e. r = Inl e) \<and> files w' = files w \<and> same_env w w'"
        using se me c3 by (cases y; cases z') (auto intro: same_env_trans)
      then show ?thesis using anyt
        by (intro exI [of _ "dir @ ''/.tmp-'' @ rnd w 0"]) (auto simp: effect_same dir_def)
    qed
  qed
qed

section \<open>The invariant of the store\<close>

text \<open>
  \<open>S\<close> is the set of byte strings in play.  The store is sound for \<open>S\<close> when its path is UTF-8, as all that comes
  from JSON, no member of \<open>S\<close> is empty, no two of them have the same hash, and the file at the address of a member is missing, empty (left by a killed
  process) or exactly that member, compressed.
\<close>

definition sound :: "lib \<Rightarrow> store \<Rightarrow> bytes set \<Rightarrow> os \<Rightarrow> bool" where
  "sound L st S w \<longleftrightarrow> zstd_law L \<and> inj_on (hashRef L) S \<and> rnd_ok w \<and> utf8 (relPath st) \<and> [] \<notin> S \<and>
     (\<forall>d \<in> S. files w (addr L st d) \<in> {None, Some [], Some (zenc L d)})"

definition holds :: "lib \<Rightarrow> store \<Rightarrow> os \<Rightarrow> bytes \<Rightarrow> bool" where
  "holds L st w d \<longleftrightarrow> files w (addr L st d) = Some (zenc L d)"

lemma addr_inj_on: "inj_on (hashRef L) S \<Longrightarrow> a \<in> S \<Longrightarrow> b \<in> S \<Longrightarrow> addr L st a = addr L st b \<Longrightarrow> a = b"
  by (meson addr_inject inj_onD)

lemma sound_nonempty: "sound L st S w \<Longrightarrow> d \<in> S \<Longrightarrow> zstd_law L \<and> d \<noteq> [] \<and> rnd_ok w"
  by (auto simp: sound_def)

lemma PutBlob_files:
  assumes "PutBlob L pf st d w = (r, w')" "sound L st S w" "d \<in> S" "e \<in> S"
  shows "files w' (addr L st e) = files w (addr L st e)
     \<or> e = d \<and> files w' (addr L st d) = Some (zenc L d)"
proof -
  obtain t where t: "tmp_of (path_dir (addr L st d)) t" "effect t (addr L st d) (zenc L d) w w'"
    using PutBlob_effect [OF assms(1)] sound_nonempty [OF assms(2,3)] by blast
  have "addr L st e \<noteq> t" using tmp_not_addr [OF t(1)] by metis
  moreover have "addr L st e = addr L st d \<Longrightarrow> e = d"
    using assms addr_inj_on by (metis sound_def)
  ultimately show ?thesis using t(2) by (auto simp: effect_def)
qed

lemma PutBlob_sound:
  assumes "PutBlob L pf st d w = (r, w')" "sound L st S w" "d \<in> S"
  shows "sound L st S w'"
proof -
  have "same_env w w'"
    using PutBlob_effect [OF assms(1)] sound_nonempty [OF assms(2,3)] by (auto simp: effect_def)
  moreover have "files w' (addr L st e) \<in> {None, Some [], Some (zenc L e)}" if "e \<in> S" for e
    using PutBlob_files [OF assms that] assms(2) that by (auto simp: sound_def)
  ultimately show ?thesis using assms(2) by (simp add: sound_def rnd_ok_def same_env_def)
qed

lemma PutBlob_mono:
  assumes "PutBlob L pf st d w = (r, w')" "sound L st S w" "d \<in> S" "e \<in> S" "holds L st w e"
  shows "holds L st w' e"
  using PutBlob_files [OF assms(1-4)] assms(5) by (auto simp: holds_def)

lemma PutBlob_holds:
  assumes "PutBlob L pf st d w = (Inr x, w')" "sound L st S w" "d \<in> S"
  shows "x = hashRef L d \<and> holds L st w' d"
proof -
  have "x = hashRef L d" "\<exists>c. files w' (addr L st d) = Some c \<and> c \<noteq> []"
    using PutBlob_effect [OF assms(1)] sound_nonempty [OF assms(2,3)] by blast+
  moreover have "files w' (addr L st d) \<in> {None, Some [], Some (zenc L d)}"
    using PutBlob_sound [OF assms] assms(3) by (simp add: sound_def)
  ultimately show ?thesis by (auto simp: holds_def)
qed

lemma GetBlob_env: "GetBlob L pf st ref rel w = (r, w') \<Longrightarrow> same_files w w' \<and> same_env w w'"
  by (auto simp: GetBlob_def Let_def dest!: readFile_env split: if_splits prod.splits sum.splits)

lemma GetBlob_holds:
  assumes "zstd_law L" "faultless w" "holds L st w d"
  shows "GetBlob L pf st (hashRef L d) (relPath st) w = (Inr d, tick w)"
proof -
  obtain h where h: "trim_prefix (hashRef L d) ''xxh3:'' = h" "length h = 32"
    by (rule hashRef_hex)
  have "readFile pf (blobPath st (relPath st) (hashRef L d)) w = (Inr (zenc L d), tick w)"
    using assms(2,3) by (simp add: readFile_faultless holds_def addr_def)
  with assms(1) h show ?thesis by (simp add: GetBlob_def Let_def zstd_law_def)
qed

section \<open>The contract of the blob store\<close>

locale blob_store =
  fixes put :: "bytes \<Rightarrow> 's \<Rightarrow> string res \<times> 's"
    and look :: "string \<Rightarrow> 's \<Rightarrow> bytes res \<times> 's"
    and ref_of :: "bytes \<Rightarrow> string"
    and inv :: "'s \<Rightarrow> bool"
    and stored :: "'s \<Rightarrow> bytes \<Rightarrow> bool"
    and quiet :: "'s \<Rightarrow> bool"
    and S :: "bytes set"
  assumes put_inv: "put d s = (r, s') \<Longrightarrow> inv s \<Longrightarrow> d \<in> S \<Longrightarrow> inv s'"
    and put_ref: "put d s = (Inr x, s') \<Longrightarrow> inv s \<Longrightarrow> d \<in> S \<Longrightarrow> x = ref_of d \<and> stored s' d"
    and put_mono: "put d s = (r, s') \<Longrightarrow> inv s \<Longrightarrow> d \<in> S \<Longrightarrow> e \<in> S \<Longrightarrow> stored s e \<Longrightarrow> stored s' e"
    and look_stored: "inv s \<Longrightarrow> quiet s \<Longrightarrow> d \<in> S \<Longrightarrow> stored s d \<Longrightarrow> fst (look (ref_of d) s) = Inr d"
begin

fun put_all :: "bytes list \<Rightarrow> 's \<Rightarrow> 's" where
  "put_all [] s = s"
| "put_all (d # ds) s = put_all ds (snd (put d s))"

lemma put_all_keeps:
  "inv s \<Longrightarrow> set ds \<subseteq> S \<Longrightarrow> inv (put_all ds s) \<and> (\<forall>e \<in> S. stored s e \<longrightarrow> stored (put_all ds s) e)"
proof (induction ds arbitrary: s)
  case (Cons d ds)
  obtain r s' where p: "put d s = (r, s')" by fastforce
  with Cons.prems have "inv s'" "\<forall>e \<in> S. stored s e \<longrightarrow> stored s' e"
    using put_inv put_mono by auto
  with Cons.IH [of s'] Cons.prems p show ?case by simp
qed simp

text \<open>What was written is read back, whatever else is written in between.\<close>

lemma look_after_puts:
  assumes "put d s = (Inr x, s')" "inv s" "d \<in> S" "set ds \<subseteq> S" "quiet (put_all ds s')"
  shows "fst (look x (put_all ds s')) = Inr d"
proof -
  have s': "inv s'" "x = ref_of d" "stored s' d"
    using put_inv put_ref assms(1-3) by auto
  with put_all_keeps [OF s'(1) assms(4)] assms(3,5) show ?thesis
    using look_stored by auto
qed

end

interpretation lmo: blob_store "PutBlob L pf st" "\<lambda>ref. GetBlob L pf st ref (relPath st)" "hashRef L"
    "sound L st S" "holds L st" faultless S
  for L pf st S
proof
  show "fst (GetBlob L pf st (hashRef L d) (relPath st) s) = Inr d"
    if "sound L st S s" "faultless s" "d \<in> S" "holds L st s d" for s d
    using that by (simp add: GetBlob_holds sound_def)
qed (auto intro: PutBlob_sound PutBlob_mono dest: PutBlob_holds)

section \<open>Writing succeeds when the file system does\<close>

text \<open>No file in the way of a temporary name.\<close>

definition no_tmp :: "os \<Rightarrow> bool" where
  "no_tmp w \<longleftrightarrow> (\<forall>dir t. tmp_of dir t \<longrightarrow> files w t = None)"

definition healthy :: "os \<Rightarrow> bool" where
  "healthy w \<longleftrightarrow> faultless w \<and> rnd_ok w \<and> no_tmp w"

lemma tmp_of_mono: "rnd_ok w \<Longrightarrow> tmp_of dir (dir @ ''/.tmp-'' @ rnd w n)"
  by (auto simp: tmp_of_def rnd_ok_def)

lemma PutBlob_succeeds:
  assumes h: "healthy w"
  shows "\<exists>w'. PutBlob L pf st d w = (Inr (hashRef L d), w') \<and> healthy w'"
proof -
  let ?p = "addr L st d" and ?r = "hashRef L d"
  define dir where "dir = path_dir ?p"
  have f: "faultless w" "rnd_ok w" "no_tmp w" using h by (auto simp: healthy_def)
  show ?thesis
  proof (cases "nonempty_stat ?p w")
    case (Pair x w1)
    then have w1: "w1 = tick w"
      using f(1) by (auto simp: nonempty_stat_def os_stat_def split: option.splits sum.splits prod.splits)
    have hw: "healthy (tick w)"
      using h by (auto simp: healthy_def faultless_def rnd_ok_def no_tmp_def tick_def)
    show ?thesis
    proof (cases x)
      case True
      with Pair w1 hw show ?thesis by (simp add: PutBlob_def Let_def flip: addr_def)
    next
      case False
      define w2 where "w2 = (tick w1)\<lparr>dirs := insert dir (dirs w1)\<rparr>"
      have f2: "faultless w2" "faultless w1" using f(1) w1 by (simp_all add: faultless_def w2_def tick_def)
      have m: "os_mkdir_all dir w1 = (None, w2)"
        using f2(2) by (simp add: os_mkdir_all_def w2_def tick_def)
      define t where "t = dir @ ''/.tmp-'' @ rnd w (calls w2)"
      have tmp: "tmp_of dir t" unfolding t_def using f(2) by (rule tmp_of_mono)
      then have free: "files w2 t = None" and tp: "t \<noteq> ?p"
        using f(3) tmp_not_addr [OF tmp] by (auto simp: no_tmp_def w2_def w1 tick_def)
      define w3 where "w3 = (tick w2)\<lparr>files := (files w2)(t \<mapsto> [])\<rparr>"
      have c: "os_create_temp dir w2 = (Inr t, w3)"
        using f2(1) free by (simp add: os_create_temp_def Let_def t_def w3_def w2_def w1 tick_def)
      define w5 where "w5 = tick ((tick w3)\<lparr>files := (files w3)(t \<mapsto> zenc L d)\<rparr>)"
      have f5: "faultless w3" "faultless w5" "faultless ((tick w3)\<lparr>files := (files w3)(t \<mapsto> zenc L d)\<rparr>)"
        using f2(1) by (simp_all add: faultless_def w3_def w5_def tick_def)
      have "files w5 t = Some (zenc L d)" by (simp add: w5_def tick_def)
      then obtain w6 where rn: "renameAtomic pf t ?p w5 = (None, w6)"
        using renameAtomic_faultless f5(2) by blast
      from renameAtomic_cases [OF rn] have rr: "moved t ?p w5 w6" "same_env w5 w6"
        by (auto simp: rename_result_def)
      have "PutBlob L pf st d w = (Inr ?r, w6)"
        using Pair False w1 m c f5 rn
        by (simp add: PutBlob_def Let_def flip: addr_def dir_def)
          (simp add: put_tmp_def put_rename_def os_write_def os_close_def flip: w5_def)
      moreover have "files w6 q = None" if "tmp_of dr q" for dr q
        using rr(1) f(3) that tmp_not_addr [OF that, of L st d]
        by (auto simp: moved_def w5_def w3_def w2_def w1 tick_def no_tmp_def)
      moreover have "faultless w6 \<and> rnd_ok w6"
        using rr(2) f(1,2) by (simp add: same_env_def faultless_def rnd_ok_def w5_def w3_def w2_def w1 tick_def)
      ultimately show ?thesis by (auto simp: healthy_def no_tmp_def)
    qed
  qed
qed

end
