(* ===== verification/Lmo_Walk.thy ===== *)
theory Lmo_Walk
  imports Lmo_Blob
begin

text \<open>
  Packing and resolving whole documents.  A packed document stands for an original one: the relation
  \<open>packed\<close> says so, \<^verbatim>\<open>Pack\<close> produces it and \<^verbatim>\<open>ResolveAll\<close> undoes it.  Both rest on one lemma about the
  shared walk, \<open>walk_spec\<close>.
\<close>

section \<open>Markers and documents without markers\<close>

definition isref :: "sem \<Rightarrow> json \<Rightarrow> bool" where
  "isref D j = (case j of
     JObj kvs \<Rightarrow>
       (case map_of kvs ''__magic'' of Some m \<Rightarrow> jint D m = Magic | None \<Rightarrow> False) \<and>
       (case map_of kvs ''__ref'' of Some v \<Rightarrow> str_nonempty v | None \<Rightarrow> False)
   | _ \<Rightarrow> False)"

fun no_ref :: "sem \<Rightarrow> json \<Rightarrow> bool" where
  "no_ref D (JArr vs) = list_all (no_ref D) vs"
| "no_ref D (JObj kvs) = (\<not> isref D (JObj kvs) \<and> list_all (\<lambda>(k, v). no_ref D v) kvs)"
| "no_ref D _ = True"

lemma no_ref_isref: "no_ref D j \<Longrightarrow> \<not> isref D j"
  by (cases j) (auto simp: isref_def)

lemma no_ref_child: "no_ref D j \<Longrightarrow> (k, c) \<in> set (children j) \<Longrightarrow> no_ref D c"
  by (cases j) (auto simp: list_all_iff enumerate_eq_zip dest: set_zip_rightD)

lemma marker_keys: "simple_key ''__magic''" "simple_key ''__ref''" "simple_key ''__path''"
  "simple_key ''__size''" "simple_key ''__type''" "simple_key ''__len''"
  "\<not> list_all is_digit ''__magic''" "\<not> list_all is_digit ''__ref''" "\<not> list_all is_digit ''__path''"
  by (simp_all add: simple_key_def plain_char_def is_digit_def)

lemma get_member:
  assumes "lib_laws L D" "den D b = Some (JObj kvs)" "simple_key k" "\<not> list_all is_digit k"
  shows "case map_of kvs k of None \<Rightarrow> \<not> exists L (get L b k) \<and> get L b k = no_result
    | Some v \<Rightarrow> exists L (get L b k) \<and> rep D (get L b k) v"
  using lib_lawsD(4) [OF assms(1)] assms(2-4) by (fastforce simp: get_law_def)

lemma scalar_laws:
  assumes "lib_laws L D"
  shows "rep D r j \<Longrightarrow> int_of L r = jint D j" "rep D r j \<Longrightarrow> str L r \<noteq> [] \<longleftrightarrow> str_nonempty j"
    "rep D r (JStr s) \<Longrightarrow> str L r = s" "rep D r j \<Longrightarrow> \<not> str_nonempty j \<Longrightarrow> length (graw r) \<le> 4"
    "int_of L no_result = 0" "str L no_result = []" "container j \<Longrightarrow> jint D j = 0"
    "n < 2 ^ 53 \<Longrightarrow> jint D (JNum (show_nat n)) = int n"
  using lib_lawsD(5) [OF assms] by (auto simp: scalar_law_def)

lemma verbatim_key:
  assumes "lib_laws L D" "den D b = Some (JObj kvs)" "simple_key k" "map_of kvs k = Some v"
  shows "contains_str b k"
proof -
  have "k \<in> fst ` set kvs" using assms(4) by (metis domI dom_map_of_conv_image_fst)
  with lib_lawsD(6) [OF assms(1)] assms(2,3) show ?thesis by (auto simp: set_val_law_def)
qed

lemma IsBlobRef_isref:
  assumes L: "lib_laws L D" and r: "rep D r j"
  shows "IsBlobRef L r = isref D j"
proof (cases j)
  case (JObj kvs)
  then have d: "den D (graw r) = Some (JObj kvs)" and t: "gtype r = TJSON"
    using r by (auto simp: rep_def)
  note m = get_member [OF L d marker_keys(1,7)] and f = get_member [OF L d marker_keys(2,8)]
  show ?thesis
  proof (cases "map_of kvs ''__magic'' = None \<or> map_of kvs ''__ref'' = None")
    case True
    with m f show ?thesis
      by (auto simp: IsBlobRef_def isref_def JObj Let_def Magic_def scalar_laws(5) [OF L] split: option.splits)
  next
    case False
    then obtain x y where xy: "map_of kvs ''__magic'' = Some x" "map_of kvs ''__ref'' = Some y" by auto
    with m f have "rep D (get L (graw r) ''__magic'') x" "rep D (get L (graw r) ''__ref'') y"
      "exists L (get L (graw r) ''__ref'')" by auto
    moreover have "contains_str (graw r) ''__magic''" "contains_str (graw r) ''__ref''"
      using verbatim_key [OF L d] marker_keys xy by auto
    ultimately show ?thesis using t xy
      by (simp add: IsBlobRef_def isref_def JObj Let_def scalar_laws(1,2) [OF L])
  qed
next
  case (JArr vs)
  then have d: "den D (graw r) = Some (JArr vs)" using r by (simp add: rep_def)
  have "get L (graw r) ''__magic'' = no_result"
    using lib_lawsD(4) [OF L] d marker_keys by (fastforce simp: get_law_def)
  then show ?thesis by (simp add: IsBlobRef_def isref_def JArr Let_def scalar_laws(5) [OF L] Magic_def)
qed (use r in \<open>auto simp: IsBlobRef_def isref_def rep_def\<close>)

section \<open>What marshalBlobRef writes\<close>

definition marker :: "blob_ref \<Rightarrow> json" where
  "marker br = JObj (map (\<lambda>(k, v). (k, the (lit_json v))) (blob_ref_fields br))"

lemma set_val_append:
  assumes "lib_laws L D" "members D b = Some kvs" "path_key k" "k \<notin> fst ` set kvs" "lit_json g = Some v" "lit_ok g"
  shows "\<exists>b'. set_val L b k g = (b', None) \<and> den D b' = Some (JObj (kvs @ [(k, v)])) \<and> has_prefix b' ''{''"
  using lib_lawsD(6) [OF assms(1)] assms(2,3,5,6) update_new [OF assms(4)] unfolding set_val_law_def by metis

lemma fold_set_val:
  assumes "lib_laws L D" "members D b = Some kvs"
    "\<forall>(k, g) \<in> set fs. path_key k \<and> lit_json g \<noteq> None \<and> lit_ok g"
    "distinct (map fst kvs @ map fst fs)"
  shows "members D (fold (\<lambda>(k, v) out. fst (set_val L out k v)) fs b)
      = Some (kvs @ map (\<lambda>(k, v). (k, the (lit_json v))) fs)
    \<and> (fs \<noteq> [] \<longrightarrow> has_prefix (fold (\<lambda>(k, v) out. fst (set_val L out k v)) fs b) ''{'')"
  using assms(2-4)
proof (induction fs arbitrary: b kvs)
  case (Cons f fs)
  obtain k g where f: "f = (k, g)" by fastforce
  with Cons.prems(2) obtain v where v: "lit_json g = Some v" "path_key k" "lit_ok g" by auto
  moreover have "k \<notin> fst ` set kvs" using Cons.prems(3) f by auto
  ultimately obtain b' where b': "set_val L b k g = (b', None)" "den D b' = Some (JObj (kvs @ [(k, v)]))"
    "has_prefix b' ''{''"
    using set_val_append [OF assms(1) Cons.prems(1)] by blast
  then have m: "members D b' = Some (kvs @ [(k, v)])"
    by (auto simp: members_def has_prefix_def)
  have "members D (fold (\<lambda>(k, v) out. fst (set_val L out k v)) fs b')
      = Some ((kvs @ [(k, v)]) @ map (\<lambda>(k, v). (k, the (lit_json v))) fs)
    \<and> (fs \<noteq> [] \<longrightarrow> has_prefix (fold (\<lambda>(k, v) out. fst (set_val L out k v)) fs b') ''{'')"
    using Cons.prems f by (intro Cons.IH m) auto
  with b' v f show ?case by (cases "fs = []") auto
qed simp

text \<open>The texts of a marker are UTF-8.\<close>

definition marker_text :: "blob_ref \<Rightarrow> bool" where
  "marker_text br \<longleftrightarrow> utf8 (Ref br) \<and> utf8 (Path br) \<and> utf8 (Type br)"

lemma blob_ref_fields_ok:
  "\<forall>(k, g) \<in> set (blob_ref_fields br). path_key k \<and> lit_json g \<noteq> None"
  "distinct (map fst (blob_ref_fields br))"
  "marker_text br \<Longrightarrow> \<forall>(k, g) \<in> set (blob_ref_fields br). lit_ok g"
  by (auto simp: blob_ref_fields_def marker_keys path_key_def marker_text_def is_digit_def)

lemma marshal_marker:
  assumes "lib_laws L D" "marker_text br"
  shows "den D (marshalBlobRef L br) = Some (marker br) \<and> has_prefix (marshalBlobRef L br) ''{''"
proof -
  have "members D [] = Some []" by (simp add: members_def)
  from fold_set_val [OF assms(1) this, of "blob_ref_fields br"] blob_ref_fields_ok [of br] assms(2)
  have m: "members D (marshalBlobRef L br) = Some (map (\<lambda>(k, v). (k, the (lit_json v))) (blob_ref_fields br))"
    and p: "has_prefix (marshalBlobRef L br) ''{''"
    by (auto simp: marshalBlobRef_def blob_ref_fields_def)
  from p have "marshalBlobRef L br \<noteq> []" by (auto simp: has_prefix_def)
  with m p show ?thesis by (auto simp: members_def marker_def split: option.splits json.splits)
qed

lemma hashRef_utf8: "utf8 (hashRef L d)"
proof -
  obtain hi lo where "hashRef L d = ''xxh3:'' @ hex_encode (be_bytes hi @ be_bytes lo)" by (cases "xxh L d") (auto simp: hashRef_def)
  then show ?thesis using hex_ascii [OF hex_encode_is_hex] by (intro utf8_ascii) simp
qed

lemma buildBlobRef_text: "utf8 (relPath st) \<Longrightarrow> utf8 ref \<Longrightarrow> marker_text (buildBlobRef L st ref v)"
  by (simp add: marker_text_def buildBlobRef_def Let_def utf8_ascii)

lemma marker_members:
  "marker br = JObj kvs \<Longrightarrow> map_of kvs ''__ref'' = Some (JStr (Ref br))
     \<and> map_of kvs ''__magic'' = Some (JNum (show_int (RMagic br)))
     \<and> map_of kvs ''__path'' = Some (JStr (Path br))"
  by (auto simp: marker_def blob_ref_fields_def)

lemma marker_isref:
  assumes "lib_laws L D" "RMagic br = Magic" "Ref br \<noteq> []"
  shows "isref D (marker br)"
proof -
  obtain kvs where k: "marker br = JObj kvs" by (simp add: marker_def)
  have "show_int (RMagic br) = show_nat 20260301" by (simp add: assms(2) Magic_def show_int_def)
  moreover have "jint D (JNum (show_nat 20260301)) = Magic"
    using scalar_laws(8) [OF assms(1), of 20260301] by (simp add: Magic_def)
  ultimately show ?thesis using marker_members [OF k] assms(3) by (simp add: k isref_def)
qed

lemma buildBlobRef_fields [simp]:
  "Ref (buildBlobRef L st ref v) = ref" "RMagic (buildBlobRef L st ref v) = Magic"
  "Path (buildBlobRef L st ref v) = relPath st" "Size (buildBlobRef L st ref v) = length (graw v)"
  by (simp_all add: buildBlobRef_def Let_def)

section \<open>The walk\<close>

text \<open>
  The walk visits the children from the \<open>i\<close>-th on.  If the visitor never runs out of fuel, keeps the
  state invariant \<open>Inv\<close>, and answers every child \<open>v\<close> under key \<open>k\<close> with a value related to it by
  \<open>R\<close>, the written document has the same keys and kind, with related children.  \<open>E\<close> says whether
  the visitor may fail.
\<close>

definition visit_ok :: "sem \<Rightarrow> (os \<Rightarrow> bool) \<Rightarrow> (os \<Rightarrow> os \<Rightarrow> bool) \<Rightarrow> bool \<Rightarrow>
    (os \<Rightarrow> json \<Rightarrow> bool) \<Rightarrow> os \<Rightarrow> json \<Rightarrow> visit_result \<Rightarrow> bool" where
  "visit_ok D Inv Le E R w v x \<longleftrightarrow>
     (\<exists>res w'. x = Some (res, w') \<and> Inv w' \<and> Le w w' \<and>
        (case res of Inl e \<Rightarrow> E
         | Inr None \<Rightarrow> R w' v
         | Inr (Some raw) \<Rightarrow> (\<exists>v'. den D raw = Some v' \<and> R w' v')))"

definition walk_ok :: "sem \<Rightarrow> (os \<Rightarrow> bool) \<Rightarrow> (os \<Rightarrow> os \<Rightarrow> bool) \<Rightarrow> bool \<Rightarrow>
    (os \<Rightarrow> string \<Rightarrow> json \<Rightarrow> json \<Rightarrow> bool) \<Rightarrow> nat \<Rightarrow> json \<Rightarrow> bytes \<Rightarrow> bool \<Rightarrow> os \<Rightarrow>
    ((bytes \<times> bool) res \<times> os) option \<Rightarrow> bool" where
  "walk_ok D Inv Le E R i cur out m w x \<longleftrightarrow>
     (\<exists>res w'. x = Some (res, w') \<and> Inv w' \<and> Le w w' \<and>
        (case res of Inl e \<Rightarrow> E
         | Inr (out', m') \<Rightarrow>
             (\<not> m' \<longrightarrow> out' = out \<and> \<not> m) \<and> (opens_with cur out \<longrightarrow> opens_with cur out') \<and>
             (\<exists>cur'. den D out' = Some cur' \<and> same_kind cur cur' \<and>
                map fst (children cur') = map fst (children cur) \<and>
                take i (children cur') = take i (children cur) \<and>
                list_all2 (\<lambda>(k, v) (k', v'). R w' k v v') (drop i (children cur)) (drop i (children cur')))))"

lemma take_Suc_split:
  assumes "take (Suc i) ys = take i xs @ [y]" "i < length xs"
  shows "take i ys = take i xs" "drop i ys = y # drop (Suc i) ys"
proof -
  have "length (take (Suc i) ys) = Suc i" using assms by simp
  then have i: "i < length ys" by simp
  then have "take i ys @ [ys ! i] = take i xs @ [y]"
    using assms(1) by (simp add: take_Suc_conv_app_nth)
  then show "take i ys = take i xs" "drop i ys = y # drop (Suc i) ys"
    using i by (auto simp: Cons_nth_drop_Suc)
qed

text \<open>One child on: what the walk from \<open>Suc i\<close> does to the document with the i-th child replaced.\<close>

lemma walk_ok_step:
  assumes w: "walk_ok D Inv Le E R (Suc i) cur1 out1 m1 w1 x"
    and c: "same_kind cur cur1" "i < length (children cur)" "children cur ! i = (k, v)"
      "children cur1 = (children cur)[i := (k, v')]"
    and r: "R w1 k v v'" "Le w w1" "opens_with cur out \<longrightarrow> opens_with cur out1"
      "\<not> m1 \<longrightarrow> out1 = out \<and> \<not> m"
    and trans: "\<And>u v w. Le u v \<Longrightarrow> Le v w \<Longrightarrow> Le u w"
    and mono: "\<And>w w' k v v'. R w k v v' \<Longrightarrow> Le w w' \<Longrightarrow> R w' k v v'"
  shows "walk_ok D Inv Le E R i cur out m w x"
proof -
  obtain res w' where x: "x = Some (res, w')" "Inv w'" "Le w1 w'" and
    res: "case res of Inl e \<Rightarrow> E | Inr (out', m') \<Rightarrow>
       (\<not> m' \<longrightarrow> out' = out1 \<and> \<not> m1) \<and> (opens_with cur1 out1 \<longrightarrow> opens_with cur1 out') \<and>
       (\<exists>cur'. den D out' = Some cur' \<and> same_kind cur1 cur' \<and>
          map fst (children cur') = map fst (children cur1) \<and>
          take (Suc i) (children cur') = take (Suc i) (children cur1) \<and>
          list_all2 (\<lambda>(k, v) (k', v'). R w' k v v') (drop (Suc i) (children cur1)) (drop (Suc i) (children cur')))"
    using w unfolding walk_ok_def by blast
  have le: "Le w w'" using r(2) x(3) by (rule trans)
  show ?thesis
  proof (cases res)
    case (Inl e)
    with res x le show ?thesis by (auto simp: walk_ok_def)
  next
    case (Inr p)
    obtain out' m' where p: "p = (out', m')" by fastforce
    with res Inr obtain cur' where cur': "den D out' = Some cur'" "same_kind cur1 cur'"
        "map fst (children cur') = map fst (children cur1)"
        "take (Suc i) (children cur') = take (Suc i) (children cur1)"
        "list_all2 (\<lambda>(k, v) (k', v'). R w' k v v') (drop (Suc i) (children cur1)) (drop (Suc i) (children cur'))"
      and m: "\<not> m' \<longrightarrow> out' = out1 \<and> \<not> m1" "opens_with cur1 out1 \<longrightarrow> opens_with cur1 out'"
      by auto
    have "take (Suc i) (children cur') = take i (children cur) @ [(k, v')]"
      using cur'(4) c by (simp add: take_Suc_conv_app_nth)
    note sp = take_Suc_split [OF this c(2)]
    have "drop i (children cur) = (k, v) # drop (Suc i) (children cur)"
      using c(2,3) by (metis Cons_nth_drop_Suc)
    moreover have "R w' k v v'" using r(1) x(3) by (rule mono)
    ultimately have "list_all2 (\<lambda>(k, v) (k', v'). R w' k v v') (drop i (children cur)) (drop i (children cur'))"
      using cur'(5) sp c(4) by simp
    moreover have "map fst (children cur1) = map fst (children cur)"
      using c by (simp add: map_update list_update_same_conv)
    moreover have "same_kind cur cur'" using c(1) cur'(2) by (rule same_kind_trans)
    moreover have "opens_with cur out \<longrightarrow> opens_with cur out'"
      using r(3) m(2) c(1) by (simp add: same_kind_opens)
    moreover have "\<not> m' \<longrightarrow> out' = out \<and> \<not> m" using r(4) m(1) by auto
    ultimately have "(\<not> m' \<longrightarrow> out' = out \<and> \<not> m) \<and> (opens_with cur out \<longrightarrow> opens_with cur out') \<and>
       (\<exists>cur'. den D out' = Some cur' \<and> same_kind cur cur' \<and>
          map fst (children cur') = map fst (children cur) \<and>
          take i (children cur') = take i (children cur) \<and>
          list_all2 (\<lambda>(k, v) (k', v'). R w' k v v') (drop i (children cur)) (drop i (children cur')))"
      using cur'(1,3) sp(1) by metis
    with x le Inr p show ?thesis by (auto simp: walk_ok_def)
  qed
qed

lemma walk_spec:
  assumes L: "lib_laws L D"
    and trans: "\<And>u v w. Le u v \<Longrightarrow> Le v w \<Longrightarrow> Le u w" and refl: "\<And>w. Le w w"
    and mono: "\<And>w w' k v v'. R w k v v' \<Longrightarrow> Le w w' \<Longrightarrow> R w' k v v'"
    and vis: "\<And>kr vr k v w. (kr, vr) \<in> set Items \<Longrightarrow> (k, v) \<in> set (children j) \<Longrightarrow> rep D vr v \<Longrightarrow> Inv w \<Longrightarrow> Le w0 w \<Longrightarrow>
      visit_ok D Inv Le E (\<lambda>w'. R w' k v) w v (vis vr w)"
    and items: "list_all2 (child_rep L D) items (drop i (children cur))"
    and pre: "den D out = Some cur" "container cur" "wf_keys cur" "Inv w" "Le w0 w"
      "arr \<longrightarrow> (\<exists>vs. cur = JArr vs)" "i \<le> length (children cur)"
      "set (drop i (children cur)) \<subseteq> set (children j)" "set items \<subseteq> set Items"
  shows "walk_ok D Inv Le E R i cur out m w (walk L arr vis items i out m w)"
  using items pre
proof (induction items arbitrary: i cur out m w)
  case Nil
  then have "i = length (children cur)" by simp
  with Nil show ?case
    by (auto simp: walk_ok_def refl same_kind_refl intro: exI [of _ cur])
next
  case (Cons item items)
  obtain kr vr where item: "item = (kr, vr)" by fastforce
  from Cons.prems(1) have i: "i < length (children cur)"
    by (metis Cons.prems(8) drop_all leI list.distinct(1) list_all2_Nil2)
  obtain k v where kv: "children cur ! i = (k, v)" by fastforce
  then have dr: "drop i (children cur) = (k, v) # drop (Suc i) (children cur)"
    using i by (metis Cons_nth_drop_Suc)
  with Cons.prems(1) item have rest: "list_all2 (child_rep L D) items (drop (Suc i) (children cur))"
    and key: "str L kr = k" and rv: "rep D vr v" by (auto simp: child_rep_def)
  have kvj: "(k, v) \<in> set (children j)" using Cons.prems(9) dr by auto
  obtain res w1 where v1: "vis vr w = Some (res, w1)" "Inv w1" "Le w w1" and
    v2: "case res of Inl e \<Rightarrow> E | Inr None \<Rightarrow> R w1 k v v
       | Inr (Some raw) \<Rightarrow> (\<exists>v'. den D raw = Some v' \<and> R w1 k v v')"
    using vis [OF _ kvj rv Cons.prems(5,6), of kr] Cons.prems(10) item unfolding visit_ok_def by auto
  have sub: "set (drop (Suc i) (children cur)) \<subseteq> set (children j)" using Cons.prems(9) dr by auto
  have le1: "Le w0 w1" using v1 Cons.prems(6) trans by blast
  consider (err) e where "res = Inl e" | (keep) "res = Inr None" | (put) raw where "res = Inr (Some raw)"
    by (cases res) auto
  then show ?case
  proof cases
    case err
    with v1 v2 item show ?thesis by (simp add: walk_ok_def)
  next
    case keep
    have "walk_ok D Inv Le E R (Suc i) cur out m w1 (walk L arr vis items (Suc i) out m w1)"
      using Cons.prems(2-4,7,10) i rest v1(2) le1 sub by (intro Cons.IH) auto
    then have "walk_ok D Inv Le E R i cur out m w (walk L arr vis items (Suc i) out m w1)"
    proof (rule walk_ok_step [where v' = v])
      show "children cur = (children cur)[i := (k, v)]" using kv by (metis list_update_id)
    qed (use i kv v1 v2 keep trans mono same_kind_refl Cons.prems(3) in auto)
    with v1 keep item show ?thesis by simp
  next
    case put
    then obtain v' where v': "den D raw = Some v'" "R w1 k v v'" using v2 by auto
    let ?path = "walk_path arr i k" and ?cur' = "replace_child cur i v'"
    have "?path = dot_escape (fst (children cur ! i))"
    proof (cases arr)
      case True
      then obtain vs where vs: "cur = JArr vs" using Cons.prems(7) by blast
      have "k = show_nat i" using kv i by (simp add: vs enumerate_eq_zip)
      moreover have "dot_escape (show_nat i) = show_nat i"
        using show_nat_digits [of i]
        by (auto simp: dot_escape_def list_all_iff is_digit_def intro!: replace_all_id)
      ultimately show ?thesis using True kv by (simp add: walk_path_def)
    qed (simp add: walk_path_def escape_def dot_escape_def kv)
    then obtain out' where o: "set_raw L out ?path raw = (out', None)" "den D out' = Some ?cur'"
      "opens_with cur out \<longrightarrow> opens_with cur out'"
      using lib_lawsD(3) [OF L] Cons.prems(2-4) i v'(1) unfolding set_raw_law_def by metis
    have ch: "children ?cur' = (children cur)[i := (k, v')]"
      using children_replace [OF i] kv by simp
    have "walk_ok D Inv Le E R (Suc i) ?cur' out' True w1 (walk L arr vis items (Suc i) out' True w1)"
      using Cons.prems(3,4,7,10) i rest v1(2) le1 sub o ch
      by (intro Cons.IH) (auto simp: wf_keys_replace)
    then have "walk_ok D Inv Le E R i cur out m w (walk L arr vis items (Suc i) out' True w1)"
    proof (rule walk_ok_step [where v' = v'])
      show "same_kind cur ?cur'" using Cons.prems(3) by (rule same_kind_replace)
    qed (use i kv ch v'(2) v1(3) o(3) trans mono in auto)
    with v1 put item key o(1) show ?thesis by simp
  qed
qed

text \<open>The result of a whole walk, from the first child of an unmodified document.\<close>

lemma walk_okE:
  assumes "walk_ok D Inv Le E R 0 j out False w x"
  obtains (failed) e w' where "x = Some (Inl e, w')" "Inv w'" "Le w w'" E
  | (done_ok) out' m p w' where "x = Some (Inr (out', m), w')" "Inv w'" "Le w w'" "\<not> m \<longrightarrow> out' = out"
      "den D out' = Some p" "same_kind j p" "map fst (children p) = map fst (children j)"
      "list_all2 (\<lambda>(k, v) (k', v'). R w' k v v') (children j) (children p)"
proof -
  obtain res w' where x: "x = Some (res, w')" "Inv w'" "Le w w'" and
    res: "case res of Inl e \<Rightarrow> E | Inr (out', m') \<Rightarrow>
       (\<not> m' \<longrightarrow> out' = out \<and> \<not> False) \<and> (opens_with j out \<longrightarrow> opens_with j out') \<and>
       (\<exists>p. den D out' = Some p \<and> same_kind j p \<and> map fst (children p) = map fst (children j) \<and>
          take 0 (children p) = take 0 (children j) \<and>
          list_all2 (\<lambda>(k, v) (k', v'). R w' k v v') (drop 0 (children j)) (drop 0 (children p)))"
    using assms unfolding walk_ok_def by blast
  show thesis
  proof (cases res)
    case (Inl e)
    with x res show thesis by (auto intro: failed)
  next
    case (Inr q)
    obtain out' m where "q = (out', m)" by fastforce
    with x res Inr show thesis by (auto intro: done_ok)
  qed
qed

end
