(* ===== verification/Lmo_Roundtrip.thy ===== *)
theory Lmo_Roundtrip
  imports Lmo_Walk
begin

text \<open>
  The contract of the blob store towards the rest of the runtime: \<^verbatim>\<open>ResolveAll\<close> gives back what \<^verbatim>\<open>Pack\<close>
  took apart, whatever other blobs are written in between, and the walks end with fuel beyond the
  nesting depth of the document.
\<close>

fun depth :: "json \<Rightarrow> nat" where
  "depth (JArr vs) = Suc (fold max (map depth vs) 0)"
| "depth (JObj kvs) = Suc (fold max (map (\<lambda>(k, v). depth v) kvs) 0)"
| "depth _ = 0"

lemma le_fold_max: "x \<in> set xs \<or> x \<le> a \<Longrightarrow> (x::nat) \<le> fold max xs a"
proof (induction xs arbitrary: a)
  case (Cons y xs)
  then have "x \<in> set xs \<or> x \<le> max y a" by auto
  with Cons.IH show ?case by simp
qed simp

lemma depth_child: "(k, c) \<in> set (children j) \<Longrightarrow> depth c < depth j"
proof (cases j)
  case (JObj kvs)
  assume "(k, c) \<in> set (children j)"
  then have "depth c \<in> set (map (\<lambda>(k, v). depth v) kvs)" by (force simp: JObj)
  then show ?thesis using le_fold_max by (fastforce simp: JObj less_Suc_eq_le)
next
  case (JArr vs)
  assume "(k, c) \<in> set (children j)"
  then have "c \<in> set vs" by (auto simp: JArr enumerate_eq_zip dest: set_zip_rightD)
  then show ?thesis using le_fold_max by (fastforce simp: JArr less_Suc_eq_le)
qed auto

lemma wf_child: "wf_json j \<Longrightarrow> (k, c) \<in> set (children j) \<Longrightarrow> wf_json c"
  by (cases j) (auto simp: list_all_iff enumerate_eq_zip dest: set_zip_rightD)

text \<open>The raw texts of a value and of what it contains; packing may store the big ones.\<close>

inductive part :: "lib \<Rightarrow> gresult \<Rightarrow> bytes \<Rightarrow> bool" for L where
  part_self: "part L r (graw r)"
| part_child: "(k, c) \<in> set (for_each L r) \<Longrightarrow> part L c b \<Longrightarrow> part L r b"

definition big_parts :: "lib \<Rightarrow> gresult \<Rightarrow> bytes set" where
  "big_parts L r = {b. part L r b \<and> Threshold \<le> length b}"

lemma big_parts_self: "big_parts L r \<subseteq> S \<Longrightarrow> Threshold \<le> length (graw r) \<Longrightarrow> graw r \<in> S"
  using part_self by (force simp: big_parts_def)

lemma big_parts_child: "big_parts L r \<subseteq> S \<Longrightarrow> (k, c) \<in> set (for_each L r) \<Longrightarrow> big_parts L c \<subseteq> S"
  using part_child by (force simp: big_parts_def)

lemma marker_wf: "wf_json (marker br)"
  using blob_ref_fields_ok(1,2) [of br]
  by (auto simp: marker_def list_all_iff comp_def split_def simple_key_plain path_key_def blob_ref_fields_def)

lemma depth_le_child:
  assumes "\<forall>(k, c) \<in> set (children j). depth c \<le> d"
  shows "depth j \<le> Suc d"
proof -
  have le: "(\<forall>x \<in> set xs. x \<le> d) \<Longrightarrow> a \<le> d \<Longrightarrow> fold max xs a \<le> (d::nat)" for xs a
    by (induction xs arbitrary: a) auto
  show ?thesis
  proof (cases j)
    case (JArr vs)
    have "\<forall>x \<in> set (map depth vs). x \<le> d"
    proof
      fix x assume "x \<in> set (map depth vs)"
      then obtain i where "i < length vs" "x = depth (vs ! i)" by (auto simp: in_set_conv_nth)
      moreover have "(show_nat i, vs ! i) \<in> set (children j)" if "i < length vs" for i
        using that by (force simp: JArr enumerate_eq_zip set_zip)
      ultimately show "x \<le> d" using assms by fastforce
    qed
    then show ?thesis using le by (simp add: JArr)
  next
    case (JObj kvs)
    have "\<forall>x \<in> set (map (\<lambda>(k, v). depth v) kvs). x \<le> d" using assms by (auto simp: JObj)
    then show ?thesis using le by (simp add: JObj)
  qed auto
qed

lemma depth_marker: "depth (marker br) \<le> 1"
proof -
  have "\<forall>(k, c) \<in> set (children (marker br)). depth c \<le> 0"
    by (auto simp: marker_def blob_ref_fields_def)
  then show ?thesis using depth_le_child by fastforce
qed

text \<open>A marker for the blob at an address, its members in any order.\<close>

definition stands_for :: "sem \<Rightarrow> store \<Rightarrow> string \<Rightarrow> json \<Rightarrow> bool" where
  "stands_for D st ref m \<longleftrightarrow> isref D m \<and> wf_json m \<and> depth m \<le> 1
     \<and> (\<exists>kvs. m = JObj kvs \<and> map_of kvs ''__ref'' = Some (JStr ref) \<and> map_of kvs ''__path'' = Some (JStr (relPath st)))"

lemma marker_stands:
  assumes "lib_laws L D" "RMagic br = Magic" "Ref br \<noteq> []" "Path br = relPath st"
  shows "stands_for D st (Ref br) (marker br)"
proof -
  obtain kvs where k: "marker br = JObj kvs" by (simp add: marker_def)
  then show ?thesis
    using marker_isref [OF assms(1-3)] marker_wf [of br] depth_marker [of br] marker_members [OF k] assms(4)
    by (auto simp: stands_for_def)
qed

lemma stands_forD: "stands_for D st ref m \<Longrightarrow> isref D m \<and> container m"
  by (auto simp: stands_for_def)

section \<open>Packed documents\<close>

text \<open>
  \<open>packed n j p\<close>: with \<open>n\<close> levels of resolving, \<open>p\<close> becomes \<open>j\<close>.  A part of \<open>p\<close> is either the part of
  \<open>j\<close> itself, or a marker whose blob holds a packed form of it that is no marker itself, or is packed
  child by child.
\<close>

inductive packed :: "lib \<Rightarrow> sem \<Rightarrow> store \<Rightarrow> bytes set \<Rightarrow> os \<Rightarrow> nat \<Rightarrow> json \<Rightarrow> json \<Rightarrow> bool"
  for L D st S w where
  same: "depth j < n \<Longrightarrow> packed L D st S w n j j"
| ref: "packed L D st S w n j p \<Longrightarrow> \<not> isref D p \<Longrightarrow> rep D r p \<Longrightarrow> str_nonempty p \<Longrightarrow> graw r \<in> S \<Longrightarrow> holds L st w (graw r) \<Longrightarrow>
     stands_for D st (hashRef L (graw r)) m \<Longrightarrow> packed L D st S w (Suc n) j m"
| sub: "container j \<Longrightarrow> same_kind j p \<Longrightarrow> \<not> isref D j \<Longrightarrow> map fst (children p) = map fst (children j) \<Longrightarrow>
     (\<forall>i < length (children j). packed L D st S w n (snd (children j ! i)) (snd (children p ! i))) \<Longrightarrow>
     packed L D st S w (Suc n) j p"

inductive_cases packed_zero: "packed L D st S w 0 j p"
inductive_cases packed_Suc: "packed L D st S w (Suc n) j p"

lemma packed_mono: "packed L D st S w n j p \<Longrightarrow> n \<le> m \<Longrightarrow> packed L D st S w m j p"
proof (induction arbitrary: m rule: packed.induct)
  case (same j n)
  then show ?case by (intro packed.same) simp
next
  case (ref n j p r m)
  then obtain m' where "m = Suc m'" "n \<le> m'" by (cases m) auto
  with ref show ?case by (auto intro: packed.ref)
next
  case (sub j p n)
  then obtain m' where "m = Suc m'" "n \<le> m'" by (cases m) auto
  with sub show ?case by (auto intro: packed.sub)
qed

lemma packed_world:
  "packed L D st S w n j p \<Longrightarrow> (\<forall>d \<in> S. holds L st w d \<longrightarrow> holds L st w' d) \<Longrightarrow> packed L D st S w' n j p"
  by (induction rule: packed.induct) (auto intro: packed.intros)

lemma hashRef_nonempty [simp]: "hashRef L d \<noteq> []"
  using hashRef_split [of L d] by auto

lemma marker_container [simp]: "container (marker br)"
  by (simp add: marker_def)

lemma packed_scalar:
  "packed L D st S w n j p \<Longrightarrow> (p = j \<or> container p) \<and> (\<not> str_nonempty j \<longrightarrow> p = j)"
proof (induction rule: packed.induct)
  case (sub j p n)
  then show ?case by (cases j) (auto simp: same_kind_def split: json.splits)
qed (auto dest: stands_forD)

lemma map_of_elementwise:
  assumes "map fst ys = map fst xs" "\<forall>i < length xs. P (snd (xs ! i)) (snd (ys ! i))"
  shows "case map_of xs k of None \<Rightarrow> map_of ys k = None
    | Some v \<Rightarrow> (\<exists>v'. map_of ys k = Some v' \<and> P v v')"
  using assms
proof (induction xs arbitrary: ys)
  case (Cons x xs)
  then obtain y ys' where ys: "ys = y # ys'" "fst y = fst x" "map fst ys' = map fst xs" by (cases ys) auto
  have "P (snd x) (snd y)" using Cons.prems(2) ys by (metis length_Cons nth_Cons_0 zero_less_Suc)
  moreover have "\<forall>i < length xs. P (snd (xs ! i)) (snd (ys' ! i))" using Cons.prems(2) ys by auto
  ultimately show ?case using Cons.IH [OF ys(3)] ys by (cases x; cases y) (auto split: option.splits)
qed simp

lemma packed_sub_not_isref:
  assumes L: "lib_laws L D" and j: "container j" "same_kind j p" "\<not> isref D j"
    "map fst (children p) = map fst (children j)"
    "\<forall>i < length (children j). packed L D st S w n (snd (children j ! i)) (snd (children p ! i))"
  shows "\<not> isref D p"
proof
  assume p: "isref D p"
  then obtain kvs' where kvs': "p = JObj kvs'" by (auto simp: isref_def split: json.splits)
  then obtain kvs where kvs: "j = JObj kvs" using j(2) by (auto simp: same_kind_def split: json.splits)
  note el = map_of_elementwise [where P = "packed L D st S w n" and xs = kvs and ys = kvs']
  from p kvs' obtain m' v' where m': "map_of kvs' ''__magic'' = Some m'" "jint D m' = Magic"
    and v': "map_of kvs' ''__ref'' = Some v'" "str_nonempty v'"
    by (auto simp: isref_def split: option.splits)
  from el [of "''__magic''"] m' j kvs kvs' obtain m where m: "map_of kvs ''__magic'' = Some m" "packed L D st S w n m m'"
    by (auto split: option.splits)
  from el [of "''__ref''"] v' j kvs kvs' obtain v where v: "map_of kvs ''__ref'' = Some v" "packed L D st S w n v v'"
    by (auto split: option.splits)
  have "m' = m" using packed_scalar [OF m(2)] m'(2) scalar_laws(7) [OF L, of m'] by (auto simp: Magic_def)
  moreover have "str_nonempty v" using packed_scalar [OF v(2)] v'(2) by auto
  ultimately have "isref D j" using m v m' by (simp add: isref_def kvs)
  with j(3) show False by simp
qed

text \<open>Packing what was packed: the two forms compose.\<close>

lemma packed_trans:
  assumes "packed L D st S w m p q" "lib_laws L D" "packed L D st S w n j p"
  shows "packed L D st S w (n + m) j q"
  using assms(1,3)
proof (induction arbitrary: n j rule: packed.induct)
  case (same p m)
  then show ?case by (auto intro: packed_mono)
next
  case (ref m p q r)
  then show ?case by (auto intro: packed.ref)
next
  case (sub p q m)
  from sub.prems show ?case
  proof (cases rule: packed.cases)
    case same
    have "packed L D st S w (Suc m) p q" using sub.hyps sub.IH by (auto intro: packed.sub)
    with same show ?thesis by (auto intro: packed_mono)
  next
    case (ref p' r)
    then have "isref D p" by (auto dest: stands_forD)
    with sub.hyps show ?thesis by simp
  next
    case (sub n')
    have "packed L D st S w (Suc (n' + m)) j q"
    proof (rule packed.sub)
      show "container j" "\<not> isref D j" "same_kind j q" "map fst (children q) = map fst (children j)"
        using sub sub.hyps \<open>same_kind p q\<close> \<open>map fst (children q) = map fst (children p)\<close>
        by (auto intro: same_kind_trans)
      have "length (children p) = length (children j)" using sub by (metis length_map)
      then show "\<forall>i < length (children j). packed L D st S w (n' + m) (snd (children j ! i)) (snd (children q ! i))"
        using sub \<open>\<forall>i<length (children p). _ i\<close> by auto
    qed
    with sub show ?thesis by (auto intro: packed_mono)
  qed
qed

section \<open>Pack makes packed documents\<close>

definition keeps :: "lib \<Rightarrow> store \<Rightarrow> bytes set \<Rightarrow> os \<Rightarrow> os \<Rightarrow> bool" where
  "keeps L st S w w' \<longleftrightarrow> (\<forall>d \<in> S. holds L st w d \<longrightarrow> holds L st w' d)"

text \<open>The state invariant of packing: sound, and healthy unless errors are allowed (\<open>E\<close>).\<close>

definition pack_inv :: "lib \<Rightarrow> store \<Rightarrow> bytes set \<Rightarrow> bool \<Rightarrow> os \<Rightarrow> bool" where
  "pack_inv L st S E w \<longleftrightarrow> sound L st S w \<and> (\<not> E \<longrightarrow> healthy w)"

lemma keeps_refl: "keeps L st S w w"
  by (simp add: keeps_def)

lemma keeps_trans: "keeps L st S u v \<Longrightarrow> keeps L st S v w \<Longrightarrow> keeps L st S u w"
  by (simp add: keeps_def)

abbreviation pack_ok :: "lib \<Rightarrow> sem \<Rightarrow> store \<Rightarrow> bytes set \<Rightarrow> bool \<Rightarrow> os \<Rightarrow> json \<Rightarrow> visit_result \<Rightarrow> bool" where
  "pack_ok L D st S E w j \<equiv>
     visit_ok D (pack_inv L st S E) (keeps L st S) E (\<lambda>w'. packed L D st S w' (depth j + 2) j) w j"

lemma put_ref_spec:
  assumes L: "lib_laws L D" and r: "rep D r j" "\<not> isref D j" "str_nonempty j" "graw r \<in> S"
    and w: "pack_inv L st S E w"
  shows "pack_ok L D st S E w j (put_ref L pf st r w)"
proof -
  obtain x w' where p: "PutBlob L pf st (graw r) w = (x, w')" by fastforce
  have s: "sound L st S w" using w by (simp add: pack_inv_def)
  have inv': "sound L st S w'" "keeps L st S w w'"
    using lmo.put_inv [OF p s r(4)] lmo.put_mono [OF p s r(4)] by (auto simp: keeps_def)
  have h': "\<not> E \<Longrightarrow> healthy w' \<and> x = Inr (hashRef L (graw r))"
    using w PutBlob_succeeds [of w L pf st "graw r"] p by (auto simp: pack_inv_def)
  show ?thesis
  proof (cases x)
    case (Inl e)
    with p inv' h' show ?thesis by (auto simp: put_ref_def visit_ok_def pack_inv_def)
  next
    case (Inr y)
    then have y: "y = hashRef L (graw r)" "holds L st w' (graw r)"
      using lmo.put_ref [OF p [unfolded Inr] s r(4)] by auto
    have "packed L D st S w' (Suc (depth j)) j j" by (simp add: packed.same)
    then have "packed L D st S w' (depth j + 2) j (marker (buildBlobRef L st y r))"
      using packed.ref [of L D st S w' "Suc (depth j)" j j r] marker_stands [OF L, of "buildBlobRef L st y r" st] r y by simp
    moreover have "marker_text (buildBlobRef L st y r)" using s y(1) by (simp add: buildBlobRef_text hashRef_utf8 sound_def)
    ultimately show ?thesis using p Inr inv' h' marshal_marker [OF L]
      by (auto simp: put_ref_def visit_ok_def pack_inv_def)
  qed
qed

lemma children_rep:
  "lib_laws L D \<Longrightarrow> rep D r j \<Longrightarrow> container j \<Longrightarrow> list_all2 (child_rep L D) (for_each L r) (children j)"
  using lib_lawsD(2) by (auto simp: for_each_law_def)

text \<open>A walk whose visitor packs packs the document.\<close>

lemma pack_walk:
  assumes L: "lib_laws L D" and out: "den D out = Some j" "container j" "wf_json j"
    and items: "list_all2 (child_rep L D) items (children j)" and w: "pack_inv L st S E w"
    and vis: "\<And>kr vr k v w. (kr, vr) \<in> set items \<Longrightarrow> (k, v) \<in> set (children j) \<Longrightarrow> rep D vr v \<Longrightarrow>
      pack_inv L st S E w \<Longrightarrow> pack_ok L D st S E w v (vis vr w)"
  shows "\<exists>res w'. walk L False vis items 0 out False w = Some (res, w') \<and> pack_inv L st S E w' \<and>
    keeps L st S w w' \<and> (case res of Inl e \<Rightarrow> E | Inr (out', m) \<Rightarrow> (\<not> m \<longrightarrow> out' = out) \<and>
      (\<exists>p. den D out' = Some p \<and> same_kind j p \<and>
        (\<not> isref D j \<longrightarrow> packed L D st S w' (depth j + 2) j p \<and> \<not> isref D p)))"
proof -
  let ?R = "\<lambda>w' (k::string) v. packed L D st S w' (depth v + 2) v"
  have "walk_ok D (pack_inv L st S E) (keeps L st S) E ?R 0 j out False w (walk L False vis items 0 out False w)"
  proof (rule walk_spec [OF L, where Items = items and j = j and ?w0.0 = w])
    show "list_all2 (child_rep L D) items (drop 0 (children j))" using items by simp
  qed (use assms keeps_trans keeps_refl wf_json_keys in
      \<open>auto intro: packed_world simp: keeps_def\<close>)
  then show ?thesis
  proof (cases rule: walk_okE)
    case (done_ok out' m p w')
    have "packed L D st S w' (depth j + 2) j p \<and> \<not> isref D p" if nr: "\<not> isref D j"
    proof -
      have el: "packed L D st S w' (depth j + 1) (snd (children j ! i)) (snd (children p ! i))"
        if i: "i < length (children j)" for i
      proof -
        obtain k v where kv: "children j ! i = (k, v)" by fastforce
        then have "depth v < depth j" using i by (metis depth_child nth_mem)
        moreover have "packed L D st S w' (depth v + 2) v (snd (children p ! i))"
          using list_all2_nthD [OF done_ok(8) i] kv by (auto split: prod.splits)
        ultimately show ?thesis using kv by (auto intro: packed_mono)
      qed
      with packed.sub [of j p D L st S w' "depth j + 1"] out(2) done_ok nr
        packed_sub_not_isref [OF L out(2) done_ok(6) nr done_ok(7)] show ?thesis by auto
    qed
    with done_ok show ?thesis by auto
  qed auto
qed

lemma extract_spec:
  assumes L: "lib_laws L D"
  shows "rep D r j \<Longrightarrow> wf_json j \<Longrightarrow> big_parts L r \<subseteq> S \<Longrightarrow> depth j < n \<Longrightarrow> pack_inv L st S E w \<Longrightarrow>
    pack_ok L D st S E w j (extractField n L pf st r w)"
proof (induction n arbitrary: r j w)
  case (Suc n)
  have self: "Threshold \<le> length (graw r) \<Longrightarrow> graw r \<in> S" using Suc.prems(3) by (rule big_parts_self)
  have keep: "pack_ok L D st S E w j (Some (Inr None, w))"
    using Suc.prems(5) by (auto simp: visit_ok_def keeps_refl intro: packed.same)
  have nonempty: "Threshold \<le> length (graw r) \<Longrightarrow> str_nonempty j"
    using scalar_laws(4) [OF L Suc.prems(1)] by (auto simp: Threshold_def)
  have obj: "pack_ok L D st S E w j (extractObject n L pf st r w)"
    if o: "gtype r = TJSON" "\<not> isref D j"
  proof (cases "length (graw r) < Threshold")
    case False
    have c: "container j" using o(1) rep_type_json [OF Suc.prems(1)] by simp
    have "\<exists>res w'. walk L False (\<lambda>c u. extractField n L pf st c u) (for_each L r) 0 (graw r) False w = Some (res, w')
      \<and> pack_inv L st S E w' \<and> keeps L st S w w' \<and> (case res of Inl e \<Rightarrow> E
        | Inr (out', m) \<Rightarrow> (\<not> m \<longrightarrow> out' = graw r) \<and>
          (\<exists>p. den D out' = Some p \<and> same_kind j p \<and>
        (\<not> isref D j \<longrightarrow> packed L D st S w' (depth j + 2) j p \<and> \<not> isref D p)))"
    proof (rule pack_walk [OF L _ c Suc.prems(2) children_rep [OF L Suc.prems(1) c] Suc.prems(5)])
      show "den D (graw r) = Some j" using Suc.prems(1) by (simp add: rep_def)
      fix kr vr k v w
      assume a: "(kr, vr) \<in> set (for_each L r)" "(k, v) \<in> set (children j)" "rep D vr v" "pack_inv L st S E w"
      have "big_parts L vr \<subseteq> S" using Suc.prems(3) a(1) by (rule big_parts_child)
      moreover have "wf_json v" "depth v < n"
        using wf_child [OF Suc.prems(2) a(2)] depth_child [OF a(2)] Suc.prems(4) by auto
      ultimately show "pack_ok L D st S E w v (extractField n L pf st vr w)"
        using Suc.IH a by blast
    qed
    then obtain res w' where x: "walk L False (\<lambda>c u. extractField n L pf st c u) (for_each L r) 0 (graw r) False w = Some (res, w')"
      "pack_inv L st S E w'" "keeps L st S w w'" and
      res: "case res of Inl e \<Rightarrow> E | Inr (out', m) \<Rightarrow> (\<not> m \<longrightarrow> out' = graw r) \<and>
          (\<exists>p. den D out' = Some p \<and> same_kind j p \<and>
        (\<not> isref D j \<longrightarrow> packed L D st S w' (depth j + 2) j p \<and> \<not> isref D p))"
      by blast
    have put: "pack_ok L D st S E w j (put_ref L pf st r w')"
      using put_ref_spec [OF L Suc.prems(1) o(2) nonempty self x(2), of pf] False x(3)
      by (auto simp: visit_ok_def intro: keeps_trans)
    show ?thesis
    proof (cases res)
      case (Inl e)
      with x res False show ?thesis by (auto simp: visit_ok_def)
    next
      case (Inr q)
      obtain out' m where q: "q = (out', m)" by fastforce
      show ?thesis
      proof (cases m)
        case True
        with x res False Inr q o show ?thesis by (auto simp: visit_ok_def)
      next
        case m: False
        with x False Inr q put show ?thesis by simp
      qed
    qed
  qed (use keep in simp)
  show ?case
    using obj keep put_ref_spec [OF L Suc.prems(1) _ nonempty self Suc.prems(5), of pf]
      IsBlobRef_isref [OF L Suc.prems(1)] by auto
qed simp

text \<open>
  \<^verbatim>\<open>Pack\<close> on a document with a denotation: with fuel beyond the nesting depth it returns, an error only
  if the environment failed (\<open>E\<close>), and otherwise a packed form; the store stays sound and loses no blob.
\<close>

lemma Pack_spec:
  assumes L: "lib_laws L D" and j: "den D payload = Some j" "wf_json j" "\<not> isref D j"
    and S: "big_parts L (parse L payload) \<subseteq> S" and n: "depth j \<le> n" and w: "pack_inv L st S E w"
  shows "\<exists>res w'. Pack n L pf st payload w = Some (res, w') \<and> pack_inv L st S E w' \<and> keeps L st S w w'
    \<and> (case res of Inl e \<Rightarrow> E | Inr out \<Rightarrow> \<exists>p. den D out = Some p \<and> packed L D st S w' (depth j + 2) j p
        \<and> \<not> isref D p)"
proof -
  note r = parse_rep [OF L j(1)]
  have same: "packed L D st S w (depth j + 2) j j" by (simp add: packed.same)
  show ?thesis
  proof (cases "relPath st = [] \<or> \<not> container j")
    case True
    with rep_type_json [OF r] have "Pack n L pf st payload w = Some (Inr payload, w)"
      by (auto simp: Pack_def)
    with w same j show ?thesis by (auto simp: keeps_refl)
  next
    case False
    then have c: "container j" by simp
    obtain res w' where x: "walk L False (extractField n L pf st) (for_each L (parse L payload)) 0 payload False w = Some (res, w')"
      "pack_inv L st S E w'" "keeps L st S w w'" and
      res: "case res of Inl e \<Rightarrow> E | Inr (out', m) \<Rightarrow> (\<not> m \<longrightarrow> out' = payload) \<and>
        (\<exists>p. den D out' = Some p \<and> same_kind j p \<and>
        (\<not> isref D j \<longrightarrow> packed L D st S w' (depth j + 2) j p \<and> \<not> isref D p))"
    proof -
      have "\<exists>res w'. walk L False (extractField n L pf st) (for_each L (parse L payload)) 0 payload False w = Some (res, w')
        \<and> pack_inv L st S E w' \<and> keeps L st S w w' \<and> (case res of Inl e \<Rightarrow> E
        | Inr (out', m) \<Rightarrow> (\<not> m \<longrightarrow> out' = payload) \<and>
          (\<exists>p. den D out' = Some p \<and> same_kind j p \<and>
        (\<not> isref D j \<longrightarrow> packed L D st S w' (depth j + 2) j p \<and> \<not> isref D p)))"
      proof (rule pack_walk [OF L j(1) c j(2) children_rep [OF L r c] w])
        fix kr vr k v w
        assume a: "(kr, vr) \<in> set (for_each L (parse L payload))" "(k, v) \<in> set (children j)" "rep D vr v"
          "pack_inv L st S E w"
        have "big_parts L vr \<subseteq> S" using S a(1) by (rule big_parts_child)
        then show "pack_ok L D st S E w v (extractField n L pf st vr w)"
          using a wf_child [OF j(2) a(2)] depth_child [OF a(2)] n by (intro extract_spec [OF L]) auto
      qed
      then show thesis using that by blast
    qed
    with False rep_type_json [OF r] parse_valid [OF L j(1)] j show ?thesis
      by (cases res) (auto simp: Pack_def)
  qed
qed

section \<open>ResolveAll undoes packing\<close>

text \<open>Reading changes nothing but the call counter and the sleeping time.\<close>

definition quiet_from :: "os \<Rightarrow> os \<Rightarrow> bool" where
  "quiet_from w0 w \<longleftrightarrow> files w = files w0 \<and> faultless w"

lemma quiet_tick: "quiet_from w0 w \<Longrightarrow> quiet_from w0 (tick w)"
  by (simp add: quiet_from_def tick_def faultless_def)

lemma resolveRef_marker:
  assumes L: "lib_laws L D" and q: "quiet_from w0 w" and r: "rep D r m"
    and h: "holds L st w0 d" "stands_for D st (hashRef L d) m"
  shows "resolveRef L pf st r w = (Inr (parse L d), tick w)"
proof -
  obtain kvs where k: "m = JObj kvs" and m: "map_of kvs ''__ref'' = Some (JStr (hashRef L d))"
      "map_of kvs ''__path'' = Some (JStr (relPath st))"
    using h(2) by (auto simp: stands_for_def)
  have d: "den D (graw r) = Some (JObj kvs)" using r by (simp add: rep_def k)
  note g = get_member [OF L d]
  have "str L (get L (graw r) ''__ref'') = hashRef L d"
    using g [OF marker_keys(2,8)] m scalar_laws(3) [OF L] by auto
  moreover have "str L (get L (graw r) ''__path'') = relPath st"
    using g [OF marker_keys(3,9)] m scalar_laws(3) [OF L] by auto
  moreover have "GetBlob L pf st (hashRef L d) (relPath st) w = (Inr d, tick w)"
    using q h(1) lib_lawsD(7) [OF L]
    by (intro GetBlob_holds) (auto simp: quiet_from_def holds_def)
  ultimately show ?thesis by (simp add: resolveRef_def Let_def)
qed

abbreviation resolve_ok :: "sem \<Rightarrow> os \<Rightarrow> json \<Rightarrow> os \<Rightarrow> json \<Rightarrow> visit_result \<Rightarrow> bool" where
  "resolve_ok D w0 j \<equiv> visit_ok D (quiet_from w0) (\<lambda>_ _. True) False (\<lambda>_ v. v = j)"

lemma visit_ok_R:
  "visit_ok D Inv Le E R w v x \<Longrightarrow> (\<And>w' v'. R w' v' \<Longrightarrow> R' w' v') \<Longrightarrow> visit_ok D Inv Le E R' w v x"
  unfolding visit_ok_def by (fastforce split: sum.splits option.splits)

lemma resolve_okE:
  assumes "resolve_ok D w0 j w v x"
  obtains (keep) w' where "x = Some (Inr None, w')" "quiet_from w0 w'" "v = j"
  | (put) raw w' where "x = Some (Inr (Some raw), w')" "quiet_from w0 w'" "den D raw = Some j"
  using assms unfolding visit_ok_def by (fastforce split: sum.splits option.splits)

text \<open>A walk that resolves every child of \<open>p\<close> to the child of \<open>j\<close> under the same key gives \<open>j\<close>.\<close>

lemma resolve_walk:
  assumes L: "lib_laws L D" and j: "wf_json j" "container j" "same_kind j p"
      "map fst (children p) = map fst (children j)"
    and out: "den D out = Some p" "list_all2 (child_rep L D) items (children p)" "quiet_from w0 w"
      "arr \<longrightarrow> (\<exists>vs. p = JArr vs)"
    and vis: "\<And>i vr w. i < length (children p) \<Longrightarrow> rep D vr (snd (children p ! i)) \<Longrightarrow> quiet_from w0 w \<Longrightarrow>
      resolve_ok D w0 (snd (children j ! i)) w (snd (children p ! i)) (vis vr w)"
  shows "\<exists>out' m w'. walk L arr vis items 0 out False w = Some (Inr (out', m), w') \<and> quiet_from w0 w'
    \<and> den D out' = Some j \<and> (\<not> m \<longrightarrow> out' = out)"
proof -
  let ?R = "\<lambda>(w'::os) (k::string) (v::json) v'. map_of (children j) k = Some v'"
  have dist: "distinct (map fst (children j))" using wf_json_keys [OF j(1)] by (rule keys_distinct)
  have c: "container p" "wf_keys p" using j wf_json_keys [OF j(1)]
    by (auto simp: same_kind_def split: json.splits)
  have v: "visit_ok D (quiet_from w0) (\<lambda>_ _. True) False (\<lambda>w'. ?R w' k v) w v (vis vr w)"
    if a: "(k, v) \<in> set (children p)" "rep D vr v" "quiet_from w0 w" for k v vr w
  proof -
    obtain i where i: "i < length (children p)" "children p ! i = (k, v)"
      using a(1) by (metis in_set_conv_nth)
    have len: "length (children p) = length (children j)" using j(4) by (metis length_map)
    then have "fst (children j ! i) = k" using i j(4) by (metis fst_conv nth_map)
    then have "map_of (children j) k = Some (snd (children j ! i))"
      using dist i len by (metis map_of_is_SomeI nth_mem prod.collapse)
    moreover have "resolve_ok D w0 (snd (children j ! i)) w v (vis vr w)"
      using vis [OF i(1) _ a(3), of vr] a(2) i(2) by simp
    ultimately show ?thesis by (auto elim: visit_ok_R)
  qed
  have "walk_ok D (quiet_from w0) (\<lambda>_ _. True) False ?R 0 p out False w (walk L arr vis items 0 out False w)"
  proof (rule walk_spec [OF L, where Items = items and j = p and ?w0.0 = w])
    show "list_all2 (child_rep L D) items (drop 0 (children p))" using out by simp
  qed (use out c v in auto)
  then show ?thesis
  proof (cases rule: walk_okE)
    case (done_ok out' m p' w')
    have "children p' = children j"
    proof (rule nth_equalityI)
      show len: "length (children p') = length (children j)" using done_ok(7) j(4) by (metis length_map)
      fix i assume i: "i < length (children p')"
      then have ip: "i < length (children p)" using done_ok(7) by (metis length_map)
      have k: "fst (children p ! i) = fst (children j ! i)" "fst (children p' ! i) = fst (children j ! i)"
        using i ip len done_ok(7) j(4) by (metis nth_map)+
      have "map_of (children j) (fst (children p ! i)) = Some (snd (children p' ! i))"
        using list_all2_nthD [OF done_ok(8) ip] by (auto split: prod.splits)
      moreover have "map_of (children j) (fst (children j ! i)) = Some (snd (children j ! i))"
        using dist i len by (metis map_of_is_SomeI nth_mem prod.collapse)
      ultimately show "children p' ! i = children j ! i" using k by (simp add: prod_eq_iff)
    qed
    moreover have "same_kind p' j" using j(3) done_ok(6)
      by (auto simp: same_kind_def split: json.splits)
    ultimately have "p' = j" by (blast intro: container_eqI)
    with done_ok show ?thesis by auto
  qed auto
qed

lemma packed_children:
  assumes "lib_laws L D" "packed L D st S w (Suc n) j p" "no_ref D j" "container j" "\<not> isref D p"
  shows "same_kind j p \<and> map fst (children p) = map fst (children j) \<and>
    (\<forall>i < length (children p). packed L D st S w n (snd (children j ! i)) (snd (children p ! i)))"
  using assms(2)
proof (cases rule: packed.cases)
  case same
  have "packed L D st S w n (snd (children j ! i)) (snd (children j ! i))" if i: "i < length (children j)" for i
    using depth_child [of "fst (children j ! i)" "snd (children j ! i)" j] nth_mem [OF i] same
    by (intro packed.same) simp
  with same assms(4) show ?thesis by (simp add: same_kind_refl)
next
  case (ref p' r)
  with assms(5) show ?thesis by (auto dest: stands_forD)
next
  case sub
  then have "length (children p) = length (children j)" by (metis length_map)
  with sub show ?thesis by simp
qed

lemma resolve_spec:
  assumes L: "lib_laws L D"
  shows "packed L D st S w0 n j p \<Longrightarrow> no_ref D j \<Longrightarrow> wf_json j \<Longrightarrow> rep D r p \<Longrightarrow> quiet_from w0 w \<Longrightarrow>
    resolve_ok D w0 j w p (resolveValue n L pf st r w)"
proof (induction n arbitrary: j p r w)
  case 0
  then show ?case by (auto elim: packed_zero)
next
  case (Suc n)
  show ?case
  proof (cases "isref D p")
    case True
    from Suc.prems(1) show ?thesis
    proof (cases rule: packed.cases)
      case same
      with True no_ref_isref [OF Suc.prems(2)] show ?thesis by simp
    next
      case (ref p' r0)
      have rr: "resolveRef L pf st r w = (Inr (parse L (graw r0)), tick w)"
        using Suc.prems(4,5) ref by (intro resolveRef_marker [OF L]) auto
      have rp: "rep D (parse L (graw r0)) p'" using parse_rep [OF L] ref by (simp add: rep_def)
      have "resolve_ok D w0 j (tick w) p' (resolveValue n L pf st (parse L (graw r0)) (tick w))"
        using ref rp Suc.prems(2,3) quiet_tick [OF Suc.prems(5)] by (intro Suc.IH) auto
      then show ?thesis using rr True IsBlobRef_isref [OF L Suc.prems(4)] rp
        by (cases rule: resolve_okE) (simp_all add: visit_ok_def rep_def)
    next
      case sub
      with True packed_sub_not_isref [OF L] show ?thesis by blast
    qed
  next
    case nr: False
    then have nb: "\<not> IsBlobRef L r" using IsBlobRef_isref [OF L Suc.prems(4)] by simp
    show ?thesis
    proof (cases "container j")
      case True
      note pc = packed_children [OF L Suc.prems(1,2) True nr]
      have cp: "container p" using pc by (auto simp: same_kind_def split: json.splits)
      have pre: "has_prefix (graw r) ''{'' \<or> has_prefix (graw r) ''[''"
        using cp Suc.prems(4) by (cases p) (auto simp: rep_def)
      have arr: "\<not> has_prefix (graw r) ''{'' \<longrightarrow> (\<exists>vs. p = JArr vs)"
        using cp Suc.prems(4) by (cases p) (auto simp: rep_def)
      have d: "den D (graw r) = Some p" using Suc.prems(4) by (simp add: rep_def)
      have "\<exists>out' m w'. walk L (\<not> has_prefix (graw r) ''{'') (\<lambda>c u. resolveValue n L pf st c u)
          (for_each L (parse L (graw r))) 0 (graw r) False w = Some (Inr (out', m), w') \<and> quiet_from w0 w'
          \<and> den D out' = Some j \<and> (\<not> m \<longrightarrow> out' = graw r)"
      proof (rule resolve_walk [OF L Suc.prems(3) True _ _ d _ Suc.prems(5) arr])
        show "list_all2 (child_rep L D) (for_each L (parse L (graw r))) (children p)"
          using children_rep [OF L parse_rep [OF L d] cp] .
        fix i vr w
        assume i: "i < length (children p)" "rep D vr (snd (children p ! i))" "quiet_from w0 w"
        have "i < length (children j)" using i(1) pc by (metis length_map)
        then have mem: "(fst (children j ! i), snd (children j ! i)) \<in> set (children j)" by simp
        show "resolve_ok D w0 (snd (children j ! i)) w (snd (children p ! i)) (resolveValue n L pf st vr w)"
          using i pc no_ref_child [OF Suc.prems(2) mem] wf_child [OF Suc.prems(3) mem]
          by (intro Suc.IH) auto
      qed (use pc in auto)
      with nb pre d rep_type_json [OF Suc.prems(4)] cp show ?thesis by (auto simp: visit_ok_def)
    next
      case False
      have "p = j" using Suc.prems(1) False nr
        by (auto elim!: packed_Suc dest: stands_forD)
      with False nb Suc.prems(5) rep_type_json [OF Suc.prems(4)] show ?thesis by (auto simp: visit_ok_def)
    qed
  qed
qed

lemma ResolveAll_spec:
  assumes L: "lib_laws L D" and p: "packed L D st S w0 n j p" "\<not> isref D p" "den D data = Some p"
    and j: "no_ref D j" "wf_json j" and w: "quiet_from w0 w" and n: "n \<le> Suc m"
  shows "\<exists>out w'. ResolveAll m L pf st data w = Some (Inr out, w') \<and> den D out = Some j \<and> quiet_from w0 w'"
proof (cases "container j")
  case True
  note pk = packed_mono [OF p(1) n]
  note pc = packed_children [OF L pk j(1) True p(2)]
  note r = parse_rep [OF L p(3)]
  have cp: "container p" using pc by (auto simp: same_kind_def split: json.splits)
  have "\<exists>out' md w'. walk L False (resolveValue m L pf st) (for_each L (parse L data)) 0 data False w
      = Some (Inr (out', md), w') \<and> quiet_from w0 w' \<and> den D out' = Some j \<and> (\<not> md \<longrightarrow> out' = data)"
  proof (rule resolve_walk [OF L j(2) True _ _ p(3) children_rep [OF L r cp] w])
    fix i vr w
    assume i: "i < length (children p)" "rep D vr (snd (children p ! i))" "quiet_from w0 w"
    have "i < length (children j)" using i(1) pc by (metis length_map)
    then have mem: "(fst (children j ! i), snd (children j ! i)) \<in> set (children j)" by simp
    show "resolve_ok D w0 (snd (children j ! i)) w (snd (children p ! i)) (resolveValue m L pf st vr w)"
      using i pc no_ref_child [OF j(1) mem] wf_child [OF j(2) mem] by (intro resolve_spec [OF L]) auto
  qed (use pc in auto)
  with rep_type_json [OF r] cp parse_valid [OF L p(3)] show ?thesis by (auto simp: ResolveAll_def)
next
  case False
  have "p = j" using packed_mono [OF p(1) n] False p(2) by (auto elim!: packed_Suc dest: stands_forD)
  with False rep_type_json [OF parse_rep [OF L p(3)]] p w show ?thesis by (auto simp: ResolveAll_def)
qed

end
