(* ===== verification/Json_Text.thy ===== *)
theory Json_Text
  imports Gjson
begin

text \<open>
  A concrete JSON library that satisfies the laws of \<open>Gjson\<close>: compact texts, a printer, a parser, and
  the gjson and sjson functions defined through them.  It shows that the laws can hold and is where
  the properties that assume them are applied.  The repository contains none of this code.
\<close>

section \<open>Printing\<close>

abbreviation quote :: char where "quote \<equiv> CHR 0x22"
abbreviation bslash :: char where "bslash \<equiv> CHR 0x5C"

definition esc :: "string \<Rightarrow> string" where
  "esc s = concat (map (\<lambda>c. if c = quote \<or> c = bslash then [bslash, c] else [c]) s)"

definition quoted :: "string \<Rightarrow> string" where
  "quoted s = quote # esc s @ [quote]"

fun print_json :: "json \<Rightarrow> bytes" where
  "print_json JNull = ''null''"
| "print_json (JBool b) = (if b then ''true'' else ''false'')"
| "print_json (JNum n) = n"
| "print_json (JStr s) = quoted s"
| "print_json (JArr vs) = ''['' @ join_with '','' (map print_json vs) @ '']''"
| "print_json (JObj kvs) =
     ''{'' @ join_with '','' (map (\<lambda>(k, v). quoted k @ '':'' @ print_json v) kvs) @ ''}''"

definition num_char :: "char \<Rightarrow> bool" where
  "num_char c \<longleftrightarrow> is_digit c \<or> c \<in> set ''-+.eE''"

definition num_ok :: "string \<Rightarrow> bool" where
  "num_ok s \<longleftrightarrow> s \<noteq> [] \<and> list_all num_char s \<and> (is_digit (hd s) \<or> hd s = CHR ''-'')"

fun json_ok :: "json \<Rightarrow> bool" where
  "json_ok (JNum n) = num_ok n"
| "json_ok (JArr vs) = list_all json_ok vs"
| "json_ok (JObj kvs) = list_all (\<lambda>(k, v). json_ok v) kvs"
| "json_ok _ = True"

section \<open>Parsing\<close>

fun p_str :: "bytes \<Rightarrow> (string \<times> bytes) option" where
  "p_str [] = None"
| "p_str (c # s) =
     (if c = quote then Some ([], s)
      else if c = bslash then
        (case s of [] \<Rightarrow> None | d # s' \<Rightarrow> map_option (\<lambda>(t, r). (d # t, r)) (p_str s'))
      else map_option (\<lambda>(t, r). (c # t, r)) (p_str s))"

fun p_key :: "bytes \<Rightarrow> (string \<times> bytes) option" where
  "p_key [] = None"
| "p_key (c # s) = (if c \<noteq> quote then None else case p_str s of
      Some (k, d # r) \<Rightarrow> if d = CHR '':'' then Some (k, r) else None
    | _ \<Rightarrow> None)"

definition p_lit :: "bytes \<Rightarrow> (json \<times> bytes) option" where
  "p_lit s =
     (if has_prefix s ''null'' then Some (JNull, drop 4 s)
      else if has_prefix s ''true'' then Some (JBool True, drop 4 s)
      else if has_prefix s ''false'' then Some (JBool False, drop 5 s)
      else if takeWhile num_char s = [] then None
      else Some (JNum (takeWhile num_char s), dropWhile num_char s))"

fun p_val :: "nat \<Rightarrow> bytes \<Rightarrow> (json \<times> bytes) option"
  and p_elems :: "nat \<Rightarrow> bytes \<Rightarrow> (json list \<times> bytes) option"
  and p_members :: "nat \<Rightarrow> bytes \<Rightarrow> ((string \<times> json) list \<times> bytes) option" where
  "p_val 0 s = None"
| "p_val (Suc n) [] = None"
| "p_val (Suc n) (c # s) =
     (if c = quote then map_option (\<lambda>(t, r). (JStr t, r)) (p_str s)
      else if c = CHR ''['' then
        (if has_prefix s '']'' then Some (JArr [], drop 1 s)
         else map_option (\<lambda>(vs, r). (JArr vs, r)) (p_elems n s))
      else if c = CHR ''{'' then
        (if has_prefix s ''}'' then Some (JObj [], drop 1 s)
         else map_option (\<lambda>(kvs, r). (JObj kvs, r)) (p_members n s))
      else p_lit (c # s))"
| "p_elems 0 s = None"
| "p_elems (Suc n) s =
     (case p_val n s of
        Some (v, c # r) \<Rightarrow>
          if c = CHR '','' then map_option (\<lambda>(vs, r'). (v # vs, r')) (p_elems n r)
          else if c = CHR '']'' then Some ([v], r) else None
      | _ \<Rightarrow> None)"
| "p_members 0 s = None"
| "p_members (Suc n) s =
     (case p_key s of
        None \<Rightarrow> None
      | Some (k, s') \<Rightarrow>
          (case p_val n s' of
             Some (v, c # r) \<Rightarrow>
               if c = CHR '','' then map_option (\<lambda>(kvs, r'). ((k, v) # kvs, r')) (p_members n r)
               else if c = CHR ''}'' then Some ([(k, v)], r) else None
           | _ \<Rightarrow> None))"

text \<open>The meaning of a text: only compact texts, the ones the printer writes, have one.\<close>

definition json_den :: "bytes \<Rightarrow> json option" where
  "json_den b = (case p_val (Suc (length b)) b of
     Some (j, []) \<Rightarrow> if json_ok j \<and> print_json j = b then Some j else None
   | _ \<Rightarrow> None)"

lemma p_str_esc: "p_str (esc s @ quote # r) = Some (s, r)"
  by (induction s) (auto simp: esc_def)

lemma p_key_quoted: "p_key (quoted k @ '':'' @ r) = Some (k, r)"
  using p_str_esc [of k "'':'' @ r"] by (simp add: quoted_def)

definition num_end :: "bytes \<Rightarrow> bool" where
  "num_end r \<longleftrightarrow> (case r of [] \<Rightarrow> True | c # _ \<Rightarrow> \<not> num_char c)"

lemma takeWhile_num: "list_all num_char n \<Longrightarrow> num_end r \<Longrightarrow>
    takeWhile num_char (n @ r) = n \<and> dropWhile num_char (n @ r) = r"
  by (cases r) (auto simp: list_all_iff num_end_def takeWhile_append2 dropWhile_append2)

lemma num_ok_head: "num_ok n \<Longrightarrow> \<exists>c s. n = c # s \<and> num_char c \<and> (is_digit c \<or> c = CHR ''-'')"
  by (cases n) (auto simp: num_ok_def)

lemma digit_not: "is_digit c \<or> c = CHR ''-'' \<Longrightarrow> c \<notin> set ''[]{},:ntf'' \<and> c \<noteq> quote"
  by (auto simp: is_digit_def)

lemma print_head: "json_ok j \<Longrightarrow> \<exists>c s. print_json j = c # s \<and> c \<notin> set ''],}:''"
proof (cases j)
  case (JNum n)
  assume "json_ok j"
  then show ?thesis using JNum num_ok_head [of n] digit_not by fastforce
qed (auto simp: quoted_def)

text \<open>Parsing what was printed, with fuel beyond the length of the text.\<close>

lemma p_elems_print:
  assumes "\<And>v n r. v \<in> set vs \<Longrightarrow> length (print_json v) < n \<Longrightarrow> num_end r \<Longrightarrow> p_val n (print_json v @ r) = Some (v, r)"
    "vs \<noteq> []" "length (join_with '','' (map print_json vs)) + 1 < n"
  shows "p_elems n (join_with '','' (map print_json vs) @ '']'' @ r) = Some (vs, r)"
  using assms
proof (induction vs arbitrary: n)
  case (Cons v vs)
  obtain m where m: "n = Suc m" using Cons.prems(3) by (cases n) auto
  show ?case
  proof (cases vs)
    case Nil
    with Cons.prems m show ?thesis by (simp add: num_end_def num_char_def is_digit_def)
  next
    case (Cons u us)
    have "p_elems m (join_with '','' (map print_json vs) @ '']'' @ r) = Some (vs, r)"
      using Cons Cons.prems m by (intro Cons.IH) auto
    with Cons Cons.prems m show ?thesis by (simp add: num_end_def num_char_def is_digit_def)
  qed
qed simp

lemma p_members_print:
  assumes "\<And>k v n r. (k, v) \<in> set kvs \<Longrightarrow> length (print_json v) < n \<Longrightarrow> num_end r \<Longrightarrow> p_val n (print_json v @ r) = Some (v, r)"
    "kvs \<noteq> []" "length (join_with '','' (map (\<lambda>(k, v). quoted k @ '':'' @ print_json v) kvs)) + 1 < n"
  shows "p_members n (join_with '','' (map (\<lambda>(k, v). quoted k @ '':'' @ print_json v) kvs) @ ''}'' @ r) = Some (kvs, r)"
  using assms
proof (induction kvs arbitrary: n)
  case (Cons kv kvs)
  obtain k v where kv: "kv = (k, v)" by fastforce
  obtain m where m: "n = Suc m" using Cons.prems(3) by (cases n) auto
  have pv: "num_end r \<Longrightarrow> p_val m (print_json v @ r) = Some (v, r)" for r
  proof (rule Cons.prems(1) [where k = k])
    show "length (print_json v) < m" using Cons.prems(3) m kv by (cases kvs) auto
  qed (simp_all add: kv)
  have ne: "num_end (CHR '','' # s)" "num_end (CHR ''}'' # s)" for s
    by (simp_all add: num_end_def num_char_def is_digit_def)
  have pk: "p_key (quoted k @ CHR '':'' # s) = Some (k, s)" for s using p_key_quoted [of k s] by simp
  show ?case
  proof (cases kvs)
    case Nil
    with m kv pk pv [OF ne(2)] show ?thesis by simp
  next
    case (Cons u us)
    have "p_members m (join_with '','' (map (\<lambda>(k, v). quoted k @ '':'' @ print_json v) kvs) @ ''}'' @ r) = Some (kvs, r)"
      using Cons Cons.prems m kv by (intro Cons.IH) auto
    with Cons m kv pk pv [OF ne(1)] show ?thesis by simp
  qed
qed simp

lemma p_lit_print:
  "num_end r \<Longrightarrow> p_lit (''null'' @ r) = Some (JNull, r)"
  "num_end r \<Longrightarrow> p_lit (''true'' @ r) = Some (JBool True, r)"
  "num_end r \<Longrightarrow> p_lit (''false'' @ r) = Some (JBool False, r)"
  by (simp_all add: p_lit_def has_prefix_def)

lemma p_lit_num:
  assumes "num_ok n" "num_end r"
  shows "p_lit (n @ r) = Some (JNum n, r)"
proof -
  obtain c s where n: "n = c # s" "is_digit c \<or> c = CHR ''-''" using num_ok_head [OF assms(1)] by blast
  then have "c \<noteq> CHR ''n'' \<and> c \<noteq> CHR ''t'' \<and> c \<noteq> CHR ''f''" using digit_not [OF n(2)] by auto
  moreover have "list_all num_char n" using assms(1) by (simp add: num_ok_def)
  ultimately show ?thesis using takeWhile_num [of n r] assms n(1)
    by (simp add: p_lit_def has_prefix_def)
qed

lemma p_val_print:
  "json_ok j \<Longrightarrow> length (print_json j) < n \<Longrightarrow> num_end r \<Longrightarrow> p_val n (print_json j @ r) = Some (j, r)"
proof (induction j arbitrary: n r)
  case JNull
  then show ?case using p_lit_print(1) [of r] by (cases n) auto
next
  case (JBool b)
  then show ?case using p_lit_print(2,3) [of r] by (cases n) auto
next
  case (JNum m)
  then obtain c s where "m = c # s" "is_digit c \<or> c = CHR ''-''" using num_ok_head by fastforce
  with JNum p_lit_num [of m r] digit_not [of c] show ?case by (cases n) auto
next
  case (JStr s)
  then show ?case using p_str_esc [of s r] by (cases n) (auto simp: quoted_def)
next
  case (JArr vs)
  then obtain m where m: "n = Suc m" by (cases n) auto
  show ?case
  proof (cases vs)
    case (Cons v us)
    have "p_elems m (join_with '','' (map print_json vs) @ '']'' @ r) = Some (vs, r)"
      using JArr m Cons by (intro p_elems_print) (auto simp: list_all_iff)
    moreover have "\<not> has_prefix (join_with '','' (map print_json vs) @ CHR '']'' # r) '']''"
      using print_head [of v] JArr.prems(1) Cons by (cases us) (auto simp: has_prefix_def)
    ultimately show ?thesis using m Cons by simp
  qed (simp add: m has_prefix_def)
next
  case (JObj kvs)
  then obtain m where m: "n = Suc m" by (cases n) auto
  show ?case
  proof (cases kvs)
    case (Cons kv us)
    have "p_members m (join_with '','' (map (\<lambda>(k, v). quoted k @ '':'' @ print_json v) kvs) @ ''}'' @ r) = Some (kvs, r)"
    proof (rule p_members_print)
      fix k v n r
      assume "(k, v) \<in> set kvs" "length (print_json v) < n" "num_end r"
      then show "p_val n (print_json v @ r) = Some (v, r)"
        using JObj.prems(1) by (intro JObj.IH) (auto simp: list_all_iff)
    qed (use JObj.prems m Cons in auto)
    moreover have "\<not> has_prefix (join_with '','' (map (\<lambda>(k, v). quoted k @ CHR '':'' # print_json v) kvs) @ CHR ''}'' # r) ''}''"
      using Cons by (cases us; cases kv) (auto simp: has_prefix_def quoted_def)
    ultimately show ?thesis using m Cons by simp
  qed (simp add: m has_prefix_def)
qed

lemma json_den_print: "json_ok j \<Longrightarrow> json_den (print_json j) = Some j"
  using p_val_print [of j "Suc (length (print_json j))" "[]"] by (simp add: json_den_def num_end_def)

lemma json_den_iff: "json_den b = Some j \<longleftrightarrow> json_ok j \<and> b = print_json j"
proof
  assume "json_den b = Some j"
  then show "json_ok j \<and> b = print_json j"
    by (auto simp: json_den_def split: option.splits list.splits if_splits)
qed (simp add: json_den_print)

section \<open>The library\<close>

definition result_of :: "json \<Rightarrow> gresult" where
  "result_of j = \<lparr>gtype = type_of j, graw = print_json j\<rparr>"

fun json_int :: "json \<Rightarrow> int" where
  "json_int (JBool b) = (if b then 1 else 0)"
| "json_int (JNum n) = (case atoi n of Inr i \<Rightarrow> i | Inl e \<Rightarrow> 0)"
| "json_int (JStr s) = (case atoi s of Inr i \<Rightarrow> i | Inl e \<Rightarrow> 0)"
| "json_int _ = 0"

fun json_str :: "json \<Rightarrow> string" where
  "json_str (JStr s) = s"
| "json_str JNull = []"
| "json_str j = print_json j"

fun json_val :: "json \<Rightarrow> goval" where
  "json_val JNull = GNil"
| "json_val (JBool b) = GBool b"
| "json_val (JNum n) = (case atoi n of Inr i \<Rightarrow> GFloat (of_int i) | Inl e \<Rightarrow> GFloat 0)"
| "json_val (JStr s) = GStr s"
| "json_val (JArr vs) = GList (map json_val vs)"
| "json_val (JObj kvs) = GMap (map (\<lambda>(k, v). (k, json_val v)) kvs)"

text \<open>The JSON value that a generic value is written as; a float64 is written without its fraction.\<close>

fun go_json :: "goval \<Rightarrow> json" where
  "go_json (GBool b) = JBool b"
| "go_json (GInt i) = JNum (show_int i)"
| "go_json (GFloat f) = JNum (show_int (trunc_f64 f))"
| "go_json (GStr s) = JStr s"
| "go_json (GList vs) = JArr (map go_json vs)"
| "go_json (GMap m) = JObj (map (\<lambda>(k, v). (k, go_json v)) m)"
| "go_json _ = JNull"

definition of_result :: "gresult \<Rightarrow> 'a \<Rightarrow> (json \<Rightarrow> 'a) \<Rightarrow> 'a" where
  "of_result r d f = (case json_den (graw r) of None \<Rightarrow> d | Some j \<Rightarrow> f j)"

text \<open>A path component with the backslashes before its dots removed.\<close>

fun unesc :: "string \<Rightarrow> string" where
  "unesc [] = []"
| "unesc [c] = [c]"
| "unesc (c # d # s) = (if c = bslash \<and> d = CHR ''.'' then d # unesc s else c # unesc (d # s))"

fun find_key :: "string \<Rightarrow> (string \<times> json) list \<Rightarrow> nat option" where
  "find_key k [] = None"
| "find_key k ((k', v) # kvs) = (if k = k' then Some 0 else map_option Suc (find_key k kvs))"

definition json_set :: "bytes \<Rightarrow> string \<Rightarrow> json \<Rightarrow> bytes \<times> error option" where
  "json_set b path v = (case json_den b of
     None \<Rightarrow> (b, Some (Errorf ''invalid json''))
   | Some j \<Rightarrow> (case find_key (unesc path) (children j) of
       Some i \<Rightarrow> (print_json (replace_child j i v), None)
     | None \<Rightarrow> (case j of
         JObj kvs \<Rightarrow> (print_json (JObj (kvs @ [(unesc path, v)])), None)
       | _ \<Rightarrow> (b, Some (Errorf ''path not found'')))))"

definition text_lib :: lib where
  "text_lib = \<lparr>
     valid = (\<lambda>b. json_den b \<noteq> None),
     parse = (\<lambda>b. case json_den b of None \<Rightarrow> no_result | Some j \<Rightarrow> result_of j),
     get = (\<lambda>b k. case json_den b of
        Some (JObj kvs) \<Rightarrow> (case map_of kvs (unesc k) of None \<Rightarrow> no_result | Some v \<Rightarrow> result_of v)
      | _ \<Rightarrow> no_result),
     exists = (\<lambda>r. graw r \<noteq> []),
     str = (\<lambda>r. of_result r [] json_str),
     int_of = (\<lambda>r. of_result r 0 json_int),
     arr_len = (\<lambda>r. of_result r 0 (\<lambda>j. length (children j))),
     for_each = (\<lambda>r. of_result r [] (\<lambda>j.
        map (\<lambda>(k, v). (result_of (if gtype r = TJSON \<and> has_prefix (graw r) ''['' then JNum k else JStr k), result_of v))
          (children j))),
     val = (\<lambda>r. of_result r GNil json_val),
     set_raw = (\<lambda>b path raw. case json_den raw of
        None \<Rightarrow> (b, Some (Errorf ''invalid json'')) | Some v \<Rightarrow> json_set b path v),
     set_val = (\<lambda>b path g.
        if b = [] then (print_json (JObj [(unesc path, go_json g)]), None) else json_set b path (go_json g)),
     zenc = (\<lambda>b. CHR ''Z'' # b),
     zdec = (\<lambda>b. case b of c # d \<Rightarrow> if c = CHR ''Z'' then Inr d else Inl (Errorf ''magic'') | [] \<Rightarrow> Inl (Errorf ''EOF'')),
     xxh = (\<lambda>b. (of_nat (length b), of_nat (sum_list (map of_char b)))) \<rparr>"

definition text_sem :: sem where
  "text_sem = \<lparr>den = json_den, jint = json_int\<rparr>"

section \<open>The library satisfies the laws\<close>

lemma unesc_dot_escape: "unesc (dot_escape k) = k"
proof (induction k)
  case (Cons c k)
  have "unesc (d # dot_escape k) = d # k" if "d \<noteq> bslash \<or> \<not> has_prefix (dot_escape k) ''.''" for d
    using Cons that by (cases "dot_escape k") (auto simp: has_prefix_def)
  moreover have "\<not> has_prefix (dot_escape k) ''.''"
    by (cases k) (auto simp: dot_escape_def has_prefix_def)
  ultimately show ?case using Cons by (simp add: dot_escape_def)
qed (simp add: dot_escape_def)

lemma unesc_simple: "simple_key k \<Longrightarrow> unesc k = k"
  using unesc_dot_escape [of k] simple_key_escape by simp

lemma find_key_nth: "distinct (map fst kvs) \<Longrightarrow> i < length kvs \<Longrightarrow> find_key (fst (kvs ! i)) kvs = Some i"
proof (induction kvs arbitrary: i)
  case (Cons kv kvs)
  then show ?case
  proof (cases i)
    case (Suc k)
    have "fst (kvs ! k) \<in> fst ` set kvs" using Cons.prems(2) Suc by auto
    then have "fst (kvs ! k) \<noteq> fst kv" using Cons.prems(1) by (metis distinct.simps(2) list.simps(9) set_map)
    with Cons Suc show ?thesis by (cases kv) auto
  qed (cases kv, simp)
qed simp

lemma find_key_None: "find_key k kvs = None \<longleftrightarrow> k \<notin> fst ` set kvs"
  by (induction k kvs rule: find_key.induct) auto

lemma num_ok_show_nat: "num_ok (show_nat n)"
  using show_nat_digits [of n] show_nat_hd_digit [of n] by (auto simp: num_ok_def list_all_iff num_char_def)

lemma num_ok_show_int: "num_ok (show_int i)"
  using show_nat_digits [of "nat (- i)"] num_ok_show_nat
  by (auto simp: show_int_def num_ok_def list_all_iff num_char_def)

lemma json_ok_child: "json_ok j \<Longrightarrow> (k, v) \<in> set (children j) \<Longrightarrow> json_ok v"
  by (cases j) (auto simp: list_all_iff enumerate_eq_zip dest: set_zip_rightD)

lemma json_ok_replace: "json_ok j \<Longrightarrow> json_ok v \<Longrightarrow> json_ok (replace_child j i v)"
  by (cases j) (auto simp: list_all_iff dest!: subsetD [OF set_update_subset_insert])

lemma json_ok_go: "json_ok (go_json g)"
  by (induction g rule: go_json.induct) (auto simp: num_ok_show_int list_all_iff)

lemma go_json_lit: "lit_json g = Some v \<Longrightarrow> go_json g = v"
  by (cases g) auto

lemma opens_print: "opens_with j (print_json j)"
  by (cases j) (auto simp: has_prefix_def)

lemma rep_result: "rep text_sem r j \<longleftrightarrow> json_ok j \<and> r = result_of j"
  by (auto simp: rep_def text_sem_def json_den_iff result_of_def opens_print)

lemma of_result_of [simp]: "json_ok j \<Longrightarrow> of_result (result_of j) d f = f j"
  by (simp add: of_result_def result_of_def json_den_print)

lemma print_nonempty [simp]: "json_ok j \<Longrightarrow> print_json j \<noteq> []"
  using print_head [of j] by auto

lemma join_with_mem: "x \<in> set xs \<Longrightarrow> \<exists>a b. join_with sep xs = a @ x @ b"
proof (induction xs)
  case (Cons y ys)
  show ?case
  proof (cases "x \<in> set ys")
    case True
    then obtain a b where "join_with sep ys = a @ x @ b" using Cons.IH by blast
    with True show ?thesis by (cases ys) (auto intro: exI [of _ "y @ sep @ a"])
  next
    case False
    with Cons.prems have "x = y" by simp
    then show ?thesis by (cases ys) (auto intro: exI [of _ "[]"])
  qed
qed simp

lemma text_sem_sel [simp]: "den text_sem = json_den" "jint text_sem = json_int"
  by (simp_all add: text_sem_def)

lemma key_contained: "(k, v) \<in> set kvs \<Longrightarrow> simple_key k \<Longrightarrow> contains_str (print_json (JObj kvs)) k"
proof -
  assume k: "(k, v) \<in> set kvs" "simple_key k"
  let ?f = "\<lambda>(k, v). quoted k @ '':'' @ print_json v"
  have "esc s = s" if "list_all plain_char s" for s
    using that by (induction s) (auto simp: esc_def plain_char_def)
  then have "esc k = k" using k(2) by (simp add: simple_key_def)
  then have q: "quoted k = [quote] @ k @ [quote]" by (simp add: quoted_def)
  have "?f (k, v) \<in> set (map ?f kvs)" using k(1) by force
  then obtain x y where "join_with '','' (map ?f kvs) = x @ ?f (k, v) @ y" using join_with_mem by metis
  then have "join_with '','' (map ?f kvs) = x @ quoted k @ '':'' @ print_json v @ y" by simp
  then obtain a b where "join_with '','' (map ?f kvs) = a @ quoted k @ b" by (auto simp: contains_str_iff)
  then have "print_json (JObj kvs) = (''{'' @ a @ [quote]) @ k @ ([quote] @ b @ ''}'')" by (simp add: q)
  then show ?thesis unfolding contains_str_iff by blast
qed

lemma text_parse_law: "parse_law text_lib text_sem"
  by (auto simp: parse_law_def rep_result json_den_iff text_lib_def json_den_print)

lemma text_for_each_law: "for_each_law text_lib text_sem"
proof -
  have "list_all2 (child_rep text_lib text_sem) (for_each text_lib (result_of j)) (children j)"
    if j: "json_ok j" "container j" for j
  proof -
    have "str text_lib (result_of (JNum (show_nat i))) = show_nat i" for i
      by (simp add: text_lib_def num_ok_show_nat)
    moreover have "str text_lib (result_of (JStr k)) = k" for k
      by (simp add: text_lib_def)
    moreover have "\<exists>i. k = show_nat i" if "(k, v) \<in> set (children j)" "has_prefix (print_json j) ''[''" for k v
      using that j by (cases j) (auto simp: has_prefix_def)
    ultimately have "child_rep text_lib text_sem
        (result_of (if has_prefix (print_json j) ''['' then JNum k else JStr k), result_of v) (k, v)"
      if "(k, v) \<in> set (children j)" for k v
      using that json_ok_child [OF j(1) that] by (fastforce simp: child_rep_def rep_result)
    then have "list_all2 (child_rep text_lib text_sem)
        (map (\<lambda>(k, v). (result_of (if has_prefix (print_json j) ''['' then JNum k else JStr k), result_of v)) (children j))
        (children j)"
      by (auto simp: list_all2_map1 intro!: list.rel_refl_strong)
    moreover have "gtype (result_of j) = TJSON \<and> graw (result_of j) = print_json j"
      using j(2) by (cases j) (auto simp: result_of_def)
    ultimately show ?thesis using j(1) by (simp add: text_lib_def)
  qed
  then show ?thesis by (simp add: for_each_law_def rep_result)
qed

lemma text_set_raw_law: "set_raw_law text_lib text_sem"
proof -
  have "\<exists>b'. set_raw text_lib (print_json j) (dot_escape (fst (children j ! i))) (print_json v) = (b', None)
      \<and> json_den b' = Some (replace_child j i v) \<and> (opens_with j (print_json j) \<longrightarrow> opens_with j b')"
    if j: "json_ok j" "wf_keys j" "container j" "i < length (children j)" "json_ok v" for j i v
  proof -
    have "find_key (unesc (dot_escape (fst (children j ! i)))) (children j) = Some i"
      using find_key_nth [OF keys_distinct [OF j(2)] j(4)] by (simp add: unesc_dot_escape)
    moreover have "opens_with j (print_json (replace_child j i v))"
      using same_kind_opens [OF same_kind_replace [OF j(3)]] opens_print by metis
    ultimately show ?thesis using j json_ok_replace [OF j(1,5)]
      by (simp add: text_lib_def json_set_def json_den_print)
  qed
  then show ?thesis by (simp add: set_raw_law_def json_den_iff)
qed

lemma text_get_law: "get_law text_lib text_sem"
proof -
  have "case (case j of JObj kvs \<Rightarrow> map_of kvs k | _ \<Rightarrow> None) of
        None \<Rightarrow> \<not> exists text_lib (get text_lib (print_json j) k) \<and> get text_lib (print_json j) k = no_result
      | Some v \<Rightarrow> exists text_lib (get text_lib (print_json j) k) \<and> rep text_sem (get text_lib (print_json j) k) v"
    if j: "json_ok j" "simple_key k" for j k
  proof (cases j)
    case (JObj kvs)
    have "json_ok v" if "map_of kvs k = Some v" for v
      using json_ok_child [OF j(1), of k v] map_of_SomeD [OF that] by (simp add: JObj)
    with j JObj json_den_print [OF j(1)] show ?thesis
      by (auto simp: text_lib_def unesc_simple rep_result split: option.splits)
        (auto simp: no_result_def result_of_def)
  qed (use json_den_print [OF j(1)] in \<open>simp_all add: text_lib_def no_result_def\<close>)
  then show ?thesis unfolding get_law_def text_sem_sel json_den_iff by blast
qed

lemma text_scalar_law: "scalar_law text_lib text_sem"
proof -
  have "n < 2 ^ 53 \<Longrightarrow> json_int (JNum (show_nat n)) = int n" for n
    by (simp add: atoi_show_nat)
  moreover have "json_ok j \<Longrightarrow> json_str j \<noteq> [] \<longleftrightarrow> str_nonempty j" for j
    using print_nonempty [of j] by (cases j) auto
  moreover have "json_ok j \<Longrightarrow> \<not> str_nonempty j \<Longrightarrow> length (print_json j) \<le> 4" for j
    by (cases j) (auto simp: quoted_def esc_def)
  moreover have "container j \<Longrightarrow> json_int j = 0" for j by (cases j) auto
  moreover have "json_den [] = None" using json_den_iff [of "[]"] print_nonempty by (metis not_Some_eq)
  moreover have none: "of_result no_result d f = d" for d and f :: "json \<Rightarrow> 'a"
    using \<open>json_den [] = None\<close> by (simp add: of_result_def no_result_def)
  moreover have "length (children (JArr vs)) = length vs" for vs by (simp add: enumerate_eq_zip)
  moreover have "int_of text_lib = (\<lambda>r. of_result r 0 json_int)" "str text_lib = (\<lambda>r. of_result r [] json_str)"
    "arr_len text_lib = (\<lambda>r. of_result r 0 (\<lambda>j. length (children j)))" "\<not> exists text_lib no_result"
    by (simp_all add: text_lib_def no_result_def)
  moreover have "graw (result_of j) = print_json j" for j by (simp add: result_of_def)
  ultimately show ?thesis unfolding scalar_law_def rep_result text_sem_sel
    by (simp del: json_int.simps json_ok.simps children.simps print_json.simps) (simp add: of_result_def no_result_def)
qed

text \<open>\<^verbatim>\<open>SetBytes\<close> with a simple key, for every generic value.\<close>

lemma find_key_update: "find_key k kvs = Some i \<Longrightarrow> kvs[i := (fst (kvs ! i), v)] = AList.update k v kvs"
  by (induction k kvs arbitrary: i rule: find_key.induct) (auto split: if_splits)

lemma json_ok_update: "json_ok (JObj kvs) \<Longrightarrow> json_ok v \<Longrightarrow> json_ok (JObj (AList.update k v kvs))"
  by (induction kvs) auto

lemma text_set_update:
  assumes a: "members text_sem b = Some kvs" "simple_key k"
  shows "\<exists>b'. set_val text_lib b k g = (b', None) \<and> json_den b' = Some (JObj (AList.update k (go_json g) kvs)) \<and> has_prefix b' ''{''"
proof -
  have p: "has_prefix (print_json (JObj xs)) ''{''" for xs by (simp add: has_prefix_def)
  show ?thesis
  proof (cases "b = []")
    case True
    then have "kvs = []" using a(1) by (simp add: members_def)
    with True a json_ok_go p json_den_print [of "JObj [(k, go_json g)]"] show ?thesis
      by (simp add: text_lib_def unesc_simple del: print_json.simps)
  next
    case False
    then have d: "json_den b = Some (JObj kvs)" using a(1)
      by (auto simp: members_def split: option.splits json.splits)
    then have ok: "json_ok (JObj (AList.update k (go_json g) kvs))" using json_ok_go json_ok_update by (simp add: json_den_iff)
    show ?thesis
    proof (cases "find_key k kvs")
      case None
      then have "AList.update k (go_json g) kvs = kvs @ [(k, go_json g)]" by (simp add: find_key_None update_new)
      with None ok False a d p json_den_print show ?thesis
        by (simp add: text_lib_def unesc_simple json_set_def del: print_json.simps)
    next
      case (Some i)
      with ok False a d p json_den_print find_key_update [OF Some] show ?thesis
        by (simp add: text_lib_def unesc_simple json_set_def del: print_json.simps)
    qed
  qed
qed

lemma text_set_val_law: "set_val_law text_lib text_sem"
  unfolding set_val_law_def text_sem_sel
proof (intro conjI allI impI)
  fix b kvs k g v
  assume "members text_sem b = Some kvs" "path_key k" "lit_json g = Some v"
  then show "\<exists>b'. set_val text_lib b k g = (b', None) \<and> json_den b' = Some (JObj (AList.update k v kvs)) \<and> has_prefix b' ''{''"
    using text_set_update [of b kvs k g] go_json_lit [of g v] by (simp add: path_key_def)
next
  fix b k and kvs :: "(string \<times> json) list"
  assume "json_den b = Some (JObj kvs)" "simple_key k" "k \<in> fst ` set kvs"
  then show "contains_str b k"
    using key_contained by (auto simp: json_den_iff simp del: print_json.simps)
qed

theorem text_lib_laws: "lib_laws text_lib text_sem"
proof -
  have "zstd_law text_lib" by (simp add: zstd_law_def text_lib_def)
  then show ?thesis
    using text_parse_law text_for_each_law text_set_raw_law text_get_law text_scalar_law text_set_val_law
    by (simp add: lib_laws_def)
qed

end
