(* ===== verification/Lmo_Props.thy ===== *)
theory Lmo_Props
  imports Lmo_Roundtrip Json_Text
begin

text \<open>
  The properties of the blob store: round trips, crash behaviour, chains and cycles of markers.  The
  hypothesis \<open>sound\<close> carries the two facts the store needs of its environment: the hash does not
  collide on the byte strings in play (\<open>S\<close>), and every file at one of their addresses is a blob the
  store wrote, or was left empty by a killed process.
\<close>

section \<open>Well-formed packed documents\<close>

lemma packed_wf_depth:
  "packed L D st S w n j p \<Longrightarrow> wf_json j \<Longrightarrow> wf_json p \<and> depth p \<le> Suc (depth j)"
proof (induction rule: packed.induct)
  case (ref n j p r m)
  then show ?case by (auto simp: stands_for_def)
next
  case (sub j p n)
  have len: "length (children p) = length (children j)" using sub.hyps by (metis length_map)
  have el: "wf_json c \<and> depth c \<le> depth j" if c: "(k, c) \<in> set (children p)" for k c
  proof -
    obtain i where i: "i < length (children p)" "children p ! i = (k, c)" using c by (metis in_set_conv_nth)
    then have m: "(fst (children j ! i), snd (children j ! i)) \<in> set (children j)" using len by simp
    have "wf_json c \<and> depth c \<le> Suc (depth (snd (children j ! i)))"
      using sub i len wf_child [OF sub.prems m] by auto
    with depth_child [OF m] show ?thesis by simp
  qed
  have "wf_json p"
  proof (cases p)
    case (JObj kvs)
    then obtain kvs' where "j = JObj kvs'" using sub.hyps by (auto simp: same_kind_def split: json.splits)
    moreover have "map fst kvs = map fst kvs'" using sub.hyps JObj calculation by simp
    moreover have "plain_key k" if "(k, c) \<in> set kvs" for k c
    proof -
      have "k \<in> set (map fst kvs')" using that calculation(2) by (metis fst_conv image_eqI set_map)
      with sub.prems calculation(1) show ?thesis by (auto simp: list_all_iff)
    qed
    ultimately show ?thesis using sub.prems el JObj by (auto simp: list_all_iff)
  next
    case (JArr vs)
    have "wf_json v" if "v \<in> set vs" for v
    proof -
      obtain i where "i < length vs" "v = vs ! i" using \<open>v \<in> set vs\<close> by (metis in_set_conv_nth)
      then have "(show_nat i, v) \<in> set (children p)" by (force simp: JArr enumerate_eq_zip set_zip)
      with el show ?thesis by blast
    qed
    with JArr show ?thesis by (simp add: list_all_iff)
  qed auto
  moreover have "depth p \<le> Suc (depth j)" using el by (intro depth_le_child) auto
  ultimately show ?case by simp
qed auto

section \<open>Round trips\<close>

text \<open>
  C1.  Whatever \<^verbatim>\<open>Pack\<close> replaced by markers, \<^verbatim>\<open>ResolveAll\<close> puts back: if packing a document without
  markers, whose objects have plain keys (letters, digits, underscores, hyphens, blanks and dots; different
  ones in an object), returned without an error, under any schedule of file system failures, then resolving the
  packed document later, when any other blobs may have been written and reads do not fail, returns a
  document with the same JSON value.  The fuel is the nesting depth.
\<close>

theorem pack_resolve_roundtrip:
  assumes "lib_laws L D" "den D payload = Some j" "wf_json j" "no_ref D j"
    and "sound L st S w" "big_parts L (parse L payload) \<subseteq> S" "depth j \<le> n"
    and "Pack n L pf st payload w = Some (Inr packed_doc, w1)"
    and "keeps L st S w1 w2" "faultless w2" "depth j < m"
  shows "\<exists>out w3. ResolveAll m L pf st packed_doc w2 = Some (Inr out, w3) \<and> den D out = Some j"
proof -
  have "pack_inv L st S True w" using assms(5) by (simp add: pack_inv_def)
  from Pack_spec [OF assms(1-3) no_ref_isref [OF assms(4)] assms(6,7) this, of pf] assms(8)
  obtain p where p: "den D packed_doc = Some p" "packed L D st S w1 (depth j + 2) j p" "\<not> isref D p" by auto
  have "packed L D st S w2 (depth j + 2) j p"
    using packed_world [OF p(2)] assms(9) by (simp add: keeps_def)
  from ResolveAll_spec [OF assms(1) this p(3,1) assms(4,3), of w2 m pf] assms(10,11) show ?thesis
    by (auto simp: quiet_from_def)
qed

text \<open>
  C2.  \<^verbatim>\<open>Pack\<close> returns: fuel equal to the nesting depth is enough for a document with plain keys, whatever
  fails.  It keeps the store sound and every blob already there, and on a machine whose calls do not fail it
  returns no error.
\<close>

theorem pack_total:
  assumes "lib_laws L D" "den D payload = Some j" "wf_json j" "no_ref D j"
    and "sound L st S w" "big_parts L (parse L payload) \<subseteq> S" "depth j \<le> n"
  shows "\<exists>res w1. Pack n L pf st payload w = Some (res, w1) \<and> sound L st S w1 \<and> keeps L st S w w1
    \<and> (healthy w \<longrightarrow> (\<exists>out. res = Inr out) \<and> healthy w1)"
proof -
  have "pack_inv L st S (\<not> healthy w) w" using assms(5) by (simp add: pack_inv_def)
  from Pack_spec [OF assms(1-3) no_ref_isref [OF assms(4)] assms(6,7) this, of pf]
  obtain res w1 where "Pack n L pf st payload w = Some (res, w1)" "pack_inv L st S (\<not> healthy w) w1"
    "keeps L st S w w1" "case res of Inl e \<Rightarrow> \<not> healthy w
      | Inr out \<Rightarrow> \<exists>p. den D out = Some p \<and> packed L D st S w1 (depth j + 2) j p \<and> \<not> isref D p" by blast
  then show ?thesis by (cases res) (auto simp: pack_inv_def)
qed

text \<open>
  C3.  Packing a document that is packed already (a message passed on by the next node) loses nothing:
  resolving the result gives the original document, whose objects have plain keys.
\<close>

theorem repack_resolve_roundtrip:
  assumes "lib_laws L D" "den D payload = Some j" "wf_json j" "no_ref D j"
    and "sound L st S w" "big_parts L (parse L payload) \<subseteq> S" "depth j \<le> n"
    and "Pack n L pf st payload w = Some (Inr once, w1)"
    and "sound L st S w2" "keeps L st S w1 w2" "big_parts L (parse L once) \<subseteq> S"
    and "Pack (Suc n) L pf st once w2 = Some (Inr twice, w3)"
    and "keeps L st S w3 w4" "faultless w4" "2 * depth j + 3 < m"
  shows "\<exists>out w5. ResolveAll m L pf st twice w4 = Some (Inr out, w5) \<and> den D out = Some j"
proof -
  have inv: "pack_inv L st S True w" "pack_inv L st S True w2" using assms(5,9) by (simp_all add: pack_inv_def)
  from Pack_spec [OF assms(1-3) no_ref_isref [OF assms(4)] assms(6,7) inv(1), of pf] assms(8)
  obtain p where p: "den D once = Some p" "packed L D st S w1 (depth j + 2) j p" "\<not> isref D p" by auto
  note pw = packed_wf_depth [OF p(2) assms(3)]
  from Pack_spec [OF assms(1) p(1) conjunct1 [OF pw] p(3) assms(11) _ inv(2), of "Suc n" pf] assms(7,12) pw
  obtain q where q: "den D twice = Some q" "packed L D st S w3 (depth p + 2) p q" "\<not> isref D q"
    and k: "keeps L st S w2 w3" by auto
  have "packed L D st S w3 (depth j + 2) j p"
    using packed_world [OF p(2)] assms(10) k by (simp add: keeps_def)
  from packed_trans [OF q(2) assms(1) this]
  have "packed L D st S w4 (depth j + 2 + (depth p + 2)) j q"
    using packed_world assms(13) unfolding keeps_def by blast
  from ResolveAll_spec [OF assms(1) this q(3,1) assms(4,3), of w4 m pf] assms(14,15) pw show ?thesis
    by (auto simp: quiet_from_def)
qed

text \<open>
   A blob that \<^verbatim>\<open>PutBlob\<close> reported as written is what \<^verbatim>\<open>GetBlob\<close> reads under the returned
  reference, whatever other blobs are written in between and whatever failed while writing them.
\<close>

theorem put_get_roundtrip:
  assumes "PutBlob L pf st d w = (Inr ref, w1)" "sound L st S w" "d \<in> S" "set ds \<subseteq> S"
    and "faultless (lmo.put_all L pf st ds w1)"
  shows "fst (GetBlob L pf st ref (relPath st) (lmo.put_all L pf st ds w1)) = Inr d"
  using assms by (rule lmo.look_after_puts)

text \<open>
  C4.  \<^verbatim>\<open>PutBlob\<close> is atomic under every schedule of failures: after it, whether it failed or not, the
  file at the address of any byte string in play is as it was, or it is the address of the blob
  written and holds all of its compressed bytes; success means that it does.
\<close>

theorem PutBlob_atomic:
  assumes "PutBlob L pf st d w = (res, w')" "sound L st S w" "d \<in> S"
  shows "(\<forall>e \<in> S. files w' (addr L st e) = files w (addr L st e) \<or> (e = d \<and> holds L st w' d))
    \<and> (\<forall>ref. res = Inr ref \<longrightarrow> ref = hashRef L d \<and> holds L st w' d) \<and> sound L st S w'"
  using PutBlob_files [OF assms] PutBlob_holds [of L pf st d w _ w' S] PutBlob_sound [OF assms] assms
  by (auto simp: holds_def)

section \<open>Chains and cycles of markers\<close>

text \<open>\<open>chain n r w r' w'\<close>: following \<open>n\<close> markers from \<open>r\<close> ends at \<open>r'\<close>, which is none.\<close>

inductive chain :: "lib \<Rightarrow> platform \<Rightarrow> store \<Rightarrow> nat \<Rightarrow> gresult \<Rightarrow> os \<Rightarrow> gresult \<Rightarrow> os \<Rightarrow> bool"
  for L pf st where
  stop: "\<not> IsBlobRef L r \<Longrightarrow> chain L pf st 0 r w r w"
| step: "IsBlobRef L r \<Longrightarrow> resolveRef L pf st r w = (Inr r', w') \<Longrightarrow> chain L pf st n r' w' r'' w''
    \<Longrightarrow> chain L pf st (Suc n) r w r'' w''"

lemma fully_loop_chain:
  "chain L pf st n r w r' w' \<Longrightarrow>
     (if n < k then fully_loop k L pf st r w = (Inr r', w') else \<exists>m u. fully_loop k L pf st r w = (Inl (Errorf m), u))"
proof (induction arbitrary: k rule: chain.induct)
  case (stop r w)
  then show ?case by (cases k) auto
next
  case (step r w r' w' n r'' w'')
  then show ?case by (cases k) auto
qed

text \<open>
  C8.  \<^verbatim>\<open>fullyResolveRef\<close> follows a chain of up to 31 markers to its end; a chain of 32 or more, and so
  every cycle, is an error, although the last of 32 blobs would not be a marker.
\<close>

theorem fullyResolveRef_chain:
  assumes "chain L pf st n r w r' w'"
  shows "if n < 32 then fullyResolveRef L pf st r w = (Inr r', w')
    else \<exists>m u. fullyResolveRef L pf st r w = (Inl (Errorf m), u)"
  using fully_loop_chain [OF assms, of maxResolveDepth] by (auto simp: fullyResolveRef_def maxResolveDepth_def split: if_splits)

text \<open>A blob that holds a marker pointing at itself.\<close>

definition self_ref :: "lib \<Rightarrow> store \<Rightarrow> blob_ref \<Rightarrow> os \<Rightarrow> bool" where
  "self_ref L st br w \<longleftrightarrow> RMagic br = Magic \<and> marker_text br \<and> 3 \<le> length (trim_prefix (Ref br) ''xxh3:'') \<and>
     files w (blobPath st (Path br) (Ref br)) = Some (zenc L (marshalBlobRef L br))"

lemma self_ref_resolves:
  assumes L: "lib_laws L D" and s: "self_ref L st br w" "faultless w" and r: "rep D r (marker br)"
  shows "IsBlobRef L r \<and> resolveRef L pf st r w = (Inr (parse L (marshalBlobRef L br)), tick w)
    \<and> rep D (parse L (marshalBlobRef L br)) (marker br) \<and> self_ref L st br (tick w) \<and> faultless (tick w)"
proof -
  obtain kvs where k: "marker br = JObj kvs" by (simp add: marker_def)
  note m = marker_members [OF k]
  have d: "den D (graw r) = Some (JObj kvs)" using r by (simp add: rep_def k)
  note g = get_member [OF L d]
  have "str L (get L (graw r) ''__ref'') = Ref br"
    using g [OF marker_keys(2,8)] m scalar_laws(3) [OF L] by auto
  moreover have "str L (get L (graw r) ''__path'') = Path br"
    using g [OF marker_keys(3,9)] m scalar_laws(3) [OF L] by auto
  moreover have "readFile pf (blobPath st (Path br) (Ref br)) w = (Inr (zenc L (marshalBlobRef L br)), tick w)"
    using s by (simp add: readFile_faultless self_ref_def)
  ultimately have "resolveRef L pf st r w = (Inr (parse L (marshalBlobRef L br)), tick w)"
    using s(1) lib_lawsD(7) [OF L] by (simp add: resolveRef_def GetBlob_def Let_def self_ref_def zstd_law_def)
  moreover have "Ref br \<noteq> []" using s(1) by (auto simp: self_ref_def trim_prefix_def has_prefix_def)
  then have "IsBlobRef L r"
    using IsBlobRef_isref [OF L r] marker_isref [OF L] s(1) by (simp add: self_ref_def)
  moreover have "rep D (parse L (marshalBlobRef L br)) (marker br)"
    using parse_rep [OF L] marshal_marker [OF L] s(1) by (auto simp: self_ref_def)
  ultimately show ?thesis using s by (simp add: self_ref_def faultless_def tick_def)
qed

lemma fully_loop_self_ref:
  assumes "lib_laws L D"
  shows "self_ref L st br w \<Longrightarrow> faultless w \<Longrightarrow> rep D r (marker br) \<Longrightarrow>
    \<exists>m u. fully_loop n L pf st r w = (Inl (Errorf m), u)"
proof (induction n arbitrary: r w)
  case (Suc n)
  note s = self_ref_resolves [OF assms Suc.prems, of pf]
  with Suc.IH [of "tick w" "parse L (marshalBlobRef L br)"] show ?case by auto
qed simp

lemma resolveValue_self_ref:
  assumes "lib_laws L D"
  shows "self_ref L st br w \<Longrightarrow> faultless w \<Longrightarrow> rep D r (marker br) \<Longrightarrow> resolveValue n L pf st r w = None"
proof (induction n arbitrary: r w)
  case (Suc n)
  note s = self_ref_resolves [OF assms Suc.prems, of pf]
  with Suc.IH [of "tick w" "parse L (marshalBlobRef L br)"] show ?case by auto
qed simp

text \<open>
  C9.  The two resolvers treat a cycle differently.  On a blob that holds a marker pointing at itself
  \<^verbatim>\<open>fullyResolveRef\<close> reports an error; \<^verbatim>\<open>ResolveAll\<close> on a document with such a marker as a member has no
  depth limit and does not return, whatever the fuel.
\<close>

theorem cycle_guarded_only_in_Resolve:
  assumes "lib_laws L D" "self_ref L st br w" "faultless w"
    and "rep D r (marker br)" "den D data = Some (JObj [(k, marker br)])"
  shows "(\<exists>m u. fullyResolveRef L pf st r w = (Inl (Errorf m), u)) \<and> (\<forall>n. ResolveAll n L pf st data w = None)"
proof -
  have f: "\<exists>m u. fullyResolveRef L pf st r w = (Inl (Errorf m), u)"
    using fully_loop_self_ref [OF assms(1-4)] by (simp add: fullyResolveRef_def)
  note p = parse_rep [OF assms(1,5)]
  have "list_all2 (child_rep L D) (for_each L (parse L data)) [(k, marker br)]"
    using children_rep [OF assms(1) p] by simp
  then obtain kr vr where fe: "for_each L (parse L data) = [(kr, vr)]" "rep D vr (marker br)"
    by (auto simp: list_all2_Cons2 child_rep_def)
  have "ResolveAll n L pf st data w = None" for n
    using rep_type_json [OF p] parse_valid [OF assms(1,5)] fe
      resolveValue_self_ref [OF assms(1-3) fe(2), of n pf]
    by (simp add: ResolveAll_def)
  with f show ?thesis by blast
qed

section \<open>A concrete store\<close>

text \<open>
  An empty file system, a message with one string member of 5000 characters, and the library of
  \<open>Json_Text\<close>: the hypotheses above hold there.
\<close>

definition demo_os :: os where
  "demo_os = \<lparr>files = (\<lambda>_. None), dirs = {}, fault = (\<lambda>_. None), short = (\<lambda>_. 0), rnd = (\<lambda>_. ''1''), calls = 0, slept = 0\<rparr>"

definition demo_store :: store where
  "demo_store = \<lparr>configDir = ''/cfg'', relPath = ''robots/r''\<rparr>"

definition demo_str :: json where
  "demo_str = JStr (replicate 5000 (CHR ''x''))"

definition demo_doc :: json where
  "demo_doc = JObj [(''a'', demo_str)]"

definition demo_bytes :: "bytes set" where
  "demo_bytes = {print_json demo_doc, print_json demo_str}"

lemma demo_json: "json_ok demo_doc" "json_ok demo_str" "wf_json demo_doc" "no_ref text_sem demo_doc" "depth demo_doc = 1"
  by (simp_all add: demo_doc_def demo_str_def isref_def plain_key_def plain_char_def)

lemma esc_replicate: "esc (replicate n (CHR ''x'')) = replicate n (CHR ''x'')"
  by (induction n) (auto simp: esc_def)

lemma demo_lengths: "length (print_json demo_str) = 5002" "length (print_json demo_doc) = 5008"
  by (simp_all add: demo_doc_def demo_str_def quoted_def esc_replicate) (simp_all add: esc_def)

lemma hashRef_text: "hashRef text_lib a = hashRef text_lib b \<Longrightarrow>
    be_bytes (of_nat (length a)) = be_bytes (of_nat (length b))"
  by (auto simp: hashRef_def text_lib_def dest: hex_encode_inject)

lemma demo_inj: "inj_on (hashRef text_lib) demo_bytes"
proof -
  have "be_bytes (of_nat (5002::nat)) \<noteq> be_bytes (of_nat (5008::nat))"
    by (simp add: be_bytes_def)
  then have "hashRef text_lib (print_json demo_str) \<noteq> hashRef text_lib (print_json demo_doc)"
    using hashRef_text demo_lengths by metis
  then show ?thesis by (auto simp: inj_on_def demo_bytes_def)
qed

lemma demo_nonempty: "utf8 (relPath demo_store)" "[] \<notin> demo_bytes"
  using utf8_ascii [of "relPath demo_store"] by (simp_all add: demo_store_def demo_bytes_def demo_doc_def demo_str_def quoted_def)

lemma demo_sound: "sound text_lib demo_store demo_bytes demo_os"
  using demo_inj lib_lawsD(7) [OF text_lib_laws] demo_nonempty
  by (simp add: sound_def rnd_ok_def demo_os_def)

lemma demo_parts: "big_parts text_lib (parse text_lib (print_json demo_doc)) \<subseteq> demo_bytes"
proof -
  have fs: "for_each text_lib (result_of demo_str) = []"
    by (simp add: text_lib_def demo_json) (simp add: demo_str_def)
  have fd: "snd ` set (for_each text_lib (result_of demo_doc)) = {result_of demo_str}"
    by (simp add: text_lib_def demo_json) (simp add: demo_doc_def)
  have "b \<in> {print_json demo_str}" if "part text_lib (result_of demo_str) b" for b
    using that
  proof (cases rule: part.cases)
    case (part_child k c)
    with fs show ?thesis by simp
  qed (simp add: result_of_def)
  moreover have "b \<in> demo_bytes" if p: "part text_lib (result_of demo_doc) b" for b
    using p
  proof (cases rule: part.cases)
    case (part_child k c)
    then have "c = result_of demo_str" using fd by (metis image_eqI singletonD snd_conv)
    with part_child calculation show ?thesis by (auto simp: demo_bytes_def)
  qed (simp add: demo_bytes_def result_of_def)
  moreover have "parse text_lib (print_json demo_doc) = result_of demo_doc"
    by (simp add: text_lib_def json_den_print demo_json)
  ultimately show ?thesis by (auto simp: big_parts_def)
qed

lemma demo_den: "den text_sem (print_json demo_doc) = Some demo_doc"
  by (simp add: json_den_print demo_json)

lemma demo_healthy: "healthy demo_os"
  by (simp add: healthy_def faultless_def rnd_ok_def no_tmp_def demo_os_def)

lemma pack_total_witness:
  "\<exists>out w1. Pack 1 text_lib Posix demo_store (print_json demo_doc) demo_os = Some (Inr out, w1)
    \<and> sound text_lib demo_store demo_bytes w1 \<and> healthy w1"
  using pack_total [OF text_lib_laws demo_den demo_json(3,4) demo_sound demo_parts, of 1 Posix]
    demo_healthy demo_json(5) by auto

text \<open>The state after packing the demo message, by the totality of \<^verbatim>\<open>Pack\<close>.\<close>

lemma demo_packed:
  "\<exists>out w1. Pack 1 text_lib Posix demo_store (print_json demo_doc) demo_os = Some (Inr out, w1)
    \<and> sound text_lib demo_store demo_bytes w1 \<and> healthy w1"
proof -
  have "pack_inv text_lib demo_store demo_bytes False demo_os"
    using demo_sound demo_healthy by (simp add: pack_inv_def)
  from Pack_spec [OF text_lib_laws demo_den demo_json(3) no_ref_isref [OF demo_json(4)] demo_parts _ this, of 1 Posix]
  obtain res w1 where "Pack 1 text_lib Posix demo_store (print_json demo_doc) demo_os = Some (res, w1)"
    "pack_inv text_lib demo_store demo_bytes False w1" "case res of Inl e \<Rightarrow> False | Inr out \<Rightarrow> True"
    using demo_json(5) by (fastforce split: sum.splits)
  then show ?thesis by (cases res) (auto simp: pack_inv_def)
qed

theorem pack_resolve_roundtrip_witness:
  "\<exists>out w1 back w3. Pack 1 text_lib Posix demo_store (print_json demo_doc) demo_os = Some (Inr out, w1)
    \<and> ResolveAll 2 text_lib Posix demo_store out w1 = Some (Inr back, w3) \<and> json_den back = Some demo_doc"
proof -
  obtain out w1 where p: "Pack 1 text_lib Posix demo_store (print_json demo_doc) demo_os = Some (Inr out, w1)"
    "healthy w1" using demo_packed by blast
  have "faultless w1" using p(2) by (simp add: healthy_def)
  from pack_resolve_roundtrip [OF text_lib_laws demo_den demo_json(3,4) demo_sound demo_parts _ p(1) keeps_refl this, of 2]
  show ?thesis using p(1) demo_json(5) by auto
qed

text \<open>Packing the demo message replaces its string by a marker of a few hundred bytes at most.\<close>

lemma length_esc: "length (esc s) \<le> 2 * length s"
  by (induction s) (auto simp: esc_def)

definition demo_marker :: blob_ref where
  "demo_marker = buildBlobRef text_lib demo_store (hashRef text_lib (print_json demo_str)) (result_of demo_str)"

definition demo_once :: json where
  "demo_once = JObj [(''a'', marker demo_marker)]"

lemma demo_marker_ok: "json_ok (marker demo_marker)"
  by (simp add: marker_def blob_ref_fields_def num_ok_show_int)

lemma demo_marker_text: "marker_text demo_marker"
  using demo_nonempty(1) by (simp add: demo_marker_def buildBlobRef_text hashRef_utf8)

lemma marshal_print: "marker_text br \<Longrightarrow> json_ok (marker br) \<Longrightarrow> marshalBlobRef text_lib br = print_json (marker br)"
  using marshal_marker [OF text_lib_laws, of br] by (simp add: json_den_iff)

lemma demo_pack:
  "\<exists>w1. Pack 1 text_lib Posix demo_store (print_json demo_doc) demo_os = Some (Inr (print_json demo_once), w1)
    \<and> sound text_lib demo_store demo_bytes w1"
proof -
  obtain w1 where w1: "PutBlob text_lib Posix demo_store (print_json demo_str) demo_os
      = (Inr (hashRef text_lib (print_json demo_str)), w1)"
    using PutBlob_succeeds [OF demo_healthy] by blast
  have r: "graw (result_of demo_str) = print_json demo_str" "gtype (result_of demo_str) = TString"
    by (simp_all add: result_of_def demo_str_def)
  have d: "parse text_lib (print_json demo_doc) = result_of demo_doc" "valid text_lib (print_json demo_doc)"
    by (simp_all add: text_lib_def json_den_print demo_json)
  have "\<not> IsBlobRef text_lib (result_of demo_str)" by (simp add: IsBlobRef_def r)
  then have x: "extractField 1 text_lib Posix demo_store (result_of demo_str) demo_os
      = Some (Inr (Some (marshalBlobRef text_lib demo_marker)), w1)"
    using w1 demo_lengths by (simp add: r put_ref_def demo_marker_def Threshold_def)
  have "set_raw text_lib (print_json demo_doc) ''a'' (print_json (marker demo_marker)) = (print_json demo_once, None)"
    using demo_marker_ok demo_json(1)
    by (simp add: text_lib_def json_den_print json_set_def del: print_json.simps)
      (simp add: demo_doc_def demo_once_def del: print_json.simps)
  moreover have "for_each text_lib (result_of demo_doc) = [(result_of (JStr ''a''), result_of demo_str)]"
    by (simp add: text_lib_def demo_json) (simp add: demo_doc_def result_of_def has_prefix_def)
  moreover have "str text_lib (result_of (JStr ''a'')) = ''a''" by (simp add: text_lib_def)
  moreover have "gtype (result_of demo_doc) = TJSON" by (simp add: result_of_def demo_doc_def)
  ultimately have "Pack 1 text_lib Posix demo_store (print_json demo_doc) demo_os = Some (Inr (print_json demo_once), w1)"
    using x d marshal_print [OF demo_marker_text demo_marker_ok]
    by (simp add: Pack_def demo_store_def [THEN arg_cong [where f = relPath]] walk_path_def escape_def)
  moreover have "sound text_lib demo_store demo_bytes w1"
    using lmo.put_inv [OF w1 demo_sound] by (simp add: demo_bytes_def)
  ultimately show ?thesis by blast
qed

lemma part_size: "part text_lib r b \<Longrightarrow> json_ok j \<Longrightarrow> r = result_of j \<Longrightarrow> length b \<le> length (print_json j)"
proof (induction arbitrary: j rule: part.induct)
  case (part_self r)
  then show ?case by (simp add: result_of_def)
next
  case (part_child k c r b)
  have "\<exists>k v. (k, v) \<in> set (children j) \<and> c = result_of v"
    using part_child.hyps(1) part_child.prems by (auto simp: text_lib_def)
  then obtain k v where v: "(k, v) \<in> set (children j)" "c = result_of v" by blast
  have "length (print_json v) \<le> length (print_json j)"
  proof (cases j)
    case (JObj kvs)
    then have "quoted k @ '':'' @ print_json v \<in> set (map (\<lambda>(k, v). quoted k @ '':'' @ print_json v) kvs)"
      using v(1) by force
    from join_with_mem [OF this, of "'',''"] show ?thesis by (auto simp: JObj)
  next
    case (JArr vs)
    then have "print_json v \<in> set (map print_json vs)"
      using v(1) by (auto simp: enumerate_eq_zip dest: set_zip_rightD)
    from join_with_mem [OF this, of "'',''"] show ?thesis by (auto simp: JArr)
  qed (use v in auto)
  with part_child.IH [OF json_ok_child [OF part_child.prems(1) v(1)] v(2)] show ?case by simp
qed

lemma demo_once_small: "length (print_json demo_once) < Threshold"
proof -
  have sz: "rune_count (str text_lib (result_of demo_str)) \<le> 5000"
  proof -
    have "rune_count_fuel n s \<le> n" for n s by (induction n arbitrary: s) (auto simp: le_SucI)
    moreover have "str text_lib (result_of demo_str) = replicate 5000 (CHR ''x'')"
      by (simp add: text_lib_def demo_json) (simp add: demo_str_def)
    ultimately show ?thesis by (metis length_replicate rune_count_def)
  qed
  have dig: "length (show_nat n) \<le> 10" if "n < 10 ^ 10" for n :: nat
  proof -
    have "length (show_nat m) \<le> k" if "m < 10 ^ k" "0 < k" for m k
      using that
    proof (induction k arbitrary: m)
      case (Suc k)
      show ?case
      proof (cases "m < 10")
        case False
        then have "m div 10 < 10 ^ k" "0 < k" using Suc.prems by (auto intro: gr0I)
        with Suc.IH [of "m div 10"] False show ?thesis by (subst show_nat.simps) simp
      qed (subst show_nat.simps, simp)
    qed simp
    from this [OF that] show ?thesis by simp
  qed
  have h: "length (hashRef text_lib (print_json demo_str)) = 37"
    using hashRef_split [of text_lib "print_json demo_str"] by auto
  have q: "length (quoted s) \<le> 2 * length s + 2" for s using length_esc [of s] by (simp add: quoted_def)
  have si: "length (show_int (int n)) \<le> 10" if "n < 10 ^ 10" for n using dig [OF that] by (simp add: show_int_def)
  have "length (print_json (marker demo_marker)) \<le> 500"
    using q [of "hashRef text_lib (print_json demo_str)"] q [of "''robots/r''"] q [of "''string''"] h sz
      si [of 20260301] si [of 5002] si [of "rune_count (str text_lib (result_of demo_str))"] demo_lengths(1)
      q [of "''__ref''"] q [of "''__magic''"] q [of "''__size''"] q [of "''__path''"] q [of "''__type''"] q [of "''__len''"]
    by (simp add: marker_def blob_ref_fields_def demo_marker_def buildBlobRef_def result_of_def demo_store_def
        demo_str_def [THEN arg_cong [where f = type_of]] Magic_def has_prefix_def)
  with q [of "''a''"] show ?thesis by (simp add: demo_once_def Threshold_def)
qed

lemma demo_once_den: "den text_sem (print_json demo_once) = Some demo_once" "json_ok demo_once"
  using demo_marker_ok by (simp_all add: json_den_print demo_once_def del: print_json.simps)

lemma demo_once_parts: "big_parts text_lib (parse text_lib (print_json demo_once)) \<subseteq> demo_bytes"
proof -
  have "parse text_lib (print_json demo_once) = result_of demo_once"
    using demo_once_den by (simp add: text_lib_def json_den_print)
  then have "big_parts text_lib (parse text_lib (print_json demo_once)) = {}"
    using part_size [OF _ demo_once_den(2) refl] demo_once_small by (fastforce simp: big_parts_def)
  then show ?thesis by simp
qed

theorem repack_resolve_roundtrip_witness:
  "\<exists>w1 twice w3 back w5.
     Pack 1 text_lib Posix demo_store (print_json demo_doc) demo_os = Some (Inr (print_json demo_once), w1)
   \<and> Pack 2 text_lib Posix demo_store (print_json demo_once) w1 = Some (Inr twice, w3)
   \<and> ResolveAll 6 text_lib Posix demo_store twice w3 = Some (Inr back, w5) \<and> json_den back = Some demo_doc"
proof -
  obtain w1 where w1: "Pack 1 text_lib Posix demo_store (print_json demo_doc) demo_os = Some (Inr (print_json demo_once), w1)"
    "sound text_lib demo_store demo_bytes w1" using demo_pack by blast
  have "healthy w1" using demo_packed w1(1) by auto
  then have inv: "pack_inv text_lib demo_store demo_bytes False w1" using w1(2) by (simp add: pack_inv_def)
  have "wf_json demo_once" by (simp add: demo_once_def marker_wf plain_key_def plain_char_def)
  moreover have "\<not> isref text_sem demo_once" by (simp add: demo_once_def isref_def)
  moreover have "depth demo_once \<le> 2" using depth_marker [of demo_marker] by (simp add: demo_once_def)
  ultimately obtain twice w3 where t: "Pack 2 text_lib Posix demo_store (print_json demo_once) w1 = Some (Inr twice, w3)"
    "healthy w3"
    using Pack_spec [OF text_lib_laws demo_once_den(1) _ _ demo_once_parts _ inv, of 2 Posix]
    by (fastforce simp: pack_inv_def split: sum.splits)
  have "faultless w3" using t(2) by (simp add: healthy_def)
  from repack_resolve_roundtrip [OF text_lib_laws demo_den demo_json(3,4) demo_sound demo_parts _ w1(1,2) keeps_refl
      demo_once_parts _ keeps_refl this, of twice 6] t(1) w1(1) demo_json(5)
  show ?thesis by (auto simp: numeral_2_eq_2)
qed

theorem put_get_roundtrip_witness:
  "\<exists>ref w1. PutBlob text_lib Posix demo_store (print_json demo_doc) demo_os = (Inr ref, w1)
   \<and> fst (GetBlob text_lib Posix demo_store ref (relPath demo_store)
        (lmo.put_all text_lib Posix demo_store [print_json demo_str] w1)) = Inr (print_json demo_doc)"
proof -
  obtain w1 where w1: "PutBlob text_lib Posix demo_store (print_json demo_doc) demo_os
      = (Inr (hashRef text_lib (print_json demo_doc)), w1)" "healthy w1"
    using PutBlob_succeeds [OF demo_healthy] by blast
  obtain w2 where w2: "PutBlob text_lib Posix demo_store (print_json demo_str) w1
      = (Inr (hashRef text_lib (print_json demo_str)), w2)" "healthy w2"
    using PutBlob_succeeds [OF w1(2)] by blast
  have "lmo.put_all text_lib Posix demo_store [print_json demo_str] w1 = w2" using w2(1) by simp
  then have "faultless (lmo.put_all text_lib Posix demo_store [print_json demo_str] w1)"
    using w2(2) by (simp add: healthy_def)
  from put_get_roundtrip [OF w1(1) demo_sound _ _ this] w1(1) show ?thesis by (auto simp: demo_bytes_def)
qed

text \<open>The demo file system with every system call but the first, the dedup test, failing.\<close>

definition failing_os :: os where
  "failing_os = demo_os\<lparr>fault := (\<lambda>n. if n = 0 then None else Some (Errno 5))\<rparr>"

theorem PutBlob_atomic_witness:
  "\<exists>w'. PutBlob text_lib Posix demo_store (print_json demo_doc) failing_os = (Inl (Wrap ''lmo: mkdir blob'' (Errno 5)), w')
     \<and> sound text_lib demo_store demo_bytes w'"
proof -
  have s: "sound text_lib demo_store demo_bytes failing_os"
    using demo_sound by (simp add: sound_def rnd_ok_def failing_os_def)
  obtain w' where "PutBlob text_lib Posix demo_store (print_json demo_doc) failing_os
      = (Inl (Wrap ''lmo: mkdir blob'' (Errno 5)), w')"
    by (simp add: PutBlob_def nonempty_stat_def os_defs failing_os_def demo_os_def enoent_def)
  with PutBlob_atomic [OF this s] show ?thesis by (simp add: demo_bytes_def)
qed

text \<open>The demo file system with the string's blob in place.\<close>

definition stored_os :: os where
  "stored_os = demo_os\<lparr>files := [addr text_lib demo_store (print_json demo_str) \<mapsto> zenc text_lib (print_json demo_str)]\<rparr>"

theorem fullyResolveRef_chain_witness:
  "fullyResolveRef text_lib Posix demo_store (result_of (marker demo_marker)) stored_os
     = (Inr (result_of demo_str), tick stored_os)"
proof -
  let ?r = "result_of (marker demo_marker)"
  have r: "rep text_sem ?r (marker demo_marker)" using demo_marker_ok by (simp add: rep_result)
  have m: "Ref demo_marker = hashRef text_lib (print_json demo_str)" "Path demo_marker = relPath demo_store"
    "RMagic demo_marker = Magic" by (simp_all add: demo_marker_def)
  have "quiet_from stored_os stored_os" by (simp add: quiet_from_def faultless_def stored_os_def demo_os_def)
  moreover have "holds text_lib demo_store stored_os (print_json demo_str)" by (simp add: holds_def stored_os_def)
  moreover have "stands_for text_sem demo_store (hashRef text_lib (print_json demo_str)) (marker demo_marker)"
    using marker_stands [OF text_lib_laws m(3) _ m(2)] m(1) by simp
  ultimately have "resolveRef text_lib Posix demo_store ?r stored_os = (Inr (result_of demo_str), tick stored_os)"
    using resolveRef_marker [OF text_lib_laws _ r, of stored_os stored_os demo_store _ Posix]
    by (simp add: text_lib_def json_den_print demo_json)
  moreover have "IsBlobRef text_lib ?r"
    using IsBlobRef_isref [OF text_lib_laws r] marker_isref [OF text_lib_laws m(3)] m(1) by simp
  moreover have "\<not> IsBlobRef text_lib (result_of demo_str)" by (simp add: IsBlobRef_def result_of_def demo_str_def)
  ultimately have "chain text_lib Posix demo_store 1 ?r stored_os (result_of demo_str) (tick stored_os)"
    using chain.intros by (metis One_nat_def)
  from fullyResolveRef_chain [OF this] show ?thesis by simp
qed

definition loop_marker :: blob_ref where
  "loop_marker = \<lparr>Ref = ''xxh3:abcd'', RMagic = Magic, Size = 1, Path = ''r'', Type = ''object'', Len = 0\<rparr>"

definition loop_os :: os where
  "loop_os = demo_os\<lparr>files := [blobPath demo_store ''r'' ''xxh3:abcd'' \<mapsto> zenc text_lib (marshalBlobRef text_lib loop_marker)]\<rparr>"

theorem cycle_guarded_only_in_Resolve_witness:
  "(\<exists>m u. fullyResolveRef text_lib Posix demo_store (result_of (marker loop_marker)) loop_os = (Inl (Errorf m), u))
   \<and> (\<forall>n. ResolveAll n text_lib Posix demo_store (print_json (JObj [(''k'', marker loop_marker)])) loop_os = None)"
proof -
  have ok: "json_ok (marker loop_marker)" by (simp add: marker_def blob_ref_fields_def num_ok_show_int)
  show ?thesis
  proof (rule cycle_guarded_only_in_Resolve [OF text_lib_laws])
    show "self_ref text_lib demo_store loop_marker loop_os"
      by (simp add: self_ref_def loop_marker_def loop_os_def trim_prefix_def has_prefix_def marker_text_def utf8_ascii)
    show "faultless loop_os" by (simp add: faultless_def loop_os_def demo_os_def)
    show "rep text_sem (result_of (marker loop_marker)) (marker loop_marker)" using ok by (simp add: rep_result)
    show "den text_sem (print_json (JObj [(''k'', marker loop_marker)])) = Some (JObj [(''k'', marker loop_marker)])"
      using ok by (simp add: json_den_print del: print_json.simps)
  qed
qed

end
