(* ===== verification/Lmo_Concurrent.thy ===== *)
theory Lmo_Concurrent
  imports Lmo_Props
begin

text \<open>
  \<^verbatim>\<open>PutBlob\<close> run by several processes at once.  The comment above it says what the temporary file and the
  rename are for: no one may see a blob half written.  Here \<^verbatim>\<open>PutBlob\<close> is a program counter that makes one
  system call per step; run alone it is the function \<open>PutBlob\<close>.  In the system of many writers the steps
  interleave in any order, the bytes of a write become visible bit by bit, and a writer may be killed
  between any two steps.
\<close>

section \<open>PutBlob step by step\<close>

text \<open>The next system call.  \<open>AtRename\<close> carries the iterations left, the back-off and \<^verbatim>\<open>lastErr\<close>.\<close>

datatype pc =
    AtStat
  | AtMkdir
  | AtCreate
  | AtWrite string
  | AtAbort string error
  | AtClose string
  | AtRename string nat nat "error option"
  | AtRestat string error
  | AtRemove string "string res"
  | Halted "string res"

definition after_rename :: "string \<Rightarrow> string \<Rightarrow> error option \<Rightarrow> pc" where
  "after_rename t ref r = (case r of None \<Rightarrow> Halted (Inr ref) | Some e \<Rightarrow> AtRestat t e)"

text \<open>One iteration of \<^verbatim>\<open>renameAtomic\<close>.\<close>

definition rename_step :: "platform \<Rightarrow> string \<Rightarrow> string \<Rightarrow> string \<Rightarrow> nat \<Rightarrow> nat \<Rightarrow> error option \<Rightarrow> os \<Rightarrow> pc \<times> os" where
  "rename_step pf ref t p n backoff lastErr w = (case pf of
     Posix \<Rightarrow> (case os_rename t p w of (r, w') \<Rightarrow> (after_rename t ref r, w'))
   | Windows \<Rightarrow> (case n of
       0 \<Rightarrow> (after_rename t ref lastErr, w)
     | Suc m \<Rightarrow> (case os_rename t p w of
         (None, w') \<Rightarrow> (after_rename t ref None, w')
       | (Some e, w') \<Rightarrow>
           if \<not> isTransientShareErr e then (after_rename t ref (Some e), w')
           else (AtRename t m (next_backoff backoff) (Some e), os_sleep backoff w'))))"

fun put_step :: "lib \<Rightarrow> platform \<Rightarrow> store \<Rightarrow> bytes \<Rightarrow> pc \<Rightarrow> os \<Rightarrow> pc \<times> os" where
  "put_step L pf st d AtStat w = (case nonempty_stat (addr L st d) w of
     (True, w') \<Rightarrow> (Halted (Inr (hashRef L d)), w') | (False, w') \<Rightarrow> (AtMkdir, w'))"
| "put_step L pf st d AtMkdir w = (case os_mkdir_all (path_dir (addr L st d)) w of
     (Some e, w') \<Rightarrow> (Halted (Inl (Wrap ''lmo: mkdir blob'' e)), w') | (None, w') \<Rightarrow> (AtCreate, w'))"
| "put_step L pf st d AtCreate w = (case os_create_temp (path_dir (addr L st d)) w of
     (Inl e, w') \<Rightarrow> (Halted (Inl (Wrap ''lmo: create tmp blob'' e)), w') | (Inr t, w') \<Rightarrow> (AtWrite t, w'))"
| "put_step L pf st d (AtWrite t) w = (case os_write t (zenc L d) w of
     (Some e, w') \<Rightarrow> (AtAbort t (Wrap ''lmo: write tmp blob'' e), w') | (None, w') \<Rightarrow> (AtClose t, w'))"
| "put_step L pf st d (AtAbort t e) w = (AtRemove t (Inl e), snd (os_close t w))"
| "put_step L pf st d (AtClose t) w = (case os_close t w of
     (Some e, w') \<Rightarrow> (AtRemove t (Inl (Wrap ''lmo: close tmp blob'' e)), w')
   | (None, w') \<Rightarrow> (AtRename t maxFileRetries initialFileBackoff None, w'))"
| "put_step L pf st d (AtRename t n b lastErr) w = rename_step pf (hashRef L d) t (addr L st d) n b lastErr w"
| "put_step L pf st d (AtRestat t e) w = (case nonempty_stat (addr L st d) w of
     (True, w') \<Rightarrow> (AtRemove t (Inr (hashRef L d)), w')
   | (False, w') \<Rightarrow> (AtRemove t (Inl (Wrap ''lmo: rename blob'' e)), w'))"
| "put_step L pf st d (AtRemove t r) w = (Halted r, snd (os_remove t w))"
| "put_step L pf st d (Halted r) w = (Halted r, w)"

text \<open>What is left of \<^verbatim>\<open>PutBlob\<close> at a program counter, and how many steps at most.\<close>

definition after_renames :: "platform \<Rightarrow> string \<Rightarrow> string \<Rightarrow> string \<Rightarrow> error option \<times> os \<Rightarrow> string res \<times> os" where
  "after_renames pf ref t p x = (case x of
     (None, w') \<Rightarrow> (Inr ref, w')
   | (Some e, w') \<Rightarrow> (case nonempty_stat p w' of
       (True, w'') \<Rightarrow> (Inr ref, snd (os_remove t w''))
     | (False, w'') \<Rightarrow> (Inl (Wrap ''lmo: rename blob'' e), snd (os_remove t w''))))"

definition rest_create :: "lib \<Rightarrow> platform \<Rightarrow> store \<Rightarrow> bytes \<Rightarrow> os \<Rightarrow> string res \<times> os" where
  "rest_create L pf st d w = (case os_create_temp (path_dir (addr L st d)) w of
     (Inl e, w') \<Rightarrow> (Inl (Wrap ''lmo: create tmp blob'' e), w')
   | (Inr t, w') \<Rightarrow> put_tmp pf (hashRef L d) (zenc L d) t (addr L st d) w')"

fun rest :: "lib \<Rightarrow> platform \<Rightarrow> store \<Rightarrow> bytes \<Rightarrow> pc \<Rightarrow> os \<Rightarrow> string res \<times> os" where
  "rest L pf st d AtStat w = PutBlob L pf st d w"
| "rest L pf st d AtMkdir w = (case os_mkdir_all (path_dir (addr L st d)) w of
     (Some e, w') \<Rightarrow> (Inl (Wrap ''lmo: mkdir blob'' e), w') | (None, w') \<Rightarrow> rest_create L pf st d w')"
| "rest L pf st d AtCreate w = rest_create L pf st d w"
| "rest L pf st d (AtWrite t) w = put_tmp pf (hashRef L d) (zenc L d) t (addr L st d) w"
| "rest L pf st d (AtAbort t e) w = (Inl e, snd (os_remove t (snd (os_close t w))))"
| "rest L pf st d (AtClose t) w = (case os_close t w of
     (Some e, w') \<Rightarrow> (Inl (Wrap ''lmo: close tmp blob'' e), snd (os_remove t w'))
   | (None, w') \<Rightarrow> put_rename pf (hashRef L d) t (addr L st d) w')"
| "rest L pf st d (AtRename t n b lastErr) w = after_renames pf (hashRef L d) t (addr L st d)
     (case pf of Posix \<Rightarrow> os_rename t (addr L st d) w | Windows \<Rightarrow> rename_loop n b t (addr L st d) lastErr w)"
| "rest L pf st d (AtRestat t e) w = after_renames pf (hashRef L d) t (addr L st d) (Some e, w)"
| "rest L pf st d (AtRemove t r) w = (r, snd (os_remove t w))"
| "rest L pf st d (Halted r) w = (r, w)"

fun work :: "pc \<Rightarrow> nat" where
  "work AtStat = 24" | "work AtMkdir = 23" | "work AtCreate = 22" | "work (AtWrite t) = 21" | "work (AtAbort t e) = 2"
| "work (AtClose t) = 20" | "work (AtRename t n b lastErr) = n + 3" | "work (AtRestat t e) = 2" | "work (AtRemove t r) = 1"
| "work (Halted r) = 0"

lemma put_rename_after: "put_rename pf ref t p w = after_renames pf ref t p (renameAtomic pf t p w)"
  by (simp add: put_rename_def after_renames_def)

lemma PutBlob_rest: "PutBlob L pf st d w = (case nonempty_stat (addr L st d) w of
    (True, w') \<Rightarrow> (Inr (hashRef L d), w') | (False, w') \<Rightarrow> rest L pf st d AtMkdir w')"
  unfolding PutBlob_def rest.simps rest_create_def addr_def Let_def by (rule refl)

lemma rename_step_rest:
  "(case rename_step pf (hashRef L d) t (addr L st d) n b lastErr w of (c', w') \<Rightarrow> rest L pf st d c' w')
    = rest L pf st d (AtRename t n b lastErr) w"
  by (cases pf; cases n)
    (auto simp: rename_step_def after_rename_def after_renames_def split: option.splits prod.splits)

text \<open>A step does not change what is left to happen, and makes it less.\<close>

lemma put_step_rest: "(case put_step L pf st d c w of (c', w') \<Rightarrow> rest L pf st d c' w') = rest L pf st d c w"
proof (cases c)
  case AtStat
  then show ?thesis by (simp add: PutBlob_rest split: prod.splits bool.splits)
next
  case (AtRename t n b lastErr)
  then show ?thesis using rename_step_rest by simp
next
  case (AtClose t)
  then show ?thesis
    by (cases pf) (auto simp: put_rename_after renameAtomic_def split: prod.splits option.splits)
qed (auto simp: rest_create_def put_tmp_def after_renames_def split: prod.splits option.splits sum.splits bool.splits)

lemma put_step_work: "put_step L pf st d c w = (c', w') \<Longrightarrow> work c \<noteq> 0 \<Longrightarrow> work c' < work c"
  by (cases c)
    (auto simp: rename_step_def after_rename_def maxFileRetries_def
      split: prod.splits option.splits sum.splits bool.splits platform.splits nat.splits if_splits)

lemma work_zero: "work c = 0 \<Longrightarrow> \<exists>r. c = Halted r"
  by (cases c) auto

lemma put_steps_rest:
  "\<exists>k \<le> work c. ((\<lambda>(c, w). put_step L pf st d c w) ^^ k) (c, w)
     = (Halted (fst (rest L pf st d c w)), snd (rest L pf st d c w))"
proof (induction "work c" arbitrary: c w rule: less_induct)
  case less
  show ?case
  proof (cases "work c = 0")
    case True
    then obtain r where "c = Halted r" using work_zero by blast
    then show ?thesis by (intro exI [of _ 0]) simp
  next
    case False
    obtain c' w' where s: "put_step L pf st d c w = (c', w')" by fastforce
    from less [OF put_step_work [OF s False], of w'] obtain k where k: "k \<le> work c'"
      "((\<lambda>(c, w). put_step L pf st d c w) ^^ k) (c', w') = (Halted (fst (rest L pf st d c' w')), snd (rest L pf st d c' w'))"
      by blast
    have "rest L pf st d c' w' = rest L pf st d c w" using put_step_rest [of L pf st d c w] s by simp
    with k s put_step_work [OF s False] show ?thesis
      by (intro exI [of _ "Suc k"]) (simp add: funpow_swap1 del: funpow.simps add: funpow_Suc_right)
  qed
qed

text \<open>
  C6. Run alone, the steps of \<^verbatim>\<open>PutBlob\<close> end within 24 system calls, with the result and the file system of
  the function \<open>PutBlob\<close>, on every platform and under every schedule of failures.
\<close>

theorem PutBlob_steps:
  "\<exists>k \<le> 24. ((\<lambda>(c, w). put_step L pf st d c w) ^^ k) (AtStat, w) = (Halted (fst (PutBlob L pf st d w)), snd (PutBlob L pf st d w))"
  using put_steps_rest [of AtStat L pf st d w] by simp

section \<open>Many writers\<close>

text \<open>
  The disk and the writers, each with its bytes and its program counter; \<open>None\<close> once killed.  \<open>part\<close> lets
  any prefix of a write in progress be seen, or be left when the writer is killed.
\<close>

type_synonym system = "os \<times> (bytes \<times> pc option) list"

inductive put_sys :: "lib \<Rightarrow> platform \<Rightarrow> store \<Rightarrow> bytes set \<Rightarrow> system \<Rightarrow> system \<Rightarrow> bool" for L pf st S where
  start: "d \<in> S \<Longrightarrow> put_sys L pf st S (w, ws) (w, ws @ [(d, Some AtStat)])"
| call: "i < length ws \<Longrightarrow> ws ! i = (d, Some c) \<Longrightarrow> put_step L pf st d c w = (c', w') \<Longrightarrow>
    put_sys L pf st S (w, ws) (w', ws[i := (d, Some c')])"
| part: "i < length ws \<Longrightarrow> ws ! i = (d, Some (AtWrite t)) \<Longrightarrow>
    put_sys L pf st S (w, ws) (w\<lparr>files := (files w)(t \<mapsto> take k (zenc L d))\<rparr>, ws)"
| kill: "i < length ws \<Longrightarrow> ws ! i = (d, Some c) \<Longrightarrow> put_sys L pf st S (w, ws) (w, ws[i := (d, None)])"

text \<open>The temporary file that a writer owns.\<close>

fun tmps :: "pc \<Rightarrow> string set" where
  "tmps (AtWrite t) = {t}"
| "tmps (AtAbort t e) = {t}"
| "tmps (AtClose t) = {t}"
| "tmps (AtRename t n b lastErr) = {t}"
| "tmps (AtRestat t e) = {t}"
| "tmps (AtRemove t r) = {t}"
| "tmps c = {}"

definition done_ok :: "lib \<Rightarrow> store \<Rightarrow> os \<Rightarrow> bytes \<Rightarrow> string res \<Rightarrow> bool" where
  "done_ok L st w d r \<longleftrightarrow> (\<forall>x. r = Inr x \<longrightarrow> x = hashRef L d \<and> holds L st w d)"

text \<open>What holds of a writer's own file and its result at each point.\<close>

fun at_ok :: "lib \<Rightarrow> store \<Rightarrow> os \<Rightarrow> bytes \<Rightarrow> pc \<Rightarrow> bool" where
  "at_ok L st w d (AtClose t) = (files w t = Some (zenc L d))"
| "at_ok L st w d (AtRename t n b lastErr) = (files w t = Some (zenc L d) \<and> (n = 0 \<longrightarrow> lastErr \<noteq> None))"
| "at_ok L st w d (AtRemove t r) = done_ok L st w d r"
| "at_ok L st w d (Halted r) = done_ok L st w d r"
| "at_ok L st w d c = True"

definition pc_ok :: "lib \<Rightarrow> store \<Rightarrow> os \<Rightarrow> bytes \<Rightarrow> pc \<Rightarrow> bool" where
  "pc_ok L st w d c \<longleftrightarrow> at_ok L st w d c \<and> (\<forall>t \<in> tmps c. tmp_of (path_dir (addr L st d)) t \<and> files w t \<noteq> None)"

text \<open>Outside the files of \<open>X\<close> only the blob of \<open>d\<close> may have changed, and only to be complete.\<close>

definition frame :: "lib \<Rightarrow> store \<Rightarrow> bytes \<Rightarrow> string set \<Rightarrow> os \<Rightarrow> os \<Rightarrow> bool" where
  "frame L st d X w w' \<longleftrightarrow> same_env w w' \<and>
     (\<forall>q. q \<notin> X \<longrightarrow> files w' q = files w q \<or> q = addr L st d \<and> files w' q = Some (zenc L d))"

definition step_ok :: "lib \<Rightarrow> store \<Rightarrow> bytes \<Rightarrow> pc \<Rightarrow> os \<Rightarrow> pc \<times> os \<Rightarrow> bool" where
  "step_ok L st d c w x = (case x of (c', w') \<Rightarrow>
     pc_ok L st w' d c' \<and> frame L st d (tmps c \<union> tmps c') w w' \<and> (\<forall>t \<in> tmps c' - tmps c. files w t = None))"

lemma frame_same: "files w' = files w \<Longrightarrow> same_env w w' \<Longrightarrow> frame L st d X w w'"
  by (simp add: frame_def)

lemma stat_holds:
  assumes "nonempty_stat (addr L st d) w = (True, w')" "sound L st S w" "d \<in> S"
  shows "holds L st w' d"
proof -
  obtain b where "files w (addr L st d) = Some b" "b \<noteq> []" using stat_true [OF assms(1)] by blast
  moreover have "files w (addr L st d) \<in> {None, Some [], Some (zenc L d)}" using assms(2,3) by (simp add: sound_def)
  ultimately show ?thesis using stat_effect [OF assms(1)] by (auto simp: holds_def)
qed

text \<open>A rename that succeeds puts the complete blob at its address; one that fails changes nothing.\<close>

lemma rename_step_ok:
  assumes c: "pc_ok L st w d (AtRename t n b lastErr)"
  shows "step_ok L st d (AtRename t n b lastErr) w (rename_step pf (hashRef L d) t (addr L st d) n b lastErr w)"
proof -
  have t: "tmp_of (path_dir (addr L st d)) t" "files w t = Some (zenc L d)" "n = 0 \<longrightarrow> lastErr \<noteq> None"
    using c by (auto simp: pc_ok_def)
  have tp: "t \<noteq> addr L st d" using tmp_not_addr [OF t(1)] .
  obtain r w1 where r: "os_rename t (addr L st d) w = (r, w1)" by fastforce
  have moved: "step_ok L st d (AtRename t n b lastErr) w (after_rename t (hashRef L d) None, w1)" if "r = None"
    using os_rename_cases [OF r] that t tp
    by (auto simp: step_ok_def after_rename_def rename_result_def moved_def pc_ok_def done_ok_def holds_def frame_def)
  have stays: "files w1 = files w" "same_env w w1" if "r = Some e" for e
    using os_rename_cases [OF r] that by (auto simp: rename_result_def same_files_def)
  have failed: "step_ok L st d (AtRename t n b lastErr) w (after_rename t (hashRef L d) (Some e), w')"
    if "files w' = files w" "same_env w w'" for e w'
    using t that by (simp add: step_ok_def after_rename_def pc_ok_def frame_same)
  have again: "step_ok L st d (AtRename t n b lastErr) w (AtRename t m b' (Some e), os_sleep bo w1)" if "r = Some e" for e m b' bo
    using stays [OF that] t by (auto simp: step_ok_def pc_ok_def os_sleep_def same_env_def intro!: frame_same)
  show ?thesis
  proof (cases pf)
    case Posix
    with r moved stays failed show ?thesis by (cases r) (auto simp: rename_step_def)
  next
    case Windows
    show ?thesis
    proof (cases n)
      case 0
      with t(3) failed [of w] Windows show ?thesis by (auto simp: rename_step_def)
    next
      case (Suc m)
      with Windows r moved stays failed again show ?thesis by (cases r) (auto simp: rename_step_def)
    qed
  qed
qed

lemma put_step_ok:
  assumes s: "sound L st S w" "d \<in> S" and c: "pc_ok L st w d c"
  shows "step_ok L st d c w (put_step L pf st d c w)"
proof (cases c)
  case AtStat
  obtain b w' where x: "nonempty_stat (addr L st d) w = (b, w')" by fastforce
  with AtStat stat_effect [OF x] stat_holds [OF _ s] show ?thesis
    by (cases b) (auto simp: step_ok_def pc_ok_def done_ok_def frame_same)
next
  case AtMkdir
  then show ?thesis
    by (auto simp: step_ok_def pc_ok_def done_ok_def os_defs same_env_def split: option.splits intro!: frame_same)
next
  case AtCreate
  have n: "tmp_of (path_dir (addr L st d)) (path_dir (addr L st d) @ ''/.tmp-'' @ rnd w (calls w))"
    using s(1) by (intro tmp_of_mono) (simp add: sound_def)
  with AtCreate show ?thesis
    by (auto simp: step_ok_def pc_ok_def done_ok_def os_defs same_env_def frame_def split: option.splits)
next
  case (AtWrite t)
  with c show ?thesis
    by (auto simp: step_ok_def pc_ok_def os_defs same_env_def frame_def split: option.splits)
next
  case (AtRename t n b lastErr)
  with c rename_step_ok show ?thesis by simp
next
  case (AtRestat t e)
  obtain b w' where x: "nonempty_stat (addr L st d) w = (b, w')" by fastforce
  with AtRestat c stat_effect [OF x] stat_holds [OF _ s] show ?thesis
    by (cases b) (auto simp: step_ok_def pc_ok_def done_ok_def frame_same)
next
  case (AtRemove t r)
  have "tmp_of (path_dir (addr L st d)) t" using c by (simp add: pc_ok_def AtRemove)
  then have "t \<noteq> addr L st d" by (rule tmp_not_addr)
  with AtRemove c show ?thesis
    by (auto simp: step_ok_def pc_ok_def done_ok_def holds_def os_defs same_env_def frame_def split: option.splits)
qed (use c in \<open>auto simp: step_ok_def pc_ok_def done_ok_def maxFileRetries_def os_defs same_env_def
    split: option.splits intro!: frame_same\<close>)

section \<open>The invariant of the system\<close>

text \<open>\<open>pc_ok\<close> of a writer survives what another writer does.\<close>

lemma pc_ok_frame:
  assumes f: "frame L st d X w w'" and s: "sound L st S w" "d \<in> S" "e \<in> S" and c: "pc_ok L st w e c"
    and X: "tmps c \<inter> X = {}" "\<forall>t \<in> X. \<exists>dir. tmp_of dir t"
  shows "pc_ok L st w' e c"
proof -
  have h: "holds L st w' e" if "holds L st w e"
  proof -
    have "addr L st e \<notin> X" using X(2) tmp_not_addr by metis
    moreover have "addr L st e = addr L st d \<Longrightarrow> e = d" using s addr_inj_on by (metis sound_def)
    ultimately show ?thesis using f that by (auto simp: frame_def holds_def)
  qed
  have t: "files w' t = files w t" if "t \<in> tmps c" for t
  proof -
    have "tmp_of (path_dir (addr L st e)) t" using c that by (simp add: pc_ok_def)
    then have "t \<noteq> addr L st d" by (rule tmp_not_addr)
    then show ?thesis using f X(1) that by (auto simp: frame_def)
  qed
  have "at_ok L st w' e c" using c h t by (cases c) (auto simp: pc_ok_def done_ok_def)
  with c t show ?thesis by (simp add: pc_ok_def)
qed

lemma sound_frame:
  assumes "frame L st d X w w'" "sound L st S w" "d \<in> S" "\<forall>t \<in> X. \<exists>dir. tmp_of dir t"
  shows "sound L st S w'"
    and "e \<in> S \<Longrightarrow> files w' (addr L st e) = files w (addr L st e) \<or> files w' (addr L st e) = Some (zenc L e)"
proof -
  have a: "files w' (addr L st e) = files w (addr L st e) \<or> files w' (addr L st e) = Some (zenc L e)" if "e \<in> S" for e
  proof -
    have "addr L st e \<notin> X" using assms(4) tmp_not_addr by metis
    moreover have "addr L st e = addr L st d \<Longrightarrow> e = d" using assms(2,3) that addr_inj_on by (metis sound_def)
    ultimately show ?thesis using assms(1) by (auto simp: frame_def)
  qed
  then show "e \<in> S \<Longrightarrow> files w' (addr L st e) = files w (addr L st e) \<or> files w' (addr L st e) = Some (zenc L e)" .
  have "rnd_ok w'" using assms(1,2) by (simp add: frame_def same_env_def sound_def rnd_ok_def)
  moreover have "files w' (addr L st e) \<in> {None, Some [], Some (zenc L e)}" if "e \<in> S" for e
    using a [OF that] assms(2) that by (auto simp: sound_def)
  ultimately show "sound L st S w'" using assms(2) by (simp add: sound_def)
qed

definition owned :: "bytes \<times> pc option \<Rightarrow> string set" where
  "owned x = (case snd x of None \<Rightarrow> {} | Some c \<Rightarrow> tmps c)"

definition writer_ok :: "lib \<Rightarrow> store \<Rightarrow> bytes set \<Rightarrow> os \<Rightarrow> bytes \<times> pc option \<Rightarrow> bool" where
  "writer_ok L st S w x \<longleftrightarrow> fst x \<in> S \<and> (\<forall>c. snd x = Some c \<longrightarrow> pc_ok L st w (fst x) c)"

text \<open>No two writers own the same temporary file, whether they write the same bytes or not.\<close>

definition system_ok :: "lib \<Rightarrow> store \<Rightarrow> bytes set \<Rightarrow> system \<Rightarrow> bool" where
  "system_ok L st S x \<longleftrightarrow> sound L st S (fst x) \<and> (\<forall>y \<in> set (snd x). writer_ok L st S (fst x) y)
     \<and> (\<forall>i < length (snd x). \<forall>j < length (snd x). i \<noteq> j \<longrightarrow> owned (snd x ! i) \<inter> owned (snd x ! j) = {})"

lemma owned_tmp: "writer_ok L st S w y \<Longrightarrow> t \<in> owned y \<Longrightarrow> tmp_of (path_dir (addr L st (fst y))) t \<and> files w t \<noteq> None"
  by (auto simp: writer_ok_def owned_def pc_ok_def split: option.splits)

lemma system_okD:
  assumes "system_ok L st S (w, ws)" "i < length ws" "ws ! i = y"
  shows "sound L st S w" "writer_ok L st S w y" "j < length ws \<Longrightarrow> i \<noteq> j \<Longrightarrow> owned y \<inter> owned (ws ! j) = {}"
  using assms nth_mem [OF assms(2)] by (auto simp: system_ok_def)

text \<open>A change of one writer's state together with the disk, in general.\<close>

lemma system_ok_update:
  assumes ok: "system_ok L st S (w, ws)" and i: "i < length ws" "ws ! i = (d, Some c)"
    and f: "frame L st d (tmps c \<union> owned y) w w'" and y: "writer_ok L st S w' y"
    and new: "\<forall>t \<in> owned y - tmps c. files w t = None"
  shows "system_ok L st S (w', ws[i := y])"
    and "e \<in> S \<Longrightarrow> files w' (addr L st e) = files w (addr L st e) \<or> files w' (addr L st e) = Some (zenc L e)"
proof -
  note s = system_okD(1) [OF ok i] and d = system_okD(2) [OF ok i]
  have dS: "d \<in> S" using d by (simp add: writer_ok_def)
  have own: "owned (d, Some c) = tmps c" by (simp add: owned_def)
  have X: "\<forall>t \<in> tmps c \<union> owned y. \<exists>dir. tmp_of dir t" using owned_tmp [OF y] owned_tmp [OF d] own by blast
  have other: "owned (ws ! j) \<inter> (tmps c \<union> owned y) = {}" if "j < length ws" "j \<noteq> i" for j
  proof -
    have "owned (ws ! j) \<inter> tmps c = {}" using system_okD(3) [OF ok i that(1)] that(2) own by auto
    moreover have "\<forall>t \<in> owned (ws ! j). files w t \<noteq> None" using owned_tmp [OF system_okD(2) [OF ok that(1) refl]] by blast
    ultimately show ?thesis using new by blast
  qed
  have "writer_ok L st S w' (ws ! j)" if j: "j < length ws" "j \<noteq> i" for j
  proof -
    obtain e oc where e: "ws ! j = (e, oc)" by fastforce
    note system_okD(2) [OF ok j(1) e]
    then show ?thesis using pc_ok_frame [OF f s dS _ _ _ X] other [OF j] e
      by (auto simp: writer_ok_def owned_def)
  qed
  then have "writer_ok L st S w' (ws[i := y] ! a)" if "a < length ws" for a
    using y that by (cases "a = i") simp_all
  then have ws: "\<forall>u \<in> set (ws[i := y]). writer_ok L st S w' u" by (simp add: all_set_conv_all_nth)
  have "owned (ws[i := y] ! a) \<inter> owned (ws[i := y] ! b) = {}" if "a < length ws" "b < length ws" "a \<noteq> b" for a b
    using other [of a] other [of b] system_okD(3) [OF ok that(1) refl that(2,3)] that
    by (cases "a = i"; cases "b = i") (simp_all, blast+)
  with ws sound_frame(1) [OF f s dS X] show "system_ok L st S (w', ws[i := y])" by (simp add: system_ok_def)
  show "e \<in> S \<Longrightarrow> files w' (addr L st e) = files w (addr L st e) \<or> files w' (addr L st e) = Some (zenc L e)"
    using sound_frame(2) [OF f s dS X] .
qed

lemma put_sys_ok:
  assumes "put_sys L pf st S x x'" "system_ok L st S x"
  shows "system_ok L st S x' \<and> (\<forall>e \<in> S. files (fst x') (addr L st e) = files (fst x) (addr L st e)
    \<or> files (fst x') (addr L st e) = Some (zenc L e))"
  using assms
proof cases
  case (start d w ws)
  then have "writer_ok L st S w (d, Some AtStat)" "owned (d, Some AtStat) = {}"
    by (simp_all add: writer_ok_def pc_ok_def owned_def)
  with start assms(2) show ?thesis by (auto simp: system_ok_def nth_append less_Suc_eq)
next
  case (call i ws d c w c' w')
  have "sound L st S w" "d \<in> S" "pc_ok L st w d c"
    using system_okD [OF assms(2) [unfolded call(1)] call(3,4)] by (auto simp: writer_ok_def)
  from put_step_ok [OF this, of pf] have o: "pc_ok L st w' d c'" "frame L st d (tmps c \<union> tmps c') w w'"
    "\<forall>t \<in> tmps c' - tmps c. files w t = None" by (simp_all add: call step_ok_def)
  have y: "writer_ok L st S w' (d, Some c')" "owned (d, Some c') = tmps c'"
    using o(1) \<open>d \<in> S\<close> by (simp_all add: writer_ok_def owned_def)
  show ?thesis
    using system_ok_update [OF assms(2) [unfolded call(1)] call(3,4), of "(d, Some c')" w'] o(2,3) y call by simp
next
  case (part i ws d t w k)
  let ?w = "w\<lparr>files := (files w)(t \<mapsto> take k (zenc L d))\<rparr>" and ?y = "(d, Some (AtWrite t))"
  have d: "d \<in> S" "tmp_of (path_dir (addr L st d)) t"
    using system_okD(2) [OF assms(2) [unfolded part(1)] part(3,4)] by (auto simp: writer_ok_def pc_ok_def)
  have "frame L st d (tmps (AtWrite t) \<union> owned ?y) w ?w" by (simp add: frame_def same_env_def owned_def)
  moreover have "writer_ok L st S ?w ?y" using d by (simp add: writer_ok_def pc_ok_def)
  moreover have "\<forall>u \<in> owned ?y - tmps (AtWrite t). files w u = None" by (simp add: owned_def)
  ultimately show ?thesis
    using system_ok_update [OF assms(2) [unfolded part(1)] part(3,4), of ?y ?w] part list_update_id [of ws i] by simp
next
  case (kill i ws d c w)
  have y: "writer_ok L st S w (d, None)" "owned (d, None) = {}"
    using system_okD(2) [OF assms(2) [unfolded kill(1)] kill(3,4)] by (auto simp: writer_ok_def owned_def)
  have "frame L st d (tmps c \<union> owned (d, None)) w w" by (simp add: frame_def)
  then show ?thesis
    using system_ok_update [OF assms(2) [unfolded kill(1)] kill(3,4), of "(d, None)" w] y kill by simp
qed

lemma put_sys_reachable:
  assumes "(put_sys L pf st S)\<^sup>*\<^sup>* x x'" "system_ok L st S x"
  shows "system_ok L st S x' \<and> (\<forall>e \<in> S. files (fst x') (addr L st e) = files (fst x) (addr L st e)
    \<or> files (fst x') (addr L st e) = Some (zenc L e))"
  using assms(1)
proof (induction rule: rtranclp_induct)
  case base
  show ?case using assms(2) by simp
next
  case (step y z)
  with put_sys_ok [OF step.hyps(2)] show ?case by metis
qed

text \<open>
  C5. Any number of writers, of equal or different bytes, may run \<^verbatim>\<open>PutBlob\<close> at once on one store, each be
  killed between any two system calls, and any of the calls fail.  At every moment the file of a blob is
  as it was at the start or complete, so a reader gets the bytes or an error, and never part of them
  from a write that runs at the time; blobs that were there stay; and a writer that reported success reported the hash of
  its bytes, and they can be read.
\<close>

theorem concurrent_puts_safe:
  assumes "sound L st S w0" "(put_sys L pf st S)\<^sup>*\<^sup>* (w0, []) (w, ws)"
  shows "(\<forall>e \<in> S. files w (addr L st e) = files w0 (addr L st e) \<or> files w (addr L st e) = Some (zenc L e))
    \<and> (\<forall>e \<in> S. holds L st w0 e \<longrightarrow> holds L st w e)
    \<and> (\<forall>d x. (d, Some (Halted (Inr x))) \<in> set ws \<longrightarrow>
         x = hashRef L d \<and> (faultless w \<longrightarrow> fst (GetBlob L pf st x (relPath st) w) = Inr d))"
proof -
  have "system_ok L st S (w0, [])" using assms(1) by (simp add: system_ok_def)
  from put_sys_reachable [OF assms(2) this] have ok: "system_ok L st S (w, ws)"
    and f: "\<forall>e \<in> S. files w (addr L st e) = files w0 (addr L st e) \<or> files w (addr L st e) = Some (zenc L e)" by simp_all
  have "x = hashRef L d \<and> (faultless w \<longrightarrow> fst (GetBlob L pf st x (relPath st) w) = Inr d)"
    if "(d, Some (Halted (Inr x))) \<in> set ws" for d x
  proof -
    have "writer_ok L st S w (d, Some (Halted (Inr x)))" using ok that by (simp add: system_ok_def)
    then have "x = hashRef L d" "holds L st w d" by (simp_all add: writer_ok_def pc_ok_def done_ok_def)
    then show ?thesis using GetBlob_holds ok by (simp add: system_ok_def sound_def)
  qed
  with f show ?thesis by (auto simp: holds_def)
qed

text \<open>One writer running on while the others rest.\<close>

lemma put_sys_alone:
  "((\<lambda>(c, w). put_step L pf st d c w) ^^ k) (c, w) = (c', w') \<Longrightarrow>
     (put_sys L pf st S)\<^sup>*\<^sup>* (w, (d, Some c) # ws) (w', (d, Some c') # ws)"
proof (induction k arbitrary: c w)
  case (Suc k)
  obtain c1 w1 where s: "put_step L pf st d c w = (c1, w1)" by fastforce
  then have "put_sys L pf st S (w, (d, Some c) # ws) (w1, ((d, Some c) # ws)[0 := (d, Some c1)])" by (intro call) simp_all
  moreover have "(put_sys L pf st S)\<^sup>*\<^sup>* (w1, (d, Some c1) # ws) (w', (d, Some c') # ws)"
    using Suc s by (simp add: funpow_Suc_right del: funpow.simps)
  ultimately show ?case by (simp add: converse_rtranclp_into_rtranclp)
qed simp

theorem concurrent_puts_safe_witness:
  "\<exists>w x. (put_sys text_lib Posix demo_store demo_bytes)\<^sup>*\<^sup>* (demo_os, [])
       (w, [(print_json demo_str, Some (Halted (Inr x))), (print_json demo_str, None)])
     \<and> fst (GetBlob text_lib Posix demo_store x (relPath demo_store) w) = Inr (print_json demo_str)"
proof -
  let ?d = "print_json demo_str" and ?R = "put_sys text_lib Posix demo_store demo_bytes"
  obtain w' where p: "PutBlob text_lib Posix demo_store ?d demo_os = (Inr (hashRef text_lib ?d), w')" "healthy w'"
    using PutBlob_succeeds [OF demo_healthy] by blast
  obtain k where "((\<lambda>(c, w). put_step text_lib Posix demo_store ?d c w) ^^ k) (AtStat, demo_os) = (Halted (Inr (hashRef text_lib ?d)), w')"
    using put_steps_rest [of AtStat text_lib Posix demo_store ?d demo_os] p(1) by auto
  note run = put_sys_alone [OF this, of demo_bytes "[(?d, None)]"]
  have d: "?d \<in> demo_bytes" by (simp add: demo_bytes_def)
  have "?R (demo_os, []) (demo_os, [(?d, Some AtStat)])" using start [OF d, of text_lib Posix demo_store demo_os "[]"] by simp
  moreover have "?R (demo_os, [(?d, Some AtStat)]) (demo_os, [(?d, Some AtStat), (?d, Some AtStat)])"
    using start [OF d, of text_lib Posix demo_store demo_os "[(?d, Some AtStat)]"] by simp
  moreover have "?R (demo_os, [(?d, Some AtStat), (?d, Some AtStat)]) (demo_os, [(?d, Some AtStat), (?d, None)])"
    using kill [of 1 "[(?d, Some AtStat), (?d, Some AtStat)]" ?d AtStat] by simp
  ultimately have r: "?R\<^sup>*\<^sup>* (demo_os, []) (w', [(?d, Some (Halted (Inr (hashRef text_lib ?d)))), (?d, None)])"
    using run by (meson converse_rtranclp_into_rtranclp)
  have f: "faultless w'" using p(2) by (simp add: healthy_def)
  have m: "(?d, Some (Halted (Inr (hashRef text_lib ?d)))) \<in> set [(?d, Some (Halted (Inr (hashRef text_lib ?d)))), (?d, None)]"
    by simp
  from conjunct2 [OF conjunct2 [OF concurrent_puts_safe [OF demo_sound r]]] m f
  have "fst (GetBlob text_lib Posix demo_store (hashRef text_lib ?d) (relPath demo_store) w') = Inr ?d" by blast
  with r show ?thesis by blast
qed

end
