(* ===== verification/Spec_Tags.thy ===== *)
theory Spec_Tags
  imports Go_Value "HOL-Library.AList"
begin

text \<open>
  What the spec generator, the CLI and the skill generator read of a node type: its fields, their
  types and their tags.  A Go struct type is a list of \<open>field\<close>s; the tag of a field maps the keys of
  the struct tag (\<^verbatim>\<open>spec\<close>, \<^verbatim>\<open>tool\<close> and so on) to their text, the empty string standing for a missing
  key, as \<^verbatim>\<open>StructTag.Get\<close> has it.  Go maps are association lists updated in place.
\<close>

section \<open>Types and fields\<close>

datatype ikind = I | I8 | I16 | I32 | I64
datatype vkind = VIn | VOut | VOpt

text \<open>Both are finite: a property of all kinds is checked by evaluation.\<close>

instantiation ikind :: enum
begin

definition enum_ikind :: "ikind list" where
  "enum_ikind = [I, I8, I16, I32, I64]"

definition enum_all_ikind :: "(ikind \<Rightarrow> bool) \<Rightarrow> bool" where
  "enum_all_ikind P \<longleftrightarrow> P I \<and> P I8 \<and> P I16 \<and> P I32 \<and> P I64"

definition enum_ex_ikind :: "(ikind \<Rightarrow> bool) \<Rightarrow> bool" where
  "enum_ex_ikind P \<longleftrightarrow> P I \<or> P I8 \<or> P I16 \<or> P I32 \<or> P I64"

instance
proof
  show u: "(UNIV :: ikind set) = set enum_class.enum"
    by (auto simp: enum_ikind_def intro: ikind.exhaust)
  show "distinct (enum_class.enum :: ikind list)" by (simp add: enum_ikind_def)
  show "enum_class.enum_all P \<longleftrightarrow> Ball (UNIV :: ikind set) P" for P
    unfolding u by (simp add: enum_all_ikind_def enum_ikind_def)
  show "enum_class.enum_ex P \<longleftrightarrow> Bex (UNIV :: ikind set) P" for P
    unfolding u by (simp add: enum_ex_ikind_def enum_ikind_def)
qed

end

instantiation vkind :: enum
begin

definition enum_vkind :: "vkind list" where
  "enum_vkind = [VIn, VOut, VOpt]"

definition enum_all_vkind :: "(vkind \<Rightarrow> bool) \<Rightarrow> bool" where
  "enum_all_vkind P \<longleftrightarrow> P VIn \<and> P VOut \<and> P VOpt"

definition enum_ex_vkind :: "(vkind \<Rightarrow> bool) \<Rightarrow> bool" where
  "enum_ex_vkind P \<longleftrightarrow> P VIn \<or> P VOut \<or> P VOpt"

instance
proof
  show u: "(UNIV :: vkind set) = set enum_class.enum"
    by (auto simp: enum_vkind_def intro: vkind.exhaust)
  show "distinct (enum_class.enum :: vkind list)" by (simp add: enum_vkind_def)
  show "enum_class.enum_all P \<longleftrightarrow> Ball (UNIV :: vkind set) P" for P
    unfolding u by (simp add: enum_all_vkind_def enum_vkind_def)
  show "enum_class.enum_ex P \<longleftrightarrow> Bex (UNIV :: vkind set) P" for P
    unfolding u by (simp add: enum_ex_vkind_def enum_vkind_def)
qed

end

datatype gotype =
    TBool
  | TInt ikind
  | TUint ikind
  | TFloat32
  | TFloat64
  | TString
  | TAny
  | TSlice gotype
  | TArray gotype
  | TPtr gotype
  | TMap
  | TVar vkind gotype
  | TCredential
  | TPort
  | TNamed string       \<comment> \<open>a struct type, by its name\<close>

record field =
  fname :: string
  ftype :: gotype
  ftags :: "(string \<times> string) list"

type_synonym node_type = "field list"

definition tag_get :: "field \<Rightarrow> string \<Rightarrow> string" where
  "tag_get f k = (case map_of (ftags f) k of None \<Rightarrow> [] | Some v \<Rightarrow> v)"

definition field_by_name :: "node_type \<Rightarrow> string \<Rightarrow> field option" where
  "field_by_name t n = find (\<lambda>f. fname f = n) t"

section \<open>Tag texts\<close>

type_synonym tag_map = "(string \<times> string) list"

definition spec_pair :: "string \<Rightarrow> string \<times> string" where
  "spec_pair kv =
     (let p = split_on (CHR ''='') kv in
      if length p < 2 then (p ! 0, []) else (p ! 0, p ! 1))"

definition parseSpec :: "string \<Rightarrow> tag_map" where
  "parseSpec spec = fold (\<lambda>kv m. case spec_pair kv of (k, v) \<Rightarrow> AList.update k v m) (split_on (CHR '','') spec) []"

definition tm_get :: "tag_map \<Rightarrow> string \<Rightarrow> string" where
  "tm_get m k = (case map_of m k of None \<Rightarrow> [] | Some v \<Rightarrow> v)"

definition tm_has :: "tag_map \<Rightarrow> string \<Rightarrow> bool" where
  "tm_has m k \<longleftrightarrow> map_of m k \<noteq> None"

definition extractNameFromSpec :: "string \<Rightarrow> string" where
  "extractNameFromSpec spec = tm_get (parseSpec spec) ''name''"

section \<open>Names\<close>

definition lowerFirstLetter :: "string \<Rightarrow> string" where
  "lowerFirstLetter text = (if length text < 2 then to_lower text else to_lower (take 1 text) @ drop 1 text)"

definition upperFirstLetter :: "string \<Rightarrow> string" where
  "upperFirstLetter text = (if length text < 2 then to_upper text else to_upper (take 1 text) @ drop 1 text)"

section \<open>Variable types\<close>

fun type_string :: "gotype \<Rightarrow> string" where
  "type_string TBool = ''bool''"
| "type_string (TInt I) = ''int''"
| "type_string (TInt I8) = ''int8''"
| "type_string (TInt I16) = ''int16''"
| "type_string (TInt I32) = ''int32''"
| "type_string (TInt I64) = ''int64''"
| "type_string (TUint I) = ''uint''"
| "type_string (TUint I8) = ''uint8''"
| "type_string (TUint I16) = ''uint16''"
| "type_string (TUint I32) = ''uint32''"
| "type_string (TUint I64) = ''uint64''"
| "type_string TFloat32 = ''float32''"
| "type_string TFloat64 = ''float64''"
| "type_string TString = ''string''"
| "type_string TAny = ''interface {}''"
| "type_string (TSlice t) = ''[]'' @ type_string t"
| "type_string (TArray t) = ''[1]'' @ type_string t"
| "type_string (TPtr t) = CHR ''*'' # type_string t"
| "type_string TMap = ''map[string]interface {}''"
| "type_string (TVar VIn t) = ''runtime.InVariable['' @ type_string t @ '']''"
| "type_string (TVar VOut t) = ''runtime.OutVariable['' @ type_string t @ '']''"
| "type_string (TVar VOpt t) = ''runtime.OptVariable['' @ type_string t @ '']''"
| "type_string TCredential = ''runtime.Credential''"
| "type_string TPort = ''runtime.Port''"
| "type_string (TNamed n) = n"

text \<open>
  The text before the first match of the expression \<^verbatim>\<open>\\[(.*)\\]\<close>, the whole text when there is none: what
  the first part of \<^verbatim>\<open>r.Split\<close> is.
\<close>

definition before_brackets :: "string \<Rightarrow> string" where
  "before_brackets s = (case index_byte s (CHR ''['') of
     None \<Rightarrow> s
   | Some i \<Rightarrow> if CHR '']'' \<in> set (drop i s) then take i s else s)"

fun elem_type :: "gotype \<Rightarrow> gotype" where
  "elem_type (TSlice t) = t"
| "elem_type (TArray t) = t"
| "elem_type TPort = TString"
| "elem_type t = t"

definition isGenericType :: "gotype \<Rightarrow> gotype \<Rightarrow> bool" where
  "isGenericType t1 t2 \<longleftrightarrow> before_brackets (type_string (elem_type t1)) = before_brackets (type_string t2)"

definition isInVariable :: "gotype \<Rightarrow> bool" where
  "isInVariable t = isGenericType t (TVar VIn TAny)"

definition isOutVariable :: "gotype \<Rightarrow> bool" where
  "isOutVariable t = isGenericType t (TVar VOut TAny)"

definition isOptVariable :: "gotype \<Rightarrow> bool" where
  "isOptVariable t = isGenericType t (TVar VOpt TAny)"

definition isVariable :: "gotype \<Rightarrow> bool" where
  "isVariable t \<longleftrightarrow> isInVariable t \<or> isOutVariable t \<or> isOptVariable t"

fun kind_name :: "gotype \<Rightarrow> string option" where
  "kind_name TBool = Some ''Boolean''"
| "kind_name (TInt k) = Some ''Integer''"
| "kind_name (TUint k) = Some ''Integer''"
| "kind_name TFloat32 = Some ''Double''"
| "kind_name TFloat64 = Some ''Double''"
| "kind_name (TArray t) = Some ''Array''"
| "kind_name _ = None"

definition getVariableType :: "field \<Rightarrow> tag_map \<Rightarrow> string" where
  "getVariableType f fsMap =
     (if isVariable (ftype f) then upperFirstLetter (to_lower (tm_get fsMap ''type''))
      else case kind_name (ftype f) of Some s \<Rightarrow> s | None \<Rightarrow> ''String'')"

section \<open>Values in tags\<close>

definition parse_bool :: "string \<Rightarrow> bool res" where
  "parse_bool s =
     (if s \<in> {''1'', ''t'', ''T'', ''TRUE'', ''true'', ''True''} then Inr True
      else if s \<in> {''0'', ''f'', ''F'', ''FALSE'', ''false'', ''False''} then Inr False
      else Inl (Errorf (''strconv.ParseBool: parsing '' @ s @ '': invalid syntax'')))"

text \<open>
  The number \<^verbatim>\<open>strconv.ParseInt\<close> returns beside its error: the nearest limit when out of range, zero for
  bad syntax.
\<close>

definition parse_int_val :: "nat \<Rightarrow> string \<Rightarrow> int" where
  "parse_int_val bits s = (case parse_int bits s of
     Inr i \<Rightarrow> i
   | Inl e \<Rightarrow>
       (let neg = (s \<noteq> [] \<and> hd s = CHR ''-'');
            body = (if s \<noteq> [] \<and> (hd s = CHR ''-'' \<or> hd s = CHR ''+'') then tl s else s)
        in case parse_digits body of
             None \<Rightarrow> 0 | Some n \<Rightarrow> if neg then - (2 ^ (bits - 1)) else 2 ^ (bits - 1) - 1))"

text \<open>\<open>pf bits\<close> is \<^verbatim>\<open>strconv.ParseFloat\<close>: its value, zero with an error.\<close>

definition parseEnum :: "(string \<Rightarrow> rat) \<Rightarrow> string \<Rightarrow> string \<Rightarrow> string \<Rightarrow> goval list \<times> string list" where
  "parseEnum pf enum enumNames enumType =
     (let parts = split_on (CHR ''|'') enum;
          arr = (if enumType = ''Integer'' then
                   map (\<lambda>p. GInt (case atoi p of Inr i \<Rightarrow> i | Inl e \<Rightarrow> 0)) parts
                 else if enumType = ''Double'' then map (\<lambda>p. GFloat (pf p)) parts
                 else map GStr parts)
      in (arr, split_on (CHR ''|'') enumNames))"

definition parseValue :: "(string \<Rightarrow> rat) \<Rightarrow> field \<Rightarrow> string \<Rightarrow> goval" where
  "parseValue pf f v = (case ftype f of
     TBool \<Rightarrow> GBool (case parse_bool v of Inr b \<Rightarrow> b | Inl e \<Rightarrow> False)
   | TInt k \<Rightarrow> (if k = I \<or> k = I64 then GInt (parse_int_val 64 v)
                else if k = I32 then GInt (parse_int_val 32 v) else GNil)
   | TFloat32 \<Rightarrow> GFloat (pf v)
   | TFloat64 \<Rightarrow> GFloat (pf v)
   | TString \<Rightarrow> GStr v
   | _ \<Rightarrow> GNil)"

section \<open>Reading tags back\<close>

definition tag_safe :: "string \<Rightarrow> bool" where
  "tag_safe s \<longleftrightarrow> CHR '','' \<notin> set s \<and> CHR ''='' \<notin> set s"

definition render_spec :: "tag_map \<Rightarrow> string" where
  "render_spec m = join_with '','' (map (\<lambda>(k, v). k @ ''='' @ v) m)"

lemma spec_pair_render: "tag_safe k \<Longrightarrow> tag_safe v \<Longrightarrow> spec_pair (k @ ''='' @ v) = (k, v)"
  by (simp add: spec_pair_def tag_safe_def)

lemma parse_pairs_map_of:
  "map_of (fold (\<lambda>kv m. case spec_pair kv of (k, v) \<Rightarrow> AList.update k v m) kvs m) k
     = (case map_of (rev (map spec_pair kvs)) k of None \<Rightarrow> map_of m k | Some v \<Rightarrow> Some v)"
proof (induction kvs arbitrary: m)
  case (Cons kv kvs)
  obtain a b where "spec_pair kv = (a, b)" by fastforce
  with Cons show ?case by (auto simp: map_add_def update_conv' split: option.splits)
qed simp

text \<open>
  A tag text written from keys and values free of commas and equals signs is read back: every key
  has its last value and no other key appears.
\<close>

theorem parseSpec_render:
  assumes "m \<noteq> []" "\<forall>(k, v) \<in> set m. tag_safe k \<and> tag_safe v"
  shows "map_of (parseSpec (render_spec m)) k = map_of (rev m) k"
proof -
  let ?kv = "\<lambda>(k, v). k @ ''='' @ (v :: string)"
  have "split_on (CHR '','') (join_with [CHR '',''] (map ?kv m)) = map ?kv m"
    using assms by (intro split_join) (auto simp: tag_safe_def split_def)
  moreover have "map spec_pair (map ?kv m) = m"
    using assms(2) spec_pair_render by (induction m) auto
  ultimately show ?thesis
    by (simp add: parseSpec_def render_spec_def parse_pairs_map_of split: option.splits)
qed

theorem parseSpec_render_witness:
  "map_of (parseSpec ''id=Core.Sum,name=Sum'') ''name'' = Some ''Sum''"
  using parseSpec_render [of "[(''id'', ''Core.Sum''), (''name'', ''Sum'')]" "''name''"]
  by (simp add: render_spec_def tag_safe_def)

lemma b64_len: "length (b64_encode b) mod 4 = 0"
  by (induction b rule: b64_encode.induct) (auto simp: Let_def)

text \<open>
  What \<^verbatim>\<open>parseSpec\<close> keeps of a value: the part before its first equals sign.
\<close>

lemma spec_pair_cut:
  assumes "CHR ''='' \<notin> set k"
  shows "spec_pair (k @ ''='' @ v) = (k, takeWhile (\<lambda>c. c \<noteq> CHR ''='') v)"
proof -
  have hd: "split_on (CHR ''='') v ! 0 = takeWhile (\<lambda>c. c \<noteq> CHR ''='') v"
  proof (induction v)
    case (Cons c v)
    then show ?case by (cases "split_on (CHR ''='') v") (auto simp: split_on_not_Nil)
  qed simp
  have "split_on (CHR ''='') (k @ CHR ''='' # v) = k # split_on (CHR ''='') v" using assms by simp
  then show ?thesis using hd by (cases "split_on (CHR ''='') v") (auto simp: spec_pair_def)
qed

lemma parseSpec_value:
  assumes "tag_safe k" "CHR '','' \<notin> set v"
  shows "tm_get (parseSpec (k @ ''='' @ v)) k = takeWhile (\<lambda>c. c \<noteq> CHR ''='') v"
proof -
  have "split_on (CHR '','') (k @ ''='' @ v) = [k @ ''='' @ v]"
    using assms by (intro split_on_single) (auto simp: tag_safe_def)
  then show ?thesis using spec_pair_cut [of k v] assms(1) by (simp add: parseSpec_def tm_get_def tag_safe_def)
qed

lemma mod_Suc3: "Suc (Suc (Suc n)) mod 3 = n mod 3" "Suc (Suc (Suc (Suc n))) mod 4 = n mod 4"
  by presburger+

lemma b64_takeWhile:
  "(length b mod 3 = 0 \<longrightarrow> takeWhile (\<lambda>c. c \<noteq> CHR ''='') (b64_encode b) = b64_encode b)
   \<and> (length b mod 3 \<noteq> 0 \<longrightarrow> length (takeWhile (\<lambda>c. c \<noteq> CHR ''='') (b64_encode b)) mod 4 \<noteq> 0)"
proof (induction b rule: b64_encode.induct)
  case (4 a b c s)
  then show ?case by (simp add: Let_def b64_char_not_special b64_arith mod_Suc3)
qed (simp_all add: Let_def b64_char_not_special b64_arith)

lemma b64_groups_length: "length s mod 4 \<noteq> 0 \<Longrightarrow> is_err (b64_groups s)"
proof (induction s rule: length_induct)
  case (1 s)
  show ?case
  proof (cases s rule: b64_groups.cases)
    case (2 p q r t s')
    then have "is_err (b64_groups s')" "s' \<noteq> []" using 1 by (auto simp: mod_Suc3)
    with 2 show ?thesis by (cases "b64_groups s'") (auto split: option.splits)
  qed (use 1 in auto)
qed

lemma b64_no_comma: "CHR '','' \<notin> set (b64_encode b)"
proof -
  have "b64_char n \<noteq> CHR '',''" if "n < 64" for n
  proof -
    have "b64_char n \<in> set b64_alphabet" using that by (rule b64_char_in)
    then show ?thesis by (auto simp: b64_alphabet_def)
  qed
  note nc = this this [symmetric]
  show ?thesis
    by (induction b rule: b64_encode.induct) (simp_all add: Let_def nc b64_arith)
qed

text \<open>The decoding of a \<^verbatim>\<open>name\<close> entry that starts with \<^verbatim>\<open>b64:\<close>; a text that does not decode stays.\<close>

definition decode_name :: "string \<Rightarrow> string" where
  "decode_name n =
     (if has_prefix n ''b64:'' then (case b64_decode (drop 4 n) of Inr decoded \<Rightarrow> decoded | Inl e \<Rightarrow> n)
      else n)"

text \<open>
  A name given as \<^verbatim>\<open>b64:\<close> and its base64 text survives the tag parser only when the text has no
  padding: \<^verbatim>\<open>parseSpec\<close> cuts a value at its first equals sign, so a name whose length is no multiple of
  three is left as the undecoded text without its padding.
\<close>

theorem b64_name_padding:
  "decode_name (tm_get (parseSpec (''name=b64:'' @ b64_encode b)) ''name'') =
     (if length b mod 3 = 0 then b else ''b64:'' @ takeWhile (\<lambda>c. c \<noteq> CHR ''='') (b64_encode b))"
proof -
  let ?t = "takeWhile (\<lambda>c. c \<noteq> CHR ''='') (b64_encode b)"
  have "tm_get (parseSpec (''name'' @ ''='' @ (''b64:'' @ b64_encode b))) ''name'' = ''b64:'' @ ?t"
    using b64_no_comma by (subst parseSpec_value) (auto simp: tag_safe_def)
  then have n: "tm_get (parseSpec (''name=b64:'' @ b64_encode b)) ''name'' = ''b64:'' @ ?t" by simp
  have "filter (\<lambda>c. c \<noteq> CHR 0x0A \<and> c \<noteq> CHR 0x0D) ?t = ?t"
    using b64_chars_ok [of _ b] by (auto simp: filter_id_conv dest: set_takeWhileD)
  then have d: "b64_decode ?t = b64_groups ?t" by (simp add: b64_decode_def)
  show ?thesis
  proof (cases "length b mod 3 = 0")
    case True
    then have "?t = b64_encode b" using b64_takeWhile [of b] by simp
    with n True show ?thesis by (simp add: decode_name_def has_prefix_def b64_roundtrip)
  next
    case False
    then have "is_err (b64_groups ?t)" using b64_takeWhile [of b] by (intro b64_groups_length) simp
    with n d False show ?thesis by (cases "b64_groups ?t") (simp_all add: decode_name_def has_prefix_def)
  qed
qed

end
