(* ===== verification/Spec_Gen.thy ===== *)
theory Spec_Gen
  imports Spec_Tags
begin

text \<open>
  \<^verbatim>\<open>runtime/spec.go\<close>: the spec file a package prints for the Designer.  A node type is a \<open>node_class\<close>: its
  fields and what its optional provider methods return.  The icon table, the snake-case function of
  \<^verbatim>\<open>iancoleman/strcase\<close> and \<^verbatim>\<open>strconv.ParseFloat\<close> are parameters (\<open>genv\<close>).  The result is the list of node
  specs that \<^verbatim>\<open>json.Marshal\<close> prints.  A pointer to a flag that is only ever set to true is a bool.
\<close>

record tool_def =
  tdName :: string
  tdDescription :: string
  tdSchema :: goval

record node_class =
  nfields :: node_type
  ntools :: "tool_def list option"           \<comment> \<open>ToolkitProvider\<close>
  nskill :: "string option"                  \<comment> \<open>SkillProvider\<close>
  nassets :: "(string \<times> bool \<times> string) list option"  \<comment> \<open>AssetProvider\<close>
  nmeta :: "goval option"                    \<comment> \<open>MetadataProvider\<close>

record genv =
  icon_of :: "string \<Rightarrow> string"
  snake :: "string \<Rightarrow> string"
  parse_float :: "string \<Rightarrow> rat"

record sprop =
  pType :: string
  pTitle :: string
  pDescription :: "string option"
  pSubTitle :: "string option"
  pCategory :: "int option"
  pProperties :: "goval option"
  pItems :: "goval option"
  pCsScope :: bool
  pJsScope :: bool
  pCustomScope :: bool
  pMessageScope :: bool
  pMessageOnly :: bool
  pAIScope :: bool
  pMultiple :: bool
  pVariableType :: string
  pFormat :: "string option"
  pEnum :: "goval list"
  pEnumNames :: "string list"

text \<open>One of the three property groups; \<open>ui_order\<close> is the entry \<^verbatim>\<open>ui:order\<close> of its UI schema.\<close>

record property =
  ptitle :: string
  props :: "(string \<times> sprop) list"
  formData :: "(string \<times> goval) list"
  ui_order :: "string list"
  uiSchema :: "(string \<times> goval) list"

record node_spec =
  sID :: string
  sIcon :: string
  sName :: string
  sColor :: string
  sEditor :: "string option"
  sSpec :: "string option"
  sInputs :: int
  sOutputs :: int
  sInFilters :: "string option"
  sProperties :: "property list"
  sCustomPorts :: "goval list option"
  sTool :: "(string \<times> string) option"
  sTools :: "tool_def list"
  sSkill :: string
  sAssets :: "(string \<times> bool \<times> string) list"
  sMetadata :: goval

section \<open>What a field's tag says\<close>

record finfo =
  lname :: string
  fsMap :: tag_map
  isInVar :: bool
  isOutVar :: bool
  isOptVar :: bool
  isVar :: bool
  isCred :: bool
  isEnum :: bool
  isArray :: bool
  hasFormat :: bool
  hasDescription :: bool
  isInput :: bool
  isOutput :: bool
  isOption :: bool
  isHidden :: bool

definition field_info :: "field \<Rightarrow> finfo" where
  "field_info f =
     (let m = parseSpec (tag_get f ''spec'');
          i = isInVariable (ftype f); out = isOutVariable (ftype f); opt = isOptVariable (ftype f)
      in \<lparr>lname = lowerFirstLetter (fname f), fsMap = m, isInVar = i, isOutVar = out, isOptVar = opt,
          isVar = (i \<or> out \<or> opt), isCred = (ftype f = TCredential),
          isEnum = (0 < length (tm_get m ''enum'')), isArray = tm_has m ''arrayFields'',
          hasFormat = tm_has m ''format'', hasDescription = tm_has m ''description'',
          isInput = tm_has m ''input'', isOutput = tm_has m ''output'', isOption = tm_has m ''option'',
          isHidden = tm_has m ''hidden''\<rparr>)"

text \<open>The scope and name a variable field starts with.\<close>

definition var_scope_name :: "finfo \<Rightarrow> string \<times> string" where
  "var_scope_name fi =
     (let m = fsMap fi; scope = tm_get m ''scope''; hasScope = tm_has m ''scope'';
          hasName = tm_has m ''name''; n = tm_get m ''name'';
          n1 = (if isVar fi \<and> scope = ''Message'' \<and> \<not> hasName then lname fi else n);
          n2 = (if hasName then decode_name n1 else n1)
      in if isVar fi \<and> \<not> hasScope then (''Custom'', []) else (scope, n2))"

definition var_data :: "string \<Rightarrow> string \<Rightarrow> goval" where
  "var_data scope n = GMap [(''name'', GStr n), (''scope'', GStr scope)]"

section \<open>The schema of a field\<close>

definition typed :: "string \<Rightarrow> goval" where
  "typed t = GMap [(''type'', GStr t)]"

definition base_prop :: "finfo \<Rightarrow> field \<Rightarrow> sprop" where
  "base_prop fi f =
     (let m = fsMap fi in
      \<lparr>pType = [], pTitle = (if tm_has m ''title'' then tm_get m ''title'' else fname f),
       pDescription = (if hasDescription fi then Some (tm_get m ''description'') else None),
       pSubTitle = None, pCategory = None, pProperties = None, pItems = None,
       pCsScope = tm_has m ''csScope'', pJsScope = tm_has m ''jsScope'', pCustomScope = tm_has m ''customScope'',
       pMessageScope = tm_has m ''messageScope'', pMessageOnly = tm_has m ''messageOnly'', pAIScope = tm_has m ''aiScope'',
       pMultiple = False, pVariableType = [],
       pFormat = (if hasFormat fi then Some (tm_get m ''format'') else None), pEnum = [], pEnumNames = []\<rparr>)"

definition array_items :: "genv \<Rightarrow> string \<Rightarrow> goval" where
  "array_items E arrayFields =
     (let arrProps = fold (\<lambda>af m. AList.update (snake E af) (GMap [(''type'', GStr ''string''), (''title'', GStr af)]) m)
            (split_on (CHR ''|'') arrayFields) []
      in GMap [(''type'', GStr ''object''),
               (''properties'', GMap [(''scope'', typed ''string''), (''name'', GMap [(''properties'', GMap arrProps)])])])"

definition field_prop :: "genv \<Rightarrow> finfo \<Rightarrow> field \<Rightarrow> sprop" where
  "field_prop E fi f =
     (let m = fsMap fi; b = base_prop fi f; vt = getVariableType f m;
          en = parseEnum (parse_float E) (tm_get m ''enum'') (tm_get m ''enumNames'') vt
      in if isArray fi then
           b\<lparr>pType := ''array'', pVariableType := vt, pItems := Some (array_items E (tm_get m ''arrayFields''))\<rparr>
         else if isVar fi \<and> isEnum fi \<and> isOptVar fi then
           (let it = to_lower vt; itemType = (if it = ''array'' then ''string'' else it)
            in b\<lparr>pEnum := fst en, pEnumNames := snd en, pMultiple := True, pType := ''array'',
                 pItems := Some (GMap [(''type'', GStr itemType), (''enum'', GList (fst en)),
                                       (''enumNames'', GList (map GStr (snd en)))])\<rparr>)
         else if isVar fi then
           b\<lparr>pType := ''object'', pVariableType := vt,
             pProperties := Some (GMap [(''scope'', typed ''string''), (''name'', typed ''string'')])\<rparr>
         else if isCred fi then
           b\<lparr>pType := ''object'', pSubTitle := Some ''Credentials'',
             pCategory := Some (parse_int_val 64 (tm_get m ''category'')),
             pProperties := Some (GMap [(''scope'', typed ''string''),
               (''name'', GMap [(''type'', GStr ''object''),
                  (''properties'', GMap [(''vaultId'', typed ''string''), (''itemId'', typed ''string'')])])])\<rparr>
         else if isEnum fi then
           b\<lparr>pEnum := fst en, pEnumNames := snd en, pType := to_lower vt, pMultiple := True\<rparr>
         else b\<lparr>pType := to_lower vt\<rparr>)"

section \<open>Placing a field\<close>

definition ui_field :: "string \<Rightarrow> goval" where
  "ui_field s = GMap [(''ui:field'', GStr s)]"

definition markHidden :: "(string \<times> goval) list \<Rightarrow> string \<Rightarrow> (string \<times> goval) list" where
  "markHidden ui fld = (case map_of ui fld of
     Some (GMap existing) \<Rightarrow> AList.update fld (GMap (AList.update ''ui:widget'' (GStr ''hidden'') existing)) ui
   | _ \<Rightarrow> AList.update fld (GMap [(''ui:widget'', GStr ''hidden'')]) ui)"

definition add_prop :: "string \<Rightarrow> sprop \<Rightarrow> property \<Rightarrow> property" where
  "add_prop k sp p = p\<lparr>props := AList.update k sp (props p), ui_order := ui_order p @ [k]\<rparr>"

definition set_ui :: "string \<Rightarrow> goval \<Rightarrow> property \<Rightarrow> property" where
  "set_ui k v p = p\<lparr>uiSchema := AList.update k v (uiSchema p)\<rparr>"

definition set_form :: "string \<Rightarrow> goval \<Rightarrow> property \<Rightarrow> property" where
  "set_form k v p = p\<lparr>formData := AList.update k v (formData p)\<rparr>"

definition hide :: "finfo \<Rightarrow> property \<Rightarrow> property" where
  "hide fi p = (if isHidden fi then p\<lparr>uiSchema := markHidden (uiSchema p) (lname fi)\<rparr> else p)"

definition place_input :: "finfo \<Rightarrow> sprop \<Rightarrow> property \<Rightarrow> property" where
  "place_input fi sp p0 =
     (let k = lname fi; (scope, n) = var_scope_name fi;
          p1 = add_prop k sp p0;
          p2 = (if \<not> isVar fi \<and> isInput fi \<and> hasDescription fi then set_ui k (ui_field ''input'') p1 else p1)
      in hide fi
           (if hasFormat fi then set_ui k (ui_field (tm_get (fsMap fi) ''format'')) (set_form k (var_data scope n) p2)
            else if isArray fi then set_form k (GList []) (set_ui k (ui_field ''array'') p2)
            else if isVar fi then set_ui k (ui_field ''variable'') (set_form k (var_data scope n) p2)
            else set_form k (GStr n) p2))"

definition place_output :: "finfo \<Rightarrow> sprop \<Rightarrow> property \<Rightarrow> property" where
  "place_output fi sp p0 =
     (let k = lname fi; (scope, n) = var_scope_name fi;
          p1 = add_prop k sp p0;
          p2 = (if \<not> isVar fi \<and> isOutput fi \<and> hasDescription fi then set_ui k (ui_field ''input'') p1 else p1)
      in hide fi
           (if isVar fi then set_ui k (ui_field ''variable'') (set_form k (var_data scope n) p2)
            else set_form k (GStr n) p2))"

definition place_optvar :: "genv \<Rightarrow> finfo \<Rightarrow> field \<Rightarrow> sprop \<Rightarrow> property \<Rightarrow> property" where
  "place_optvar E fi f sp p0 =
     (let k = lname fi; (scope, n) = var_scope_name fi;
          p1 = add_prop k sp p0;
          p2 = (if \<not> isVar fi \<and> \<not> isCred fi \<and> isEnum fi \<and> hasDescription fi
                then set_ui k (ui_field ''input'') p1 else p1)
      in hide fi
           (if hasFormat fi then set_ui k (ui_field (tm_get (fsMap fi) ''format'')) (set_form k (var_data scope n) p2)
            else if isArray fi then set_form k (GList []) (set_ui k (ui_field ''array'') p2)
            else if isVar fi \<and> isEnum fi \<and> isOptVar fi then
              set_form k (GList []) (set_ui k (ui_field ''multiSelectCheckbox'') p2)
            else if isVar fi then set_ui k (ui_field ''variable'') (set_form k (var_data scope n) p2)
            else if isCred fi then
              set_form k (GMap [(''name'', GMap [(''vaultId'', GStr ''_''), (''itemId'', GStr ''_'')]), (''scope'', GStr ''Custom'')])
                (set_ui k (ui_field ''vault'') p2)
            else if isEnum fi then
              set_form k (parseValue (parse_float E) f (tm_get (fsMap fi) ''value'')) p2
            else set_form k (GStr n) p2))"

definition place_option :: "genv \<Rightarrow> finfo \<Rightarrow> field \<Rightarrow> sprop \<Rightarrow> property \<Rightarrow> property" where
  "place_option E fi f sp p0 =
     (let k = lname fi;
          p1 = (if hasDescription fi then set_ui k (ui_field ''input'') p0
                else if isArray fi then set_ui k (ui_field ''array'') p0 else p0);
          p2 = add_prop k sp p1
      in if isArray fi then set_form k (GList []) p2
         else set_form k (parseValue (parse_float E) f (tm_get (fsMap fi) ''value'')) p2)"

definition place_field :: "genv \<Rightarrow> field \<Rightarrow> property \<times> property \<times> property \<Rightarrow> property \<times> property \<times> property" where
  "place_field E f = (\<lambda>(inP, outP, optP).
     (let fi = field_info f; sp = field_prop E fi f in
      if isInVar fi \<or> isInput fi then (place_input fi sp inP, outP, optP)
      else if isOutVar fi \<or> isOutput fi then (inP, place_output fi sp outP, optP)
      else if isOptVar fi \<or> isCred fi \<or> isEnum fi then (inP, outP, place_optvar E fi f sp optP)
      else if isOption fi then (inP, outP, place_option E fi f sp optP)
      else (inP, outP, optP)))"

definition empty_prop :: "string \<Rightarrow> property" where
  "empty_prop t = \<lparr>ptitle = t, props = [], formData = [], ui_order = [], uiSchema = []\<rparr>"

definition place_fields :: "genv \<Rightarrow> node_type \<Rightarrow> property \<times> property \<times> property" where
  "place_fields E fs = fold (place_field E) fs (empty_prop ''Input'', empty_prop ''Output'', empty_prop ''Options'')"

section \<open>The node\<close>

definition port_spec :: "field \<Rightarrow> goval" where
  "port_spec f =
     (let base = map (\<lambda>k. (k, GStr (tag_get f k))) [''direction'', ''position'', ''name'', ''icon'', ''color''];
          filters = tag_get f ''filters''
      in GMap (if filters \<noteq> [] then base @ [(''filters'', GList (map GStr (split_on (CHR '','') filters)))] else base))"

definition custom_ports :: "node_type \<Rightarrow> goval list option" where
  "custom_ports fs = (let ps = filter (\<lambda>f. ftype f = TPort) fs in if ps = [] then None else Some (map port_spec ps))"

definition node_tag :: "node_type \<Rightarrow> tag_map" where
  "node_tag fs = parseSpec (case field_by_name fs ''Node'' of None \<Rightarrow> [] | Some f \<Rightarrow> tag_get f ''spec'')"

definition tool_entry :: "node_type \<Rightarrow> (string \<times> string) option" where
  "tool_entry fs = (case field_by_name fs ''Tool'' of
     None \<Rightarrow> None
   | Some f \<Rightarrow> (let parts = parseSpec (tag_get f ''tool'') in
       if tm_get parts ''name'' \<noteq> [] then Some (tm_get parts ''name'', tm_get parts ''description'') else None))"

definition node_header :: "genv \<Rightarrow> node_class \<Rightarrow> node_spec" where
  "node_header E c =
     (let m = node_tag (nfields c); opt = (\<lambda>k. if tm_get m k \<noteq> [] then Some (tm_get m k) else None);
          num = (\<lambda>k. parse_int_val 64 (if tm_has m k then tm_get m k else ''1''))
      in \<lparr>sID = tm_get m ''id'', sIcon = icon_of E (tm_get m ''icon''), sName = tm_get m ''name'',
          sColor = tm_get m ''color'', sEditor = opt ''editor'',
          sSpec = (if tm_has m ''spec'' then Some (tm_get m ''spec'') else None),
          sInputs = num ''inputs'', sOutputs = num ''outputs'', sInFilters = opt ''inFilters'',
          sProperties = [], sCustomPorts = custom_ports (nfields c), sTool = tool_entry (nfields c),
          sTools = (if field_by_name (nfields c) ''Toolkit'' \<noteq> None then
                      (case ntools c of Some ts \<Rightarrow> ts | None \<Rightarrow> []) else []),
          sSkill = (case nskill c of Some s \<Rightarrow> s | None \<Rightarrow> []),
          sAssets = (case nassets c of Some a \<Rightarrow> a | None \<Rightarrow> []),
          sMetadata = (case nmeta c of Some v \<Rightarrow> v | None \<Rightarrow> GNil)\<rparr>)"

definition node_spec_of :: "genv \<Rightarrow> node_class \<Rightarrow> node_spec" where
  "node_spec_of E c =
     (case place_fields E (nfields c) of (inP, outP, optP) \<Rightarrow>
        (node_header E c)\<lparr>sProperties := filter (\<lambda>p. props p \<noteq> []) [inP, outP, optP]\<rparr>)"

definition generateSpecFile :: "genv \<Rightarrow> string \<Rightarrow> string \<Rightarrow> node_class list \<Rightarrow> node_spec list \<times> string \<times> string" where
  "generateSpecFile E pluginName version types = (map (node_spec_of E) types, pluginName, version)"

section \<open>Lemmas\<close>

lemma map_of_update [simp]: "map_of (AList.update k v m) x = (if x = k then Some v else map_of m x)"
  by (simp add: update_conv')

lemma update_not_Nil [simp]: "AList.update k v m \<noteq> []"
  by (cases m) auto

lemmas placing = add_prop_def set_ui_def set_form_def hide_def Let_def

text \<open>The keys of a group's schema are the entries of its order, and every one has a form entry.\<close>

definition group_ok :: "property \<Rightarrow> bool" where
  "group_ok p \<longleftrightarrow> dom (map_of (props p)) = set (ui_order p) \<and> dom (map_of (formData p)) = set (ui_order p)
     \<and> dom (map_of (uiSchema p)) \<subseteq> set (ui_order p)"

lemma group_ok_empty: "group_ok (empty_prop t)"
  by (simp add: group_ok_def empty_prop_def)

lemma dom_update: "dom (map_of (AList.update k v m)) = insert k (dom (map_of m))"
  by (simp add: update_conv')

lemma dom_markHidden: "dom (map_of (markHidden ui k)) = insert k (dom (map_of ui))"
  by (auto simp: markHidden_def dom_update split: option.splits goval.splits)

lemma group_ok_steps:
  "group_ok p \<Longrightarrow> group_ok (set_form k (v::goval) (set_ui k u (add_prop k sp p)))"
  "group_ok p \<Longrightarrow> group_ok (set_form k v (add_prop k sp p))"
  "group_ok p \<Longrightarrow> group_ok (set_form k v (add_prop k sp (set_ui k u p)))"
  by (auto simp: group_ok_def placing dom_update)

lemma group_ok_hide: "group_ok p \<Longrightarrow> lname fi \<in> set (ui_order p) \<Longrightarrow> group_ok (hide fi p)"
  by (auto simp: group_ok_def hide_def dom_markHidden)

lemma group_ok_placed:
  assumes "group_ok p"
  shows "group_ok (place_input fi sp p)" "group_ok (place_output fi sp p)"
    "group_ok (place_optvar E fi f sp p)" "group_ok (place_option E fi f sp p)"
  using assms
  by (auto simp: place_input_def place_output_def place_optvar_def place_option_def Let_def split_def
      intro!: group_ok_hide) (auto simp: group_ok_def add_prop_def set_ui_def set_form_def dom_update)

text \<open>
  C10. The spec of every node is consistent: in each property group the entries of \<^verbatim>\<open>ui:order\<close> are
  exactly the fields of the schema, each has form data, and the UI schema speaks of no other field.
\<close>

theorem spec_groups_consistent:
  "\<forall>p \<in> set (sProperties (node_spec_of E c)). group_ok p \<and> props p \<noteq> []"
proof -
  have "group_ok i \<Longrightarrow> group_ok out \<Longrightarrow> group_ok opt \<Longrightarrow>
      (case fold (place_field E) fs (i, out, opt) of (i', out', opt') \<Rightarrow> group_ok i' \<and> group_ok out' \<and> group_ok opt')" for fs i out opt
  proof (induction fs arbitrary: i out opt)
    case (Cons f fs)
    then show ?case by (auto simp: place_field_def Let_def group_ok_placed)
  qed simp
  from this [of "empty_prop ''Input''" "empty_prop ''Output''" "empty_prop ''Options''" "nfields c"]
  show ?thesis by (auto simp: node_spec_of_def place_fields_def group_ok_empty split: if_splits)
qed

definition demo_field :: field where
  "demo_field = \<lparr>fname = ''OptKey'', ftype = TVar VOpt TString, ftags = [(''spec'', ''title=Key,hidden'')]\<rparr>"

definition demo_genv :: genv where
  "demo_genv = \<lparr>icon_of = id, snake = id, parse_float = (\<lambda>_. 0)\<rparr>"

definition demo_class :: node_class where
  "demo_class = \<lparr>nfields = [demo_field], ntools = None, nskill = None, nassets = None, nmeta = None\<rparr>"

theorem spec_groups_consistent_witness:
  "\<exists>p. sProperties (node_spec_of demo_genv demo_class) = [p] \<and> group_ok p \<and> ui_order p = [''optKey'']"
proof -
  let ?p = "place_optvar demo_genv (field_info demo_field) demo_field (field_prop demo_genv (field_info demo_field) demo_field)
    (empty_prop ''Options'')"
  have f: "\<not> isInVar (field_info demo_field)" "\<not> isInput (field_info demo_field)" "\<not> isOutVar (field_info demo_field)"
    "\<not> isOutput (field_info demo_field)" "isOptVar (field_info demo_field)" "lname (field_info demo_field) = ''optKey''"
    by code_simp+
  have empty: "props (empty_prop t) = []" for t by (simp add: empty_prop_def)
  have o: "ui_order ?p = [''optKey'']" "props ?p \<noteq> []"
    using f(6) by (auto simp: place_optvar_def placing split_def empty_prop_def)
  have "sProperties (node_spec_of demo_genv demo_class) = [?p]"
    using f o(2) by (simp add: node_spec_of_def place_fields_def demo_class_def place_field_def Let_def empty)
  then show ?thesis using spec_groups_consistent [of demo_genv demo_class] o by auto
qed

text \<open>An entry of the UI schema of one field.\<close>

definition ui_get :: "property \<Rightarrow> string \<Rightarrow> string \<Rightarrow> goval option" where
  "ui_get p k x = (case map_of (uiSchema p) k of Some (GMap m) \<Rightarrow> map_of m x | _ \<Rightarrow> None)"

lemma ui_get_hide:
  "isHidden fi \<Longrightarrow> ui_get (hide fi p) (lname fi) x = (if x = ''ui:widget'' then Some (GStr ''hidden'') else ui_get p (lname fi) x)"
  by (auto simp: hide_def ui_get_def markHidden_def split: option.splits goval.splits)

lemma no_hide: "hide (fi\<lparr>isHidden := False\<rparr>) p = p"
  by (simp add: hide_def)

lemma var_scope_name_hidden [simp]: "var_scope_name (fi\<lparr>isHidden := b\<rparr>) = var_scope_name fi"
  by (simp add: var_scope_name_def Let_def)

text \<open>
  \<^verbatim>\<open>hidden\<close> merges: an input, an output and an option variable, credential or enum keep the \<^verbatim>\<open>ui:field\<close>
  they have without the tag and get the hidden widget beside it.  On a plain option field, placed by the
  last branch, the tag changes nothing at all.
\<close>

theorem hidden_merges_except_plain_option:
  assumes "isHidden fi"
  shows "ui_get (place_input fi sp p) (lname fi) ''ui:widget'' = Some (GStr ''hidden'')
     \<and> ui_get (place_input fi sp p) (lname fi) ''ui:field'' = ui_get (place_input (fi\<lparr>isHidden := False\<rparr>) sp p) (lname fi) ''ui:field''
     \<and> ui_get (place_output fi sp p) (lname fi) ''ui:widget'' = Some (GStr ''hidden'')
     \<and> ui_get (place_output fi sp p) (lname fi) ''ui:field'' = ui_get (place_output (fi\<lparr>isHidden := False\<rparr>) sp p) (lname fi) ''ui:field''
     \<and> ui_get (place_optvar E fi f sp p) (lname fi) ''ui:widget'' = Some (GStr ''hidden'')
     \<and> ui_get (place_optvar E fi f sp p) (lname fi) ''ui:field'' = ui_get (place_optvar E (fi\<lparr>isHidden := False\<rparr>) f sp p) (lname fi) ''ui:field''
     \<and> place_option E fi f sp p = place_option E (fi\<lparr>isHidden := False\<rparr>) f sp p"
  using assms
  by (simp add: place_input_def place_output_def place_optvar_def place_option_def Let_def split_def ui_get_hide no_hide)

theorem hidden_merges_except_plain_option_witness:
  "\<forall>sp. ui_get (place_optvar demo_genv (field_info demo_field) demo_field sp (empty_prop ''Options'')) ''optKey'' ''ui:widget''
     = Some (GStr ''hidden'')"
proof -
  have "isHidden (field_info demo_field)" "lname (field_info demo_field) = ''optKey''" by code_simp+
  then show ?thesis using hidden_merges_except_plain_option [of "field_info demo_field"] by metis
qed

end
