(* ===== verification/Lmo_Runtime.thy ===== *)
theory Lmo_Runtime
  imports Lmo_Props
begin

text \<open>
  \<^verbatim>\<open>runtime/lmo_rt.go\<close>, \<^verbatim>\<open>runtime/message.go\<close> and \<^verbatim>\<open>message/context.go\<close>: the process-wide store, the
  options that pack and unpack a message, and the message context nodes read and write.  The variable
  \<^verbatim>\<open>lmoStore\<close> is a \<open>store option\<close> (\<open>None\<close> is nil) that the operations take and return.

  \<^verbatim>\<open>encoding/json\<close> works by reflection on values of user-defined types, which may bring their own
  marshalling methods; its two functions are parameters.
\<close>

record json_lib =
  marshal :: "goval \<Rightarrow> bytes res"
  unmarshal :: "bytes \<Rightarrow> goval res"

section \<open>The store variable\<close>

definition InitLMOStore :: "error option \<Rightarrow> error option \<Rightarrow> string \<Rightarrow> store option \<Rightarrow> error option \<times> store option" where
  "InitLMOStore enc_err dec_err cfg lmoStore =
     (case NewStore enc_err dec_err cfg of Inl e \<Rightarrow> (Some e, None) | Inr s \<Rightarrow> (None, Some s))"

definition SetLMOStorePath :: "string \<Rightarrow> store option \<Rightarrow> os \<Rightarrow> error option \<times> store option \<times> os" where
  "SetLMOStorePath rel lmoStore w = (case lmoStore of
     None \<Rightarrow> (Some (Errorf ''lmo store not initialised''), None, w)
   | Some s \<Rightarrow> (case SetRelPath rel s w of (e, s', w') \<Rightarrow> (e, Some s', w')))"

definition CloseLMOStore :: "store option \<Rightarrow> store option" where
  "CloseLMOStore lmoStore = None"

definition LMOResolve :: "lib \<Rightarrow> platform \<Rightarrow> store option \<Rightarrow> bytes \<Rightarrow> string \<Rightarrow> os \<Rightarrow> gresult res \<times> os" where
  "LMOResolve L pf lmoStore data key w = (case lmoStore of
     None \<Rightarrow> (Inr (get L data key), w) | Some s \<Rightarrow> Resolve L pf s data key w)"

definition LMOResolveAll :: "nat \<Rightarrow> lib \<Rightarrow> platform \<Rightarrow> store option \<Rightarrow> bytes \<Rightarrow> os \<Rightarrow> (bytes res \<times> os) option" where
  "LMOResolveAll n L pf lmoStore data w = (case lmoStore of
     None \<Rightarrow> Some (Inr data, w) | Some s \<Rightarrow> ResolveAll n L pf s data w)"

definition LMOResolveSubtree :: "nat \<Rightarrow> lib \<Rightarrow> platform \<Rightarrow> store option \<Rightarrow> bytes \<Rightarrow> string \<Rightarrow> os
    \<Rightarrow> (gresult res \<times> os) option" where
  "LMOResolveSubtree n L pf lmoStore data key w =
     (case LMOResolve L pf lmoStore data key w of
        (Inl e, w') \<Rightarrow> Some (Inl e, w')
      | (Inr result, w') \<Rightarrow>
          (case lmoStore of
             None \<Rightarrow> Some (Inr result, w')
           | Some s \<Rightarrow>
               if gtype result \<noteq> TJSON then Some (Inr result, w')
               else (case ResolveAll n L pf s (graw result) w' of
                  None \<Rightarrow> None
                | Some (Inl e, w'') \<Rightarrow> Some (Inl e, w'')
                | Some (Inr resolved, w'') \<Rightarrow> Some (Inr (parse L resolved), w''))))"

definition LMOPack :: "nat \<Rightarrow> lib \<Rightarrow> platform \<Rightarrow> store option \<Rightarrow> bytes \<Rightarrow> os \<Rightarrow> (bytes res \<times> os) option" where
  "LMOPack n L pf lmoStore payload w = (case lmoStore of
     None \<Rightarrow> Some (Inr payload, w) | Some s \<Rightarrow> Pack n L pf s payload w)"

section \<open>Values\<close>

definition str_or_empty :: "goval \<Rightarrow> string" where
  "str_or_empty v = (case as_str v of None \<Rightarrow> [] | Some s \<Rightarrow> s)"

text \<open>The store learns its path from the first marker it meets; the error of doing so is dropped.\<close>

definition ResolveBlobRefValue :: "lib \<Rightarrow> json_lib \<Rightarrow> platform \<Rightarrow> (string \<times> goval) list \<Rightarrow> store option \<Rightarrow> os
    \<Rightarrow> goval res \<times> store option \<times> os" where
  "ResolveBlobRefValue L J pf m lmoStore w = (case lmoStore of
     None \<Rightarrow> (Inl (Errorf ''lmo store not initialised''), None, w)
   | Some s \<Rightarrow>
       (let ref = str_or_empty (map_get m ''__ref''); rel = str_or_empty (map_get m ''__path'') in
        if ref = [] then (Inl (Errorf ''lmo: missing __ref''), Some s, w)
        else
          (case (if relPath s = [] \<and> rel \<noteq> [] then snd (SetRelPath rel s w) else (s, w)) of
             (s', w') \<Rightarrow>
               (case GetBlob L pf s' ref rel w' of
                  (Inl e, w'') \<Rightarrow> (Inl e, Some s', w'')
                | (Inr data, w'') \<Rightarrow>
                    (case unmarshal J data of
                       Inl e \<Rightarrow> (Inl (Wrap ''lmo: unmarshal blob'' e), Some s', w'')
                     | Inr result \<Rightarrow> (Inr result, Some s', w''))))))"

text \<open>The result is \<open>None\<close> when the value is to be sent inline.\<close>

definition PackValue :: "nat \<Rightarrow> lib \<Rightarrow> json_lib \<Rightarrow> platform \<Rightarrow> goval \<Rightarrow> store option \<Rightarrow> os
    \<Rightarrow> (goval option res \<times> os) option" where
  "PackValue n L J pf value lmoStore w = (case lmoStore of
     None \<Rightarrow> Some (Inr None, w)
   | Some s \<Rightarrow>
       if relPath s = [] then Some (Inr None, w)
       else (case marshal J value of
          Inl e \<Rightarrow> Some (Inl e, w)
        | Inr data \<Rightarrow>
            if length data < Threshold then Some (Inr None, w)
            else (case Pack n L pf s data w of
               None \<Rightarrow> None
             | Some (Inl e, w') \<Rightarrow> Some (Inl e, w')
             | Some (Inr packed_data, w') \<Rightarrow>
                 (case unmarshal J packed_data of
                    Inl e \<Rightarrow> Some (Inl e, w')
                  | Inr result \<Rightarrow>
                      if IsBlobRefMap result then Some (Inr (Some result), w')
                      else if length packed_data < length data then Some (Inr (Some result), w')
                      else Some (Inr None, w')))))"

section \<open>Options\<close>

text \<open>A \<^verbatim>\<open>json.RawMessage\<close> may be nil, which is no valid JSON: the store passes it through.\<close>

type_synonym raw_option = "bytes option \<Rightarrow> os \<Rightarrow> (bytes option res \<times> os) option"

definition lift_raw :: "(bytes \<Rightarrow> os \<Rightarrow> (bytes res \<times> os) option) \<Rightarrow> raw_option" where
  "lift_raw f raw w = (case raw of
     None \<Rightarrow> Some (Inr None, w)
   | Some b \<Rightarrow> (case f b w of
       None \<Rightarrow> None
     | Some (Inl e, w') \<Rightarrow> Some (Inl e, w')
     | Some (Inr d, w') \<Rightarrow> Some (Inr (Some d), w')))"

definition WithUnpack :: "nat \<Rightarrow> lib \<Rightarrow> platform \<Rightarrow> store option \<Rightarrow> raw_option" where
  "WithUnpack n L pf lmoStore raw w = lift_raw (LMOResolveAll n L pf lmoStore) raw w"

definition WithPack :: "nat \<Rightarrow> lib \<Rightarrow> platform \<Rightarrow> store option \<Rightarrow> raw_option" where
  "WithPack n L pf lmoStore raw w = lift_raw (LMOPack n L pf lmoStore) raw w"

fun apply_options :: "raw_option list \<Rightarrow> raw_option" where
  "apply_options [] raw w = Some (Inr raw, w)"
| "apply_options (opt # opts) raw w = (case opt raw w of
     None \<Rightarrow> None
   | Some (Inl e, w') \<Rightarrow> Some (Inl e, w')
   | Some (Inr raw', w') \<Rightarrow> apply_options opts raw' w')"

text \<open>\<^verbatim>\<open>getRaw\<close> resolves every marker first, and goes on with the packed bytes when that fails.\<close>

definition getRaw :: "nat \<Rightarrow> lib \<Rightarrow> platform \<Rightarrow> store option \<Rightarrow> raw_option list \<Rightarrow> raw_option" where
  "getRaw n L pf lmoStore options raw w = (case lift_raw (LMOResolveAll n L pf lmoStore) raw w of
     None \<Rightarrow> None
   | Some (Inl e, w') \<Rightarrow> apply_options options raw w'
   | Some (Inr resolved, w') \<Rightarrow> apply_options options resolved w')"

definition setRaw :: "raw_option list \<Rightarrow> raw_option" where
  "setRaw options raw w = apply_options options raw w"

section \<open>The message context\<close>

record message =
  ID :: string
  data :: "bytes option"

definition raw_bytes :: "message \<Rightarrow> bytes" where
  "raw_bytes msg = (case data msg of None \<Rightarrow> [] | Some b \<Rightarrow> b)"

definition NewContext :: "lib \<Rightarrow> bytes \<Rightarrow> message" where
  "NewContext L d = \<lparr>ID = str L (get L d ''id''), data = Some d\<rparr>"

definition convertPath :: "string \<Rightarrow> string" where
  "convertPath path = replace_all (replace_all path (CHR ''['') ''.'') (CHR '']'') []"

definition msg_Set :: "lib \<Rightarrow> string \<Rightarrow> goval \<Rightarrow> message \<Rightarrow> error option \<times> message" where
  "msg_Set L path value msg =
     (case set_val L (raw_bytes msg) (convertPath path) value of (d, e) \<Rightarrow> (e, msg\<lparr>data := Some d\<rparr>))"

text \<open>The lookup behind every typed getter; an error of the resolver falls back to the plain bytes.\<close>

definition msg_get :: "nat \<Rightarrow> lib \<Rightarrow> platform \<Rightarrow> store option \<Rightarrow> string \<Rightarrow> message \<Rightarrow> os \<Rightarrow> (gresult \<times> os) option" where
  "msg_get n L pf lmoStore path msg w =
     (case LMOResolveSubtree n L pf lmoStore (raw_bytes msg) (convertPath path) w of
        None \<Rightarrow> None
      | Some (Inr result, w') \<Rightarrow>
          Some (if exists L result then result else get L (raw_bytes msg) (convertPath path), w')
      | Some (Inl e, w') \<Rightarrow> Some (get L (raw_bytes msg) (convertPath path), w'))"

definition msg_Get :: "nat \<Rightarrow> lib \<Rightarrow> platform \<Rightarrow> store option \<Rightarrow> string \<Rightarrow> message \<Rightarrow> os \<Rightarrow> (goval \<times> os) option" where
  "msg_Get n L pf so path msg w = map_option (\<lambda>(r, w'). (val L r, w')) (msg_get n L pf so path msg w)"

definition msg_GetString :: "nat \<Rightarrow> lib \<Rightarrow> platform \<Rightarrow> store option \<Rightarrow> string \<Rightarrow> message \<Rightarrow> os \<Rightarrow> (string \<times> os) option" where
  "msg_GetString n L pf so path msg w = map_option (\<lambda>(r, w'). (str L r, w')) (msg_get n L pf so path msg w)"

definition msg_GetInt :: "nat \<Rightarrow> lib \<Rightarrow> platform \<Rightarrow> store option \<Rightarrow> string \<Rightarrow> message \<Rightarrow> os \<Rightarrow> (int \<times> os) option" where
  "msg_GetInt n L pf so path msg w = map_option (\<lambda>(r, w'). (int_of L r, w')) (msg_get n L pf so path msg w)"

definition msg_GetRaw :: "nat \<Rightarrow> lib \<Rightarrow> platform \<Rightarrow> store option \<Rightarrow> raw_option list \<Rightarrow> message \<Rightarrow> os \<Rightarrow> (bytes option res \<times> os) option" where
  "msg_GetRaw n L pf so options msg w = getRaw n L pf so options (data msg) w"

text \<open>An error of an option clears the data: the assignment takes the nil slice.\<close>

definition msg_SetRaw :: "raw_option list \<Rightarrow> bytes option \<Rightarrow> message \<Rightarrow> os \<Rightarrow> (error option \<times> message \<times> os) option" where
  "msg_SetRaw options d msg w = (case setRaw options d w of
     None \<Rightarrow> None
   | Some (Inl e, w') \<Rightarrow> Some (Some e, msg\<lparr>data := None\<rparr>, w')
   | Some (Inr d', w') \<Rightarrow> Some (None, msg\<lparr>data := d'\<rparr>, w'))"

definition IsEmpty :: "message \<Rightarrow> bool" where
  "IsEmpty msg \<longleftrightarrow> data msg = None \<or> length (raw_bytes msg) = 0"

definition PackedBytes :: "message \<Rightarrow> bytes option" where
  "PackedBytes msg = data msg"

section \<open>Properties\<close>

text \<open>
  Between nodes: what one node's output was packed to, the next node's \<^verbatim>\<open>GetRaw\<close> gives back as the
  original document, and with the packing option \<^verbatim>\<open>SetRaw\<close> stores exactly the packed form.
\<close>

theorem message_pack_then_GetRaw:
  assumes "lib_laws L D" "den D payload = Some j" "wf_json j" "no_ref D j"
    and "sound L st S w" "big_parts L (parse L payload) \<subseteq> S" "depth j \<le> n"
    and "msg_SetRaw [WithPack n L pf (Some st)] (Some payload) msg w = Some (None, msg', w1)"
    and "keeps L st S w1 w2" "faultless w2" "depth j < m"
  shows "\<exists>out w3. msg_GetRaw m L pf (Some st) [] msg' w2 = Some (Inr (Some out), w3) \<and> den D out = Some j"
proof -
  obtain p where p: "Pack n L pf st payload w = Some (Inr p, w1)" "msg' = msg\<lparr>data := Some p\<rparr>"
    using assms(8) by (auto simp: msg_SetRaw_def setRaw_def WithPack_def LMOPack_def lift_raw_def split: option.splits sum.splits)
  have "pack_inv L st S True w" using assms(5) by (simp add: pack_inv_def)
  from Pack_spec [OF assms(1-3) no_ref_isref [OF assms(4)] assms(6,7) this, of pf] p(1)
  obtain q where q: "den D p = Some q" "packed L D st S w1 (depth j + 2) j q" "\<not> isref D q" by auto
  have "packed L D st S w2 (depth j + 2) j q"
    using packed_world [OF q(2)] assms(9) by (simp add: keeps_def)
  from ResolveAll_spec [OF assms(1) this q(3,1) assms(4,3), of w2 m pf] assms(10,11) p(2) show ?thesis
    by (auto simp: quiet_from_def msg_GetRaw_def getRaw_def LMOResolveAll_def lift_raw_def)
qed

theorem message_pack_then_GetRaw_witness:
  "\<exists>msg' w1 out w3.
     msg_SetRaw [WithPack 1 text_lib Posix (Some demo_store)] (Some (print_json demo_doc)) \<lparr>ID = [], data = None\<rparr> demo_os
       = Some (None, msg', w1)
   \<and> msg_GetRaw 2 text_lib Posix (Some demo_store) [] msg' w1 = Some (Inr (Some out), w3) \<and> json_den out = Some demo_doc"
proof -
  obtain out w1 where p: "Pack 1 text_lib Posix demo_store (print_json demo_doc) demo_os = Some (Inr out, w1)"
    "healthy w1" using demo_packed by blast
  let ?m = "\<lparr>ID = [], data = None\<rparr>"
  have s: "msg_SetRaw [WithPack 1 text_lib Posix (Some demo_store)] (Some (print_json demo_doc)) ?m demo_os
      = Some (None, ?m\<lparr>data := Some out\<rparr>, w1)"
    using p(1) by (simp add: msg_SetRaw_def setRaw_def WithPack_def LMOPack_def lift_raw_def)
  have "faultless w1" using p(2) by (simp add: healthy_def)
  from message_pack_then_GetRaw [OF text_lib_laws demo_den demo_json(3,4) demo_sound demo_parts _ s keeps_refl this, of 2]
  show ?thesis using s demo_json(5) by auto
qed

text \<open>
  A value whose JSON text is a string, a number, a boolean or null is never packed, however long:
  \<^verbatim>\<open>PackValue\<close> reports it as small, since \<^verbatim>\<open>Pack\<close> only looks below an object or an array.  (The comment
  above \<^verbatim>\<open>PackValue\<close> promises that it packs a value that exceeds the threshold.)
\<close>

theorem PackValue_scalar_inline:
  assumes "lib_laws L D" "marshal J value = Inr d" "den D d = Some j" "\<not> container j"
    and "unmarshal J d = Inr result" "\<not> IsBlobRefMap result"
  shows "PackValue n L J pf value lmoStore w = Some (Inr None, w)"
proof -
  have "gtype (parse L d) \<noteq> TJSON" using rep_type_json [OF parse_rep [OF assms(1,3)]] assms(4) by simp
  then have "relPath s \<noteq> [] \<Longrightarrow> Pack n L pf s d w = Some (Inr d, w)" for s by (simp add: Pack_def)
  with assms show ?thesis by (auto simp: PackValue_def split: option.splits)
qed

definition demo_jsonlib :: json_lib where
  "demo_jsonlib = \<lparr>marshal = (\<lambda>v. Inr (print_json (go_json v))),
     unmarshal = (\<lambda>b. case json_den b of Some j \<Rightarrow> Inr (json_val j) | None \<Rightarrow> Inl (Errorf ''invalid character''))\<rparr>"

theorem PackValue_scalar_inline_witness:
  "PackValue 9 text_lib demo_jsonlib Posix (GStr (replicate 5000 (CHR ''x''))) (Some demo_store) demo_os
     = Some (Inr None, demo_os) \<and> Threshold \<le> length (print_json demo_str)"
proof -
  have d: "json_den (quoted (replicate 5000 (CHR ''x''))) = Some demo_str"
    using json_den_print [OF demo_json(2)] by (simp add: demo_str_def)
  have "PackValue 9 text_lib demo_jsonlib Posix (GStr (replicate 5000 (CHR ''x''))) (Some demo_store) demo_os
     = Some (Inr None, demo_os)"
  proof (rule PackValue_scalar_inline [OF text_lib_laws])
    show "den text_sem (quoted (replicate 5000 (CHR ''x''))) = Some demo_str" using d by simp
    show "unmarshal demo_jsonlib (quoted (replicate 5000 (CHR ''x''))) = Inr (GStr (replicate 5000 (CHR ''x'')))"
      using d by (simp add: demo_jsonlib_def) (simp add: demo_str_def)
  qed (simp_all add: demo_jsonlib_def demo_str_def IsBlobRefMap_def)
  then show ?thesis using demo_lengths by (simp add: Threshold_def)
qed

lemma convertPath_chars: "set (convertPath p) \<inter> {CHR ''['', CHR '']''} = {}"
  by (induction p) (auto simp: convertPath_def)

lemma convertPath_id: "set p \<inter> {CHR ''['', CHR '']''} = {} \<Longrightarrow> convertPath p = p"
  by (simp add: convertPath_def replace_all_id)

text \<open>
  A path in index notation reads the member that its dotted form reads: \<^verbatim>\<open>convertPath\<close> leaves no
  bracket, changes nothing in a path without brackets, so applying it twice is applying it once, and
  every getter sees the same result for both forms.
\<close>

theorem convertPath_canonical:
  "set (convertPath p) \<inter> {CHR ''['', CHR '']''} = {} \<and> convertPath (convertPath p) = convertPath p
   \<and> msg_get n L pf so (convertPath p) msg w = msg_get n L pf so p msg w
   \<and> msg_Set L (convertPath p) v msg = msg_Set L p v msg"
proof -
  have e: "convertPath (convertPath p) = convertPath p"
    using convertPath_chars [of p] by (rule convertPath_id)
  show ?thesis using convertPath_chars [of p] unfolding msg_get_def msg_Set_def e by simp
qed

end
