(* ===== verification/Capabilities.thy ===== *)
theory Capabilities
  imports Go_Value "HOL-Library.Word"
begin

unbundle bit_operations_syntax

text \<open>
  \<^verbatim>\<open>runtime/capabilities.go\<close>: the capability bits the robot and the package negotiate, as 64-bit words.
  The robot's bits arrive in a protobuf \<^verbatim>\<open>Struct\<close>, that is, as a float64.
\<close>

definition cap_bit :: "nat \<Rightarrow> 64 word" where
  "cap_bit i = push_bit i 1"

definition CapabilityLMOv1Reserved :: "64 word" where "CapabilityLMOv1Reserved = cap_bit 0"
definition CapabilityIgnoreVersionCheck :: "64 word" where "CapabilityIgnoreVersionCheck = cap_bit 1"
definition CapabilityTerminateOnStop :: "64 word" where "CapabilityTerminateOnStop = cap_bit 2"
definition CapabilityUseS3 :: "64 word" where "CapabilityUseS3 = cap_bit 3"
definition CapabilityLMO :: "64 word" where "CapabilityLMO = cap_bit 4"
definition CapabilityDiagnostics :: "64 word" where "CapabilityDiagnostics = cap_bit 5"
definition CapabilityLazyMessage :: "64 word" where "CapabilityLazyMessage = cap_bit 6"

record caps =
  robotCapabilities :: "64 word"
  packageCapabilities :: "64 word"

definition initial_caps :: caps where
  "initial_caps = \<lparr>robotCapabilities = 0, packageCapabilities = CapabilityLMO\<rparr>"

definition GetCapabilities :: "caps \<Rightarrow> 64 word" where
  "GetCapabilities c = robotCapabilities c AND packageCapabilities c"

definition HasCapability :: "64 word \<Rightarrow> caps \<Rightarrow> bool" where
  "HasCapability k c \<longleftrightarrow> GetCapabilities c AND k > 0"

definition HasRobotCapability :: "64 word \<Rightarrow> caps \<Rightarrow> bool" where
  "HasRobotCapability k c \<longleftrightarrow> robotCapabilities c AND k > 0"

definition SetRobotCapabilities :: "64 word \<Rightarrow> caps \<Rightarrow> caps" where
  "SetRobotCapabilities k c = c\<lparr>robotCapabilities := k\<rparr>"

definition SetPackageCapabilities :: "64 word \<Rightarrow> caps \<Rightarrow> caps" where
  "SetPackageCapabilities k c = c\<lparr>packageCapabilities := k\<rparr>"

definition SetPackageCapability :: "64 word \<Rightarrow> caps \<Rightarrow> caps" where
  "SetPackageCapability k c = c\<lparr>packageCapabilities := packageCapabilities c OR k\<rparr>"

definition SetRobotCapability :: "64 word \<Rightarrow> caps \<Rightarrow> caps" where
  "SetRobotCapability k c = c\<lparr>robotCapabilities := robotCapabilities c OR k\<rparr>"

text \<open>\<^verbatim>\<open>uint64(f)\<close> for a float64.\<close>

definition f64_to_u64 :: "rat \<Rightarrow> 64 word" where
  "f64_to_u64 r = word_of_int (trunc_f64 r)"

section \<open>Negotiation\<close>

lemma bit_cap: "i < 64 \<Longrightarrow> bit (cap_bit i) j \<longleftrightarrow> j = i"
  by (auto simp: cap_bit_def bit_exp_iff)

lemma and_cap_pos: "i < 64 \<Longrightarrow> w AND cap_bit i > 0 \<longleftrightarrow> bit w i"
proof -
  assume i: "i < 64"
  have "bit (w AND cap_bit i) j \<longleftrightarrow> j = i \<and> bit w i" for j
    using bit_cap [OF i] by (auto simp: bit_and_iff)
  then have "w AND cap_bit i = 0 \<longleftrightarrow> \<not> bit w i"
    by (metis bit_0_eq bit_word_eqI bot_apply bot_bool_def)
  then show ?thesis by (simp add: word_greater_zero_iff)
qed

text \<open>
  A capability bit is in force exactly when both sides have it; setting a bit on one side adds that
  bit and no other, and the enabled set only grows.
\<close>

theorem capability_negotiation:
  assumes "i < 64"
  shows "(HasCapability (cap_bit i) c \<longleftrightarrow> bit (robotCapabilities c) i \<and> bit (packageCapabilities c) i)
    \<and> (\<forall>j < 64. HasCapability (cap_bit i) (SetPackageCapability (cap_bit j) c) \<longleftrightarrow>
          HasCapability (cap_bit i) c \<or> (j = i \<and> HasRobotCapability (cap_bit i) c))"
  using assms and_cap_pos [OF assms]
  by (auto simp: HasCapability_def HasRobotCapability_def GetCapabilities_def SetPackageCapability_def
      bit_and_iff bit_or_iff bit_cap)

theorem capability_negotiation_witness:
  "HasCapability CapabilityLMO (SetRobotCapabilities 0x10 initial_caps) \<and> \<not> HasCapability CapabilityUseS3 (SetRobotCapabilities 0x18 initial_caps)"
proof -
  have "bit (0x10 :: 64 word) 4" "bit (0x18 :: 64 word) 3" "\<not> bit (CapabilityLMO) 3" "bit CapabilityLMO 4"
    by (simp_all add: CapabilityLMO_def bit_cap)
  then show ?thesis
    using capability_negotiation [of 4 "SetRobotCapabilities 0x10 initial_caps"]
      capability_negotiation [of 3 "SetRobotCapabilities 0x18 initial_caps"]
    by (simp add: CapabilityLMO_def [symmetric] CapabilityUseS3_def SetRobotCapabilities_def initial_caps_def)
qed

text \<open>
  The float64 transport of the robot's bits is exact for words below \<open>2 ^ 53\<close>, so for bits 0 to 52; a
  word with bit 53 and bit 0 loses bit 0 on the way.
\<close>

theorem capability_transport:
  "(\<forall>w :: 64 word. w < 2 ^ 53 \<longrightarrow> f64_to_u64 (round_f64 (uint w)) = w)
   \<and> f64_to_u64 (round_f64 (uint (2 ^ 53 + 1 :: 64 word))) = 2 ^ 53"
proof -
  have "f64_to_u64 (round_f64 (uint w)) = w" if "w < 2 ^ 53" for w :: "64 word"
  proof -
    have "uint w < 2 ^ 53" using that by (simp add: word_less_def)
    then have "\<bar>uint w\<bar> \<le> 2 ^ 53" by simp
    then show ?thesis by (simp add: f64_to_u64_def f64_int_roundtrip)
  qed
  moreover have "f64_to_u64 (round_f64 (uint (2 ^ 53 + 1 :: 64 word))) = 2 ^ 53"
    using f64_int_loss by (simp add: f64_to_u64_def)
  ultimately show ?thesis by blast
qed

theorem capability_transport_witness:
  "f64_to_u64 (round_f64 (uint (0x50 :: 64 word))) = 0x50"
proof -
  have "(0x50 :: 64 word) < 2 ^ 53" by simp
  then show ?thesis using conjunct1 [OF capability_transport] by blast
qed

end
