(* ===== verification/Node_Server.thy ===== *)
theory Node_Server
  imports Lmo_Runtime Spec_Tags Capabilities "HOL-Library.Monad_Syntax"
begin

text \<open>
  The plugin side of the node protocol: \<^verbatim>\<open>grpc.go\<close> (the methods of \<^verbatim>\<open>GRPCServer\<close>), \<^verbatim>\<open>handler.go\<close>,
  \<^verbatim>\<open>factory.go\<close>, \<^verbatim>\<open>tool_interceptor.go\<close>, \<^verbatim>\<open>tool_response.go\<close>, \<^verbatim>\<open>setup.go\<close>, \<^verbatim>\<open>compress.go\<close> and the caching of
  \<^verbatim>\<open>properties.go\<close>.  The package's node types are user code: what they do on each callback is the
  record \<open>node_code\<close>, a parameter; a handler is named by a number.  The global variables of the
  package are the fields of \<open>server\<close>.  A result \<open>None\<close> of an operation that reads the message means that
  the fuel of the blob resolver ran out.
\<close>

section \<open>State\<close>

type_synonym hid = nat

text \<open>Delays are in seconds.\<close>

record node =
  nScope :: string
  GUID :: string
  nName :: string
  DelayBefore :: rat
  DelayAfter :: rat
  ContinueOnError :: bool

text \<open>A registered handler: always the tool interceptor around the node's own handler.\<close>

record node_handler =
  nhNode :: node
  originalHandler :: hid
  hasTool :: bool

record 'e node_code =
  unmarshal_node :: "string \<Rightarrow> bytes \<Rightarrow> hid res"     \<comment> \<open>reflect.New of the type, json.Unmarshal of the config\<close>
  node_field :: "hid \<Rightarrow> node option"              \<comment> \<open>its field Node\<close>
  tool_field :: "hid \<Rightarrow> bool"                     \<comment> \<open>whether its type has a field Tool\<close>
  out_specs :: "hid \<Rightarrow> string list"               \<comment> \<open>the spec tags of its OutVariable fields\<close>
  on_create :: "hid \<Rightarrow> 'e \<Rightarrow> error option \<times> 'e"
  on_message :: "hid \<Rightarrow> message \<Rightarrow> os \<Rightarrow> 'e \<Rightarrow> error option \<times> message \<times> os \<times> 'e"
  on_close :: "hid \<Rightarrow> 'e \<Rightarrow> error option \<times> 'e"
  on_setup :: "hid \<Rightarrow> (string \<Rightarrow> string \<Rightarrow> 'e \<Rightarrow> error option \<times> 'e) option"  \<comment> \<open>when it is a SetupHandler\<close>

record 'e server =
  factories :: "string \<Rightarrow> string option"             \<comment> \<open>the type each factory makes\<close>
  handlers :: "string \<Rightarrow> node_handler option"
  nc :: "32 word"
  sessionMode :: bool
  lmoStore :: "store option"
  capsOf :: caps
  hasClient :: bool
  robotInfo :: "(string \<times> goval) list"
  fs :: os
  doneSignals :: nat
  inbox :: "(string \<times> bytes option) list"           \<comment> \<open>what EmitInput sent, the latest last\<close>
  ext :: 'e

section \<open>Registries\<close>

definition NewToolInterceptor :: "'e node_code \<Rightarrow> node \<Rightarrow> hid \<Rightarrow> node_handler" where
  "NewToolInterceptor C n h = \<lparr>nhNode = n, originalHandler = h, hasTool = tool_field C h\<rparr>"

declare NewToolInterceptor_def [simp]

text \<open>Every handler is wrapped.\<close>

definition AddNodeHandler :: "'e node_code \<Rightarrow> node \<Rightarrow> hid \<Rightarrow> 'e server \<Rightarrow> 'e server" where
  "AddNodeHandler C n h s =
     s\<lparr>handlers := (handlers s)(GUID n \<mapsto> NewToolInterceptor C n h)\<rparr>"

definition GetNodeHandler :: "string \<Rightarrow> 'e server \<Rightarrow> node_handler option" where
  "GetNodeHandler guid s = handlers s guid"

definition RemoveNodeHandler :: "string \<Rightarrow> 'e server \<Rightarrow> 'e server" where
  "RemoveNodeHandler guid s = s\<lparr>handlers := (handlers s)(guid := None)\<rparr>"

definition RegisterNodeFactory :: "string \<Rightarrow> string \<Rightarrow> 'e server \<Rightarrow> 'e server" where
  "RegisterNodeFactory name typ s = s\<lparr>factories := (factories s)(name \<mapsto> typ)\<rparr>"

definition GetNodeFactory :: "string \<Rightarrow> 'e server \<Rightarrow> string option" where
  "GetNodeFactory name s = factories s name"

definition factory_OnCreate :: "'e node_code \<Rightarrow> string \<Rightarrow> bytes \<Rightarrow> 'e server \<Rightarrow> error option \<times> 'e server" where
  "factory_OnCreate C typ config s = (case unmarshal_node C typ config of
     Inl e \<Rightarrow> (Some e, s)
   | Inr h \<Rightarrow> (case node_field C h of
       None \<Rightarrow> (Some (Errorf ''Missing node common properties''), s)
     | Some n \<Rightarrow> (None, AddNodeHandler C n h s)))"

section \<open>Robot info\<close>

text \<open>\<open>fetch\<close> is what the host answers when it is asked.\<close>

definition GetRobotInfo :: "(string \<times> goval) list res \<Rightarrow> 'e server \<Rightarrow> (string \<times> goval) list res \<times> 'e server" where
  "GetRobotInfo fetch s =
     (if \<not> hasClient s then (Inl (Errorf ''Runtime was not initialized''), s)
      else if robotInfo s \<noteq> [] then (Inr (robotInfo s), s)
      else case fetch of Inl e \<Rightarrow> (Inl e, s\<lparr>robotInfo := []\<rparr>) | Inr i \<Rightarrow> (Inr i, s\<lparr>robotInfo := i\<rparr>))"

definition info_string :: "string \<Rightarrow> string \<Rightarrow> (string \<times> goval) list res \<Rightarrow> 'e server \<Rightarrow> string res \<times> 'e server" where
  "info_string key what fetch s = (case GetRobotInfo fetch s of
     (Inl e, s') \<Rightarrow> (Inr [], s')
   | (Inr info, s') \<Rightarrow> (case as_str (map_get info key) of
       None \<Rightarrow> (Inl (Errorf (what @ '' not found'')), s') | Some v \<Rightarrow> (Inr v, s')))"

definition GetRobotVersion :: "(string \<times> goval) list res \<Rightarrow> 'e server \<Rightarrow> string res \<times> 'e server" where
  "GetRobotVersion fetch s = info_string ''version'' ''robot version'' fetch s"

definition GetRobotID :: "(string \<times> goval) list res \<Rightarrow> 'e server \<Rightarrow> string res \<times> 'e server" where
  "GetRobotID fetch s = info_string ''id'' ''robot id'' fetch s"

definition IsSetupManaged :: "(string \<times> goval) list res \<Rightarrow> 'e server \<Rightarrow> bool \<times> 'e server" where
  "IsSetupManaged fetch s = (case GetRobotInfo fetch s of
     (Inl e, s') \<Rightarrow> (False, s')
   | (Inr info, s') \<Rightarrow> (case map_get info ''setup_managed'' of
       GBool v \<Rightarrow> (v, s') | GFloat v \<Rightarrow> (v \<noteq> 0, s') | _ \<Rightarrow> (False, s')))"

text \<open>
  \<^verbatim>\<open>Init\<close> up to its return, and the goroutine it starts, which closes \<^verbatim>\<open>initReady\<close> when it is done: the
  calls below that wait for that channel run after \<open>init_goroutine\<close>.
\<close>

definition Init :: "error option \<Rightarrow> error option \<Rightarrow> error option \<Rightarrow> string \<Rightarrow> 'e server \<Rightarrow> error option \<times> 'e server" where
  "Init dial_err enc_err dec_err cfg s = (case dial_err of
     Some e \<Rightarrow> (Some e, s)
   | None \<Rightarrow> (None, s\<lparr>lmoStore := snd (InitLMOStore enc_err dec_err cfg (lmoStore s)), hasClient := True\<rparr>))"

definition init_goroutine :: "(string \<times> goval) list res \<Rightarrow> 'e server \<Rightarrow> 'e server" where
  "init_goroutine fetch s = (case GetRobotInfo fetch s of
     (Inl e, s1) \<Rightarrow> s1
   | (Inr info, s1) \<Rightarrow>
       (let s2 = (case as_float (map_get info ''capabilities'') of
                    Some bits \<Rightarrow> s1\<lparr>capsOf := SetRobotCapabilities (f64_to_u64 bits) (capsOf s1)\<rparr> | None \<Rightarrow> s1)
        in case as_str (map_get info ''lmo_store_path'') of
             None \<Rightarrow> s2
           | Some p \<Rightarrow> if p = [] then s2
               else (case SetLMOStorePath p (lmoStore s2) (fs s2) of (e, st, w) \<Rightarrow> s2\<lparr>lmoStore := st, fs := w\<rparr>)))"

section \<open>Tool requests\<close>

definition ctx_get :: "nat \<Rightarrow> lib \<Rightarrow> platform \<Rightarrow> string \<Rightarrow> message \<Rightarrow> 'e server \<Rightarrow> (goval \<times> 'e server) option" where
  "ctx_get n L pf path msg s =
     map_option (\<lambda>(v, w). (v, s\<lparr>fs := w\<rparr>)) (msg_Get n L pf (lmoStore s) path msg (fs s))"

definition ctx_raw :: "nat \<Rightarrow> lib \<Rightarrow> platform \<Rightarrow> message \<Rightarrow> 'e server \<Rightarrow> (bytes option res \<times> 'e server) option" where
  "ctx_raw n L pf msg s =
     map_option (\<lambda>(r, w). (r, s\<lparr>fs := w\<rparr>)) (msg_GetRaw n L pf (lmoStore s) [] msg (fs s))"

definition IsToolRequest :: "nat \<Rightarrow> lib \<Rightarrow> platform \<Rightarrow> message \<Rightarrow> 'e server \<Rightarrow> (bool \<times> 'e server) option" where
  "IsToolRequest n L pf msg s =
     map_option (\<lambda>(v, s'). (v = GStr ''tool_request'', s')) (ctx_get n L pf ''__message_type__'' msg s)"

definition ToolName :: "nat \<Rightarrow> lib \<Rightarrow> platform \<Rightarrow> message \<Rightarrow> 'e server \<Rightarrow> (string \<times> 'e server) option" where
  "ToolName n L pf msg s =
     map_option (\<lambda>(v, s'). (str_or_empty v, s')) (ctx_get n L pf ''__tool_name__'' msg s)"

definition ToolParameters :: "nat \<Rightarrow> lib \<Rightarrow> platform \<Rightarrow> message \<Rightarrow> 'e server \<Rightarrow> ((string \<times> goval) list \<times> 'e server) option" where
  "ToolParameters n L pf msg s =
     map_option (\<lambda>(v, s'). (case as_map v of Some m \<Rightarrow> m | None \<Rightarrow> [], s')) (ctx_get n L pf ''__parameters__'' msg s)"

definition EmitInput :: "string \<Rightarrow> bytes option \<Rightarrow> 'e server \<Rightarrow> error option \<times> 'e server" where
  "EmitInput guid input s =
     (if \<not> hasClient s then (Some (Errorf ''Runtime was not initialized''), s)
      else (None, s\<lparr>inbox := inbox s @ [(guid, input)]\<rparr>))"

text \<open>A \<^verbatim>\<open>Set\<close> whose error is dropped, and one made only for a value that is not nil.\<close>

definition set_ign :: "lib \<Rightarrow> string \<Rightarrow> goval \<Rightarrow> message \<Rightarrow> message" where
  "set_ign L path v msg = snd (msg_Set L path v msg)"

definition set_if :: "lib \<Rightarrow> string \<Rightarrow> goval \<Rightarrow> message \<Rightarrow> message" where
  "set_if L path v msg = (if v = GNil then msg else set_ign L path v msg)"

text \<open>The message that answers a tool call.\<close>

definition response_msg :: "lib \<Rightarrow> goval \<Rightarrow> goval \<Rightarrow> goval \<Rightarrow> goval \<Rightarrow> string \<Rightarrow> goval option \<Rightarrow> string \<Rightarrow> message" where
  "response_msg L msgID sessionID query callerID status d errorMsg =
     (let r1 = set_if L ''query'' query (set_if L ''session_id'' sessionID (set_if L ''id'' msgID (NewContext L ''{}'')));
          r2 = set_ign L ''__tool_status__'' (GStr status)
                 (set_ign L ''__tool_caller_id__'' callerID (set_ign L ''__message_type__'' (GStr ''tool_response'') r1));
          r3 = (if errorMsg \<noteq> [] then set_ign L ''__tool_error__'' (GStr errorMsg) r2 else r2)
      in case d of None \<Rightarrow> r3 | Some v \<Rightarrow> set_ign L ''__tool_data__'' v r3)"

definition ToolResponse :: "nat \<Rightarrow> lib \<Rightarrow> platform \<Rightarrow> message \<Rightarrow> string \<Rightarrow> goval option \<Rightarrow> string \<Rightarrow> 'e server
    \<Rightarrow> (message \<times> 'e server) option" where
  "ToolResponse n L pf msg status d errorMsg s = do {
     (req, s) \<leftarrow> IsToolRequest n L pf msg s;
     if \<not> req then Some (msg, s) else do {
       (callerID, s) \<leftarrow> ctx_get n L pf ''__tool_caller_id__'' msg s;
       (agentNodeID, s) \<leftarrow> ctx_get n L pf ''__agent_node_id__'' msg s;
       (msgID, s) \<leftarrow> ctx_get n L pf ''id'' msg s;
       (sessionID, s) \<leftarrow> ctx_get n L pf ''session_id'' msg s;
       (query, s) \<leftarrow> ctx_get n L pf ''query'' msg s;
       let agentID = str_or_empty agentNodeID;
       s \<leftarrow> (if agentID = [] then Some s
             else do {
               (raw, s) \<leftarrow> ctx_raw n L pf (response_msg L msgID sessionID query callerID status d errorMsg) s;
               Some (snd (EmitInput agentID (case raw of Inr b \<Rightarrow> b | Inl e \<Rightarrow> None) s))
             });
       Some (msg\<lparr>data := None\<rparr>, s)
     }
   }"

fun collect_outputs :: "nat \<Rightarrow> lib \<Rightarrow> platform \<Rightarrow> string list \<Rightarrow> message \<Rightarrow> (string \<times> goval) list \<Rightarrow> 'e server
    \<Rightarrow> ((string \<times> goval) list \<times> 'e server) option" where
  "collect_outputs n L pf [] msg acc s = Some (acc, s)"
| "collect_outputs n L pf (tag # tags) msg acc s =
     (let name = extractNameFromSpec tag in
      if name = [] then collect_outputs n L pf tags msg acc s
      else do {
        (v, s) \<leftarrow> ctx_get n L pf name msg s;
        collect_outputs n L pf tags msg (if v = GNil then acc else AList.update name v acc) s
      })"

definition collectOutputVariables :: "nat \<Rightarrow> lib \<Rightarrow> platform \<Rightarrow> string list \<Rightarrow> message \<Rightarrow> 'e server
    \<Rightarrow> (goval \<times> 'e server) option" where
  "collectOutputVariables n L pf tags msg s = do {
     (outputs, s) \<leftarrow> collect_outputs n L pf tags msg [] s;
     Some (GMap (if outputs = [] then [(''status'', GStr ''completed'')] else outputs), s)
   }"

definition hasToolResponseBeenSent :: "nat \<Rightarrow> lib \<Rightarrow> platform \<Rightarrow> message \<Rightarrow> 'e server \<Rightarrow> (bool \<times> 'e server) option" where
  "hasToolResponseBeenSent n L pf msg s = do {
     (raw, s) \<leftarrow> ctx_raw n L pf msg s;
     Some (case raw of Inl e \<Rightarrow> True | Inr None \<Rightarrow> True | Inr (Some b) \<Rightarrow> False, s)
   }"

text \<open>\<open>err_text\<close> is the text of an error.\<close>

fun err_text :: "error \<Rightarrow> string" where
  "err_text (Errorf m) = m"
| "err_text (Wrap m e) = m @ '': '' @ err_text e"
| "err_text (Errno n) = ''errno '' @ show_nat n"
| "err_text (Foreign m) = m"

definition run_handler :: "'e node_code \<Rightarrow> hid \<Rightarrow> message \<Rightarrow> 'e server \<Rightarrow> error option \<times> message \<times> 'e server" where
  "run_handler C h msg s =
     (case on_message C h msg (fs s) (ext s) of (e, msg', w, x) \<Rightarrow> (e, msg', s\<lparr>fs := w, ext := x\<rparr>))"

definition handleToolRequest :: "nat \<Rightarrow> lib \<Rightarrow> platform \<Rightarrow> 'e node_code \<Rightarrow> hid \<Rightarrow> message \<Rightarrow> 'e server
    \<Rightarrow> (error option \<times> message \<times> 'e server) option" where
  "handleToolRequest n L pf C h msg s = do {
     let (err, msg, s) = run_handler C h msg s;
     (sent, s) \<leftarrow> hasToolResponseBeenSent n L pf msg s;
     if sent then Some (err, msg, s)
     else case err of
       Some e \<Rightarrow> do {
         (msg, s) \<leftarrow> ToolResponse n L pf msg ''error'' None (err_text e) s;
         Some (None, msg, s)
       }
     | None \<Rightarrow> do {
         (outputs, s) \<leftarrow> collectOutputVariables n L pf (out_specs C h) msg s;
         (msg, s) \<leftarrow> ToolResponse n L pf msg ''success'' (Some outputs) [] s;
         Some (None, msg, s)
       }
   }"

definition interceptor_OnMessage :: "nat \<Rightarrow> lib \<Rightarrow> platform \<Rightarrow> 'e node_code \<Rightarrow> node_handler \<Rightarrow> message \<Rightarrow> 'e server
    \<Rightarrow> (error option \<times> message \<times> 'e server) option" where
  "interceptor_OnMessage n L pf C nh msg s =
     (if \<not> hasTool nh then Some (run_handler C (originalHandler nh) msg s)
      else do {
        (req, s) \<leftarrow> IsToolRequest n L pf msg s;
        if req then handleToolRequest n L pf C (originalHandler nh) msg s
        else Some (run_handler C (originalHandler nh) msg s)
      })"

section \<open>The remote calls\<close>

text \<open>
  \<^verbatim>\<open>OnCreate\<close> looks the handler up under the guid it reads from the config; when there is none it logs
  that and goes on to call a method of the nil handler, which panics.
\<close>

definition OnCreate :: "lib \<Rightarrow> 'e node_code \<Rightarrow> string \<Rightarrow> bytes \<Rightarrow> 'e server \<Rightarrow> (error option \<times> 'e server) outcome" where
  "OnCreate L C name config s = (case GetNodeFactory name s of
     None \<Rightarrow> Return (Some (Errorf (name @ '' factory not found'')), s)
   | Some typ \<Rightarrow> (case factory_OnCreate C typ config s of
       (Some e, s1) \<Rightarrow> Return (Some e, s1)
     | (None, s1) \<Rightarrow> (case GetNodeHandler (str L (get L config ''guid'')) s1 of
         None \<Rightarrow> Panic ''nil pointer dereference''
       | Some nh \<Rightarrow> (case on_create C (originalHandler nh) (ext s1) of
           (Some e, x) \<Rightarrow> Return (Some e, s1\<lparr>ext := x\<rparr>)
         | (None, x) \<Rightarrow> Return (None, s1\<lparr>ext := x, nc := nc s1 + 1\<rparr>)))))"

text \<open>\<open>gunzip\<close> gives the bytes read and the errors of \<^verbatim>\<open>ReadAll\<close>, which is dropped, and of \<^verbatim>\<open>Close\<close>.\<close>

definition Decompress :: "bool \<Rightarrow> (bytes \<Rightarrow> (bytes \<times> error option \<times> error option) res) \<Rightarrow> bytes \<Rightarrow> bytes res" where
  "Decompress enabled gunzip d =
     (if \<not> enabled then Inr d
      else case gunzip d of
        Inl e \<Rightarrow> Inl e
      | Inr (raw, read_err, close_err) \<Rightarrow> (case close_err of Some e \<Rightarrow> Inl e | None \<Rightarrow> Inr raw))"

definition sleep_sec :: "rat \<Rightarrow> 'e server \<Rightarrow> 'e server" where
  "sleep_sec d s = s\<lparr>fs := os_sleep (1000 * nat (trunc_f64 (d * 1000))) (fs s)\<rparr>"

text \<open>The reply of \<^verbatim>\<open>OnMessage\<close>: the output message and the error.\<close>

definition pack_output :: "nat \<Rightarrow> lib \<Rightarrow> platform \<Rightarrow> message \<Rightarrow> 'e server \<Rightarrow> (bytes option \<times> 'e server) option" where
  "pack_output n L pf msg s =
     (if IsEmpty msg then Some (None, s)
      else if HasCapability CapabilityLMO (capsOf s) then
        (case LMOPack n L pf (lmoStore s) (raw_bytes msg) (fs s) of
           None \<Rightarrow> None
         | Some (Inr d, w) \<Rightarrow> Some (Some d, s\<lparr>fs := w\<rparr>)
         | Some (Inl e, w) \<Rightarrow> Some (PackedBytes msg, s\<lparr>fs := w\<rparr>))
      else Some (PackedBytes msg, s))"

definition OnMessage :: "nat \<Rightarrow> lib \<Rightarrow> platform \<Rightarrow> 'e node_code \<Rightarrow> (bytes \<Rightarrow> bytes res) \<Rightarrow> string \<Rightarrow> bytes \<Rightarrow> 'e server
    \<Rightarrow> ((bytes option \<times> error option) \<times> 'e server) option" where
  "OnMessage n L pf C dec guid inMessage s = (case dec inMessage of
     Inl e \<Rightarrow> Some ((None, Some e), s)
   | Inr d \<Rightarrow> (case GetNodeHandler guid s of
       None \<Rightarrow> Some ((None, Some (Errorf ''node handler not found'')), s)
     | Some nh \<Rightarrow> do {
         let s = sleep_sec (DelayBefore (nhNode nh)) s;
         (err, msg, s) \<leftarrow> interceptor_OnMessage n L pf C nh (NewContext L d) s;
         (out, s) \<leftarrow> pack_output n L pf msg s;
         Some ((out, if ContinueOnError (nhNode nh) then None else err), sleep_sec (DelayAfter (nhNode nh)) s)
       }))"

definition OnClose :: "'e node_code \<Rightarrow> string \<Rightarrow> 'e server \<Rightarrow> error option \<times> 'e server" where
  "OnClose C guid s = (case GetNodeHandler guid s of
     None \<Rightarrow> (Some (Errorf ''No handler''), s)
   | Some nh \<Rightarrow> (case on_close C (originalHandler nh) (ext s) of (err, x) \<Rightarrow>
       (let s1 = RemoveNodeHandler guid (s\<lparr>ext := x, nc := nc s - 1\<rparr>)
        in (err, if nc s1 = 0 \<and> \<not> sessionMode s1
                 then s1\<lparr>lmoStore := CloseLMOStore (lmoStore s1), doneSignals := Suc (doneSignals s1)\<rparr> else s1))))"

text \<open>\<^verbatim>\<open>AsSetupHandler\<close> looks through the interceptor, which is no setup handler itself.\<close>

definition AsSetupHandler :: "'e node_code \<Rightarrow> node_handler \<Rightarrow> (string \<Rightarrow> string \<Rightarrow> 'e \<Rightarrow> error option \<times> 'e) option" where
  "AsSetupHandler C nh = on_setup C (originalHandler nh)"

definition OnSetup :: "lib \<Rightarrow> 'e node_code \<Rightarrow> string \<Rightarrow> bytes \<Rightarrow> string \<Rightarrow> 'e server \<Rightarrow> error option \<times> 'e server" where
  "OnSetup L C name config sessionID s = (case GetNodeFactory name s of
     None \<Rightarrow> (Some (Errorf (name @ '' factory not found'')), s)
   | Some typ \<Rightarrow> (case factory_OnCreate C typ config s of
       (Some e, s1) \<Rightarrow> (Some e, s1)
     | (None, s1) \<Rightarrow>
         (let guid = str L (get L config ''guid'') in
          case GetNodeHandler guid s1 of
            None \<Rightarrow> (Some (Errorf ''node handler not found''), s1)
          | Some nh \<Rightarrow> (case AsSetupHandler C nh of
              None \<Rightarrow> (Some (Errorf (''node '' @ name @ '' does not support setup'')), RemoveNodeHandler guid s1)
            | Some sh \<Rightarrow> (case sh guid sessionID (ext s1) of
                (e, x) \<Rightarrow> (e, RemoveNodeHandler guid (s1\<lparr>ext := x\<rparr>)))))))"

end
