(* ===== verification/Node_Server_Props.thy ===== *)
theory Node_Server_Props
  imports Node_Server
begin

text \<open>
  Properties of the node protocol: the invariants every remote call keeps, the node counter that decides
  when the process ends, tool requests, and the reply to a message.
\<close>

section \<open>The protocol as a step relation\<close>

inductive rpc :: "lib \<Rightarrow> platform \<Rightarrow> 'e node_code \<Rightarrow> (bytes \<Rightarrow> bytes res) \<Rightarrow> 'e server \<Rightarrow> 'e server \<Rightarrow> bool"
  for L pf C dec where
  create: "OnCreate L C name config s = Return (r, s') \<Longrightarrow> rpc L pf C dec s s'"
| message: "OnMessage n L pf C dec guid inMessage s = Some (r, s') \<Longrightarrow> rpc L pf C dec s s'"
| close: "OnClose C guid s = (r, s') \<Longrightarrow> rpc L pf C dec s s'"
| pairing: "OnSetup L C name config sid s = (r, s') \<Longrightarrow> rpc L pf C dec s s'"

inductive_cases rpcE: "rpc L pf C dec s s'"

section \<open>Messages leave the registry alone\<close>

definition same_registry :: "'e server \<Rightarrow> 'e server \<Rightarrow> bool" where
  "same_registry s s' \<longleftrightarrow> handlers s' = handlers s \<and> factories s' = factories s \<and> nc s' = nc s
     \<and> sessionMode s' = sessionMode s \<and> lmoStore s' = lmoStore s \<and> capsOf s' = capsOf s
     \<and> doneSignals s' = doneSignals s \<and> hasClient s' = hasClient s"

lemma same_registry_refl [simp]: "same_registry s s"
  by (simp add: same_registry_def)

lemma same_registry_trans: "same_registry a b \<Longrightarrow> same_registry b c \<Longrightarrow> same_registry a c"
  by (simp add: same_registry_def)

lemma ctx_same:
  "ctx_get n L pf p m s = Some (v, s') \<Longrightarrow> same_registry s s'"
  "ctx_raw n L pf m s = Some (r, s') \<Longrightarrow> same_registry s s'"
  "IsToolRequest n L pf m s = Some (b, s') \<Longrightarrow> same_registry s s'"
  "hasToolResponseBeenSent n L pf m s = Some (b, s') \<Longrightarrow> same_registry s s'"
  by (auto simp: ctx_get_def ctx_raw_def IsToolRequest_def hasToolResponseBeenSent_def same_registry_def
      split: Option.bind_splits)

lemma run_handler_same: "run_handler C h m s = (e, m', s') \<Longrightarrow> same_registry s s'"
  by (auto simp: run_handler_def same_registry_def split: prod.splits)

lemma EmitInput_same: "same_registry s (snd (EmitInput g b s))"
  by (simp add: EmitInput_def same_registry_def)

lemma ToolResponse_same: "ToolResponse n L pf m st d e s = Some (m', s') \<Longrightarrow> same_registry s s'"
  by (auto simp: ToolResponse_def Let_def split: Option.bind_splits if_splits prod.splits
      dest!: ctx_same intro!: same_registry_trans [OF _ EmitInput_same] elim!: same_registry_trans)

lemma collect_same: "collect_outputs n L pf tags m acc s = Some (r, s') \<Longrightarrow> same_registry s s'"
proof (induction tags arbitrary: acc s)
  case (Cons t tags)
  then show ?case
    by (auto simp: Let_def split: Option.bind_splits if_splits dest!: ctx_same intro: same_registry_trans)
qed simp

lemma collectOutputVariables_same: "collectOutputVariables n L pf tags m s = Some (r, s') \<Longrightarrow> same_registry s s'"
  by (auto simp: collectOutputVariables_def split: Option.bind_splits dest!: collect_same)

lemma handleToolRequest_same:
  "handleToolRequest n L pf C h m s = Some (e, m', s') \<Longrightarrow> same_registry s s'"
  by (auto simp: handleToolRequest_def Let_def split: Option.bind_splits if_splits prod.splits option.splits
      dest!: ctx_same run_handler_same ToolResponse_same collectOutputVariables_same elim!: same_registry_trans)

lemma interceptor_same: "interceptor_OnMessage n L pf C nh m s = Some (e, m', s') \<Longrightarrow> same_registry s s'"
  by (auto simp: interceptor_OnMessage_def split: Option.bind_splits if_splits prod.splits
      dest!: ctx_same run_handler_same handleToolRequest_same elim!: same_registry_trans)

lemma pack_output_same: "pack_output n L pf m s = Some (r, s') \<Longrightarrow> same_registry s s'"
  by (auto simp: pack_output_def same_registry_def split: if_splits option.splits sum.splits prod.splits)

lemma sleep_same: "same_registry s (sleep_sec d s)"
  by (simp add: sleep_sec_def same_registry_def)

lemma OnMessage_same: "OnMessage n L pf C dec g b s = Some (r, s') \<Longrightarrow> same_registry s s'"
  by (auto simp: OnMessage_def Let_def split: sum.splits option.splits Option.bind_splits prod.splits
      dest!: interceptor_same pack_output_same)
    (meson same_registry_trans sleep_same)

section \<open>Every handler is under its own guid\<close>

definition registry_ok :: "'e node_code \<Rightarrow> 'e server \<Rightarrow> bool" where
  "registry_ok C s \<longleftrightarrow> (\<forall>g nh. handlers s g = Some nh \<longrightarrow>
     GUID (nhNode nh) = g \<and> hasTool nh = tool_field C (originalHandler nh))"

lemma registry_ok_simps:
  "registry_ok C s \<Longrightarrow> registry_ok C (AddNodeHandler C n h s)"
  "registry_ok C s \<Longrightarrow> registry_ok C (RemoveNodeHandler g s)"
  by (auto simp: registry_ok_def AddNodeHandler_def RemoveNodeHandler_def)

lemma registry_ok_handlers: "handlers s' = handlers s \<Longrightarrow> registry_ok C s' = registry_ok C s"
  by (simp add: registry_ok_def)

lemma factory_cases:
  assumes "factory_OnCreate C typ config s = (r, s')"
  obtains (failed) e where "r = Some e" "s' = s"
  | (made) h n where "r = None" "unmarshal_node C typ config = Inr h" "node_field C h = Some n" "s' = AddNodeHandler C n h s"
  using assms by (auto simp: factory_OnCreate_def split: sum.splits option.splits)

lemma factory_registry_ok: "factory_OnCreate C ty config s = (r, s1) \<Longrightarrow> registry_ok C s \<Longrightarrow> registry_ok C s1"
  by (erule factory_cases) (auto intro: registry_ok_simps)

lemma OnCreate_handlers:
  assumes "OnCreate L C name config s = Return (r, s')"
  shows "\<exists>ty r1 s1. handlers s' = handlers s \<or> factory_OnCreate C ty config s = (r1, s1) \<and> handlers s' = handlers s1"
proof (cases "factories s name")
  case (Some ty)
  obtain r1 s1 where "factory_OnCreate C ty config s = (r1, s1)" by fastforce
  with assms Some have "handlers s' = handlers s1"
    by (auto simp: OnCreate_def GetNodeFactory_def split: option.splits prod.splits)
  with \<open>factory_OnCreate C ty config s = (r1, s1)\<close> show ?thesis by blast
qed (use assms in \<open>auto simp: OnCreate_def GetNodeFactory_def\<close>)

lemma OnSetup_handlers:
  assumes "OnSetup L C name config sid s = (r, s')"
  shows "\<exists>ty r1 s1 g. handlers s' = handlers s \<or> factory_OnCreate C ty config s = (r1, s1)
    \<and> (handlers s' = handlers s1 \<or> handlers s' = handlers (RemoveNodeHandler g s1))"
proof (cases "factories s name")
  case (Some ty)
  obtain r1 s1 where f: "factory_OnCreate C ty config s = (r1, s1)" by fastforce
  have "handlers s' = handlers s1 \<or> handlers s' = handlers (RemoveNodeHandler (str L (get L config ''guid'')) s1)"
    using assms Some f
    by (auto simp: OnSetup_def GetNodeFactory_def Let_def RemoveNodeHandler_def split: option.splits prod.splits)
  with f show ?thesis by blast
qed (use assms in \<open>auto simp: OnSetup_def GetNodeFactory_def\<close>)

lemma rpc_registry_ok: "rpc L pf C dec s s' \<Longrightarrow> registry_ok C s \<Longrightarrow> registry_ok C s'"
proof (induction rule: rpc.induct)
  case (create name config s r s')
  then show ?case using OnCreate_handlers [OF create(1)] factory_registry_ok registry_ok_handlers by metis
next
  case (message n guid inMessage s r s')
  then show ?case using OnMessage_same [OF message(1)] registry_ok_handlers unfolding same_registry_def by blast
next
  case (close guid s r s')
  have "handlers s' = handlers s \<or> handlers s' = handlers (RemoveNodeHandler guid s)"
    using close(1) by (auto simp: OnClose_def Let_def RemoveNodeHandler_def split: option.splits prod.splits if_splits)
  then show ?case using close(2) registry_ok_simps(2) registry_ok_handlers by metis
next
  case (pairing name config sid s r s')
  then show ?case
    using OnSetup_handlers [OF pairing(1)] factory_registry_ok registry_ok_simps(2) registry_ok_handlers by metis
qed

text \<open>
  C11. After any sequence of remote calls every registered handler stands under the guid of its node
  and is wrapped by the tool interceptor of its own type.
\<close>

theorem handlers_keyed_by_guid:
  assumes "(rpc L pf C dec)\<^sup>*\<^sup>* s0 s" "handlers s0 = Map.empty"
  shows "handlers s g = Some nh \<longrightarrow> GUID (nhNode nh) = g \<and> hasTool nh = tool_field C (originalHandler nh)"
proof -
  have "registry_ok C s" using assms
    by (induction rule: rtranclp_induct) (auto simp: registry_ok_def [of C s0] intro: rpc_registry_ok)
  then show ?thesis by (simp add: registry_ok_def)
qed

section \<open>The node counter\<close>

definition counted :: "'e server \<Rightarrow> bool" where
  "counted s \<longleftrightarrow> finite (dom (handlers s)) \<and> nc s = of_nat (card (dom (handlers s)))"

lemma counted_cong: "handlers s' = handlers s \<Longrightarrow> nc s' = nc s \<Longrightarrow> counted s' = counted s"
  by (simp add: counted_def)

text \<open>The config registers a handler, if any, under a guid not in use, which is the one it is looked up by.\<close>

definition fresh_config :: "lib \<Rightarrow> 'e node_code \<Rightarrow> string \<Rightarrow> bytes \<Rightarrow> 'e server \<Rightarrow> bool" where
  "fresh_config L C name config s \<longleftrightarrow> (\<forall>typ h n. factories s name = Some typ \<longrightarrow> unmarshal_node C typ config = Inr h \<longrightarrow>
     node_field C h = Some n \<longrightarrow> handlers s (GUID n) = None \<and> GUID n = str L (get L config ''guid''))"

text \<open>\<open>made\<close>: the node's own \<^verbatim>\<open>OnCreate\<close> did not fail.\<close>

definition create_clean :: "'e node_code \<Rightarrow> string \<Rightarrow> bytes \<Rightarrow> 'e server \<Rightarrow> bool" where
  "create_clean C name config s \<longleftrightarrow> (\<forall>typ h. factories s name = Some typ \<longrightarrow> unmarshal_node C typ config = Inr h \<longrightarrow>
     fst (on_create C h (ext s)) = None)"

inductive clean_rpc :: "lib \<Rightarrow> platform \<Rightarrow> 'e node_code \<Rightarrow> (bytes \<Rightarrow> bytes res) \<Rightarrow> 'e server \<Rightarrow> 'e server \<Rightarrow> bool"
  for L pf C dec where
  create: "OnCreate L C name config s = Return (r, s') \<Longrightarrow> fresh_config L C name config s \<Longrightarrow> create_clean C name config s
    \<Longrightarrow> clean_rpc L pf C dec s s'"
| message: "OnMessage n L pf C dec guid inMessage s = Some (r, s') \<Longrightarrow> clean_rpc L pf C dec s s'"
| close: "OnClose C guid s = (r, s') \<Longrightarrow> clean_rpc L pf C dec s s'"
| pairing: "OnSetup L C name config sid s = (r, s') \<Longrightarrow> fresh_config L C name config s \<Longrightarrow> clean_rpc L pf C dec s s'"

lemma counted_add: "counted s \<Longrightarrow> handlers s g = None \<Longrightarrow> handlers s' = (handlers s)(g \<mapsto> nh) \<Longrightarrow> nc s' = nc s + 1 \<Longrightarrow> counted s'"
  by (auto simp: counted_def domIff)

lemma counted_remove:
  assumes "counted s" "handlers s g = Some nh" "handlers s' = (handlers s)(g := None)" "nc s' = nc s - 1"
  shows "counted s'"
proof -
  have "g \<in> dom (handlers s)" "dom (handlers s') = dom (handlers s) - {g}" using assms by auto
  moreover from this assms(1) have "0 < card (dom (handlers s))" by (auto simp: counted_def card_gt_0_iff)
  ultimately show ?thesis using assms(1,4) by (auto simp: counted_def of_nat_diff)
qed

lemma OnClose_cases:
  assumes "OnClose C g s = (r, s')"
  obtains (none) "handlers s g = None" "s' = s"
  | (some) nh where "handlers s g = Some nh" "handlers s' = (handlers s)(g := None)" "nc s' = nc s - 1"
      "sessionMode s' = sessionMode s"
      "doneSignals s' = (if nc s - 1 = 0 \<and> \<not> sessionMode s then Suc (doneSignals s) else doneSignals s)"
      "lmoStore s' = (if nc s - 1 = 0 \<and> \<not> sessionMode s then None else lmoStore s)"
  using assms
  by (auto simp: OnClose_def Let_def GetNodeHandler_def RemoveNodeHandler_def CloseLMOStore_def split: option.splits prod.splits if_splits)

lemma clean_rpc_counted: "clean_rpc L pf C dec s s' \<Longrightarrow> counted s \<Longrightarrow> counted s'"
proof (induction rule: clean_rpc.induct)
  case (create name config s r s')
  show ?case
  proof (cases "factories s name")
    case (Some ty)
    obtain r1 s1 where f: "factory_OnCreate C ty config s = (r1, s1)" by fastforce
    then show ?thesis
    proof (cases rule: factory_cases)
      case failed
      with create Some f show ?thesis by (auto simp: OnCreate_def GetNodeFactory_def)
    next
      case (made h n)
      then have fr: "handlers s (GUID n) = None" "GUID n = str L (get L config ''guid'')" "fst (on_create C h (ext s)) = None"
        using create(2,3) Some by (auto simp: fresh_config_def create_clean_def)
      from create(1) f made Some fr(2,3) have "handlers s' = handlers s1 \<and> nc s' = nc s + 1"
        by (auto simp: OnCreate_def GetNodeFactory_def GetNodeHandler_def AddNodeHandler_def split: prod.splits)
      with made fr(1) create(4) show ?thesis by (auto simp: AddNodeHandler_def intro: counted_add)
    qed
  qed (use create in \<open>auto simp: OnCreate_def GetNodeFactory_def\<close>)
next
  case (message n guid inMessage s r s')
  then show ?case using OnMessage_same counted_cong unfolding same_registry_def by blast
next
  case (close guid s r s')
  from close(1) show ?case
    by (cases rule: OnClose_cases) (use close(2) counted_remove in auto)
next
  case (pairing name config sid s r s')
  show ?case
  proof (cases "factories s name")
    case (Some ty)
    obtain r1 s1 where f: "factory_OnCreate C ty config s = (r1, s1)" by fastforce
    then show ?thesis
    proof (cases rule: factory_cases)
      case failed
      with pairing Some f show ?thesis by (auto simp: OnSetup_def GetNodeFactory_def)
    next
      case (made h n)
      then have fr: "handlers s (GUID n) = None" "GUID n = str L (get L config ''guid'')"
        using pairing(2) Some by (auto simp: fresh_config_def)
      have "(handlers s)(GUID n := None) = handlers s" using fr(1) by auto
      with pairing(1) f made Some fr(2) have "handlers s' = handlers s \<and> nc s' = nc s"
        by (auto simp: OnSetup_def GetNodeFactory_def GetNodeHandler_def AddNodeHandler_def RemoveNodeHandler_def Let_def
            split: option.splits prod.splits)
      with pairing(3) counted_cong show ?thesis by blast
    qed
  qed (use pairing in \<open>auto simp: OnSetup_def GetNodeFactory_def\<close>)
qed

text \<open>
  C13. As long as configs bring fresh guids and no node fails to start, the counter is the number of
  registered handlers, whatever calls are made in whatever order.  Then \<^verbatim>\<open>OnClose\<close> of a live node ends
  the process (signals \<^verbatim>\<open>done\<close>, closes the store) exactly when that node was the last one and the
  process is no session daemon.
\<close>

theorem process_ends_with_last_node:
  assumes "(clean_rpc L pf C dec)\<^sup>*\<^sup>* s0 s" "handlers s0 = Map.empty" "nc s0 = 0"
    and "OnClose C g s = (r, s')" "handlers s g = Some nh" "card (dom (handlers s)) < 2 ^ 32"
  shows "(doneSignals s' = Suc (doneSignals s)) = (handlers s' = Map.empty \<and> \<not> sessionMode s)
    \<and> (doneSignals s' = Suc (doneSignals s) \<longrightarrow> lmoStore s' = None)"
proof -
  have c: "counted s" using assms(1-3)
    by (induction rule: rtranclp_induct) (auto simp: counted_def [of s0] intro: clean_rpc_counted)
  have g: "g \<in> dom (handlers s)" using assms(5) by blast
  let ?k = "card (dom (handlers s))"
  have k: "0 < ?k" using c g by (auto simp: counted_def card_gt_0_iff)
  have "nc s - 1 = of_nat (?k - 1)" using c k by (simp add: counted_def of_nat_diff)
  moreover have "of_nat n = (0 :: 32 word) \<longleftrightarrow> n = 0" if "n < 2 ^ 32" for n
    using that by (auto simp: word_of_nat_eq_0_iff dest: dvd_imp_le)
  from this [of "?k - 1"] have "of_nat (?k - 1) = (0 :: 32 word) \<longleftrightarrow> ?k - 1 = 0"
    using assms(6) by linarith
  ultimately have z: "nc s - 1 = 0 \<longleftrightarrow> ?k = 1" using k by auto
  from assms(4) show ?thesis
  proof (cases rule: OnClose_cases)
    case (some nh')
    have "dom (handlers s') = dom (handlers s) - {g}" using some(2) by auto
    then have "handlers s' = Map.empty \<longleftrightarrow> ?k = 1"
      using g c by (metis card_1_singletonE card_Diff_singleton card_eq_0_iff counted_def diff_is_0_eq dom_eq_empty_conv
          finite_Diff le_numeral_extra(4) less_one k linorder_neqE_nat not_less_zero Diff_insert_absorb singletonD diff_Suc_1 insert_Diff card.empty One_nat_def Suc_pred')
    with some z show ?thesis by auto
  qed (use assms(5) in simp)
qed

section \<open>Failing and colliding calls\<close>

text \<open>
  A node whose own \<^verbatim>\<open>OnCreate\<close> fails stays registered without being counted.  Closing it takes one
  off the counter, so with one other node alive the process is told to end and the blob store is closed.
\<close>

theorem failed_create_miscounts:
  assumes "factories s name = Some ty" "unmarshal_node C ty config = Inr h" "node_field C h = Some n"
    and "GUID n = str L (get L config ''guid'')" "handlers s (GUID n) = None" "on_create C h (ext s) = (Some e, x)"
  shows "\<exists>s1. OnCreate L C name config s = Return (Some e, s1) \<and> handlers s1 (GUID n) \<noteq> None \<and> nc s1 = nc s
    \<and> (let s2 = snd (OnClose C (GUID n) s1)
       in handlers s2 = handlers s \<and> nc s2 = nc s - 1
        \<and> (nc s = 1 \<longrightarrow> \<not> sessionMode s \<longrightarrow> doneSignals s2 = Suc (doneSignals s) \<and> lmoStore s2 = None))"
proof -
  let ?s1 = "(AddNodeHandler C n h s)\<lparr>ext := x\<rparr>"
  have c: "OnCreate L C name config s = Return (Some e, ?s1)"
    using assms by (simp add: OnCreate_def GetNodeFactory_def GetNodeHandler_def factory_OnCreate_def AddNodeHandler_def)
  have h: "handlers ?s1 = (handlers s)(GUID n \<mapsto> \<lparr>nhNode = n, originalHandler = h, hasTool = tool_field C h\<rparr>)"
    "nc ?s1 = nc s" "doneSignals ?s1 = doneSignals s" "sessionMode ?s1 = sessionMode s"
    by (simp_all add: AddNodeHandler_def)
  obtain r s2 where o: "OnClose C (GUID n) ?s1 = (r, s2)" by fastforce
  then have "handlers s2 = (handlers ?s1)(GUID n := None) \<and> nc s2 = nc ?s1 - 1
      \<and> doneSignals s2 = (if nc ?s1 - 1 = 0 \<and> \<not> sessionMode ?s1 then Suc (doneSignals ?s1) else doneSignals ?s1)
      \<and> lmoStore s2 = (if nc ?s1 - 1 = 0 \<and> \<not> sessionMode ?s1 then None else lmoStore ?s1)"
    by (cases rule: OnClose_cases) (use h in auto)
  moreover have "(handlers ?s1)(GUID n := None) = handlers s" using h(1) assms(5) by auto
  ultimately show ?thesis using c o h by (auto simp: Let_def)
qed

text \<open>
  \<^verbatim>\<open>OnSetup\<close> for a guid that a running flow uses takes that flow's handler away: it replaces the
  handler and removes it at the end, whatever the setup returned, and leaves the counter as it was.
\<close>

theorem setup_removes_live_handler:
  assumes "factories s name = Some ty" "unmarshal_node C ty config = Inr h" "node_field C h = Some n"
    and "GUID n = str L (get L config ''guid'')" "handlers s (GUID n) = Some live"
  shows "handlers (snd (OnSetup L C name config sid s)) = (handlers s)(GUID n := None)
    \<and> nc (snd (OnSetup L C name config sid s)) = nc s"
  using assms
  by (auto simp: OnSetup_def GetNodeFactory_def GetNodeHandler_def factory_OnCreate_def AddNodeHandler_def
      RemoveNodeHandler_def Let_def split: option.splits prod.splits)

text \<open>
  \<^verbatim>\<open>OnCreate\<close> panics exactly when the factory accepted the config but no handler stands under the
  guid read from it: the missing handler is logged and then called.
\<close>

theorem OnCreate_panics_iff:
  "(\<exists>m. OnCreate L C name config s = Panic m) \<longleftrightarrow>
     (\<exists>ty h n. factories s name = Some ty \<and> unmarshal_node C ty config = Inr h \<and> node_field C h = Some n
        \<and> GUID n \<noteq> str L (get L config ''guid'') \<and> handlers s (str L (get L config ''guid'')) = None)"
  by (auto simp: OnCreate_def GetNodeFactory_def GetNodeHandler_def factory_OnCreate_def AddNodeHandler_def
      split: option.splits sum.splits prod.splits)

section \<open>Tool requests\<close>

lemma ToolResponse_clears:
  assumes "ToolResponse n L pf msg st d e s = Some (msg', s')" "IsToolRequest n L pf msg s = Some (True, s1)"
  shows "data msg' = None"
  using assms by (auto simp: ToolResponse_def Let_def split: Option.bind_splits if_splits prod.splits)

definition still_request :: "nat \<Rightarrow> lib \<Rightarrow> platform \<Rightarrow> message \<Rightarrow> 'e server \<Rightarrow> bool" where
  "still_request n L pf msg s \<longleftrightarrow> (\<forall>u. same_registry s u \<longrightarrow> (\<exists>u'. IsToolRequest n L pf msg u = Some (True, u')))"

lemma handleToolRequest_clears:
  assumes "handleToolRequest n L pf C h msg s = Some (e, msg', s')" "run_handler C h msg s = (err, msg1, s1)"
    and "hasToolResponseBeenSent n L pf msg1 s1 = Some (False, s2)" "still_request n L pf msg1 s1"
  shows "e = None \<and> data msg' = None"
proof -
  note s12 = ctx_same(4) [OF assms(3)]
  show ?thesis
  proof (cases err)
    case (Some er)
    obtain u where "IsToolRequest n L pf msg1 s2 = Some (True, u)" using assms(4) s12 by (auto simp: still_request_def)
    with assms(1-3) Some ToolResponse_clears show ?thesis
      by (auto simp: handleToolRequest_def split: Option.bind_splits)
  next
    case None
    from assms(1-3) None obtain outs s3 where o: "collectOutputVariables n L pf (out_specs C h) msg1 s2 = Some (outs, s3)"
      and t: "ToolResponse n L pf msg1 ''success'' (Some outs) [] s3 = Some (msg', s')" and e: "e = None"
      by (auto simp: handleToolRequest_def split: Option.bind_splits)
    have "same_registry s1 s3" using s12 collectOutputVariables_same [OF o] same_registry_trans by blast
    then obtain u where "IsToolRequest n L pf msg1 s3 = Some (True, u)" using assms(4) by (auto simp: still_request_def)
    with ToolResponse_clears [OF t] e show ?thesis by blast
  qed
qed

text \<open>
  C17. A tool request to a node that has a \<^verbatim>\<open>Tool\<close> field never flows on to the next node and never fails
  the flow: if the node did not answer it itself and left the request marker in the message, the reply
  of \<^verbatim>\<open>OnMessage\<close> has neither a message nor an error, even when the node's handler failed.
\<close>

theorem tool_request_never_flows:
  assumes "handlers s g = Some nh" "hasTool nh" "dec inMessage = Inr d"
    and "IsToolRequest n L pf (NewContext L d) (sleep_sec (DelayBefore (nhNode nh)) s) = Some (True, s1)"
    and "run_handler C (originalHandler nh) (NewContext L d) s1 = (err, msg1, s2)"
    and "hasToolResponseBeenSent n L pf msg1 s2 = Some (False, s3)" "still_request n L pf msg1 s2"
    and "OnMessage n L pf C dec g inMessage s = Some ((out, e), s')"
  shows "out = None \<and> e = None"
proof -
  from assms(1-4,8) obtain err' msg' s4 s5 where h: "handleToolRequest n L pf C (originalHandler nh) (NewContext L d) s1 = Some (err', msg', s4)"
    and p: "pack_output n L pf msg' s4 = Some (out, s5)" and e: "e = (if ContinueOnError (nhNode nh) then None else err')"
    by (auto simp: OnMessage_def GetNodeHandler_def interceptor_OnMessage_def Let_def split: Option.bind_splits)
  from handleToolRequest_clears [OF h assms(5-7)] p e show ?thesis
    by (auto simp: pack_output_def IsEmpty_def)
qed

section \<open>The reply to a message\<close>

text \<open>The reply is a packed form of the document the handler left, or the document itself.\<close>

lemma OnMessage_reply_packed:
  assumes "lib_laws L D" "handlers s g = Some nh" "\<not> hasTool nh" "dec inMessage = Inr b"
    and "run_handler C (originalHandler nh) (NewContext L b) (sleep_sec (DelayBefore (nhNode nh)) s) = (err, msg, s1)"
    and "data msg = Some payload" "payload \<noteq> []" "den D payload = Some j" "wf_json j" "no_ref D j"
    and "lmoStore s1 = Some st" "HasCapability CapabilityLMO (capsOf s1)"
    and "sound L st S (fs s1)" "big_parts L (parse L payload) \<subseteq> S" "depth j \<le> n"
    and "OnMessage n L pf C dec g inMessage s = Some ((reply, e), s')"
  shows "\<exists>o1 p. reply = Some o1 \<and> den D o1 = Some p \<and> packed L D st S (fs s') (depth j + 2) j p \<and> \<not> isref D p"
proof -
  have ne: "\<not> IsEmpty msg" "raw_bytes msg = payload" using assms(6,7) by (simp_all add: IsEmpty_def raw_bytes_def)
  have "pack_inv L st S True (fs s1)" using assms(13) by (simp add: pack_inv_def)
  from Pack_spec [OF assms(1,8,9) no_ref_isref [OF assms(10)] assms(14,15) this, of pf]
  obtain res w1 where p: "Pack n L pf st payload (fs s1) = Some (res, w1)"
    and r: "case res of Inl e \<Rightarrow> True | Inr out \<Rightarrow> \<exists>p. den D out = Some p \<and> packed L D st S w1 (depth j + 2) j p \<and> \<not> isref D p"
    by blast
  have reply: "reply = Some (case res of Inl e \<Rightarrow> payload | Inr d \<Rightarrow> d)" and w: "files (fs s') = files w1"
    using assms(2-5,11,12,16) ne p assms(6)
    by (auto simp: OnMessage_def GetNodeHandler_def interceptor_OnMessage_def pack_output_def LMOPack_def Let_def
        PackedBytes_def sleep_sec_def os_sleep_def split: sum.splits)
  have "\<exists>p. den D (the reply) = Some p \<and> packed L D st S w1 (depth j + 2) j p \<and> \<not> isref D p"
    using r reply assms(8) no_ref_isref [OF assms(10)] packed.same [of j "depth j + 2"]
    by (cases res) auto
  then obtain p where q: "den D (the reply) = Some p" "packed L D st S w1 (depth j + 2) j p" "\<not> isref D p" by blast
  have "packed L D st S (fs s') (depth j + 2) j p" using packed_world [OF q(2)] w by (simp add: holds_def)
  with q reply show ?thesis by auto
qed

text \<open>
  C18. With the blob capability negotiated, the reply to a message means what the node's handler left in
  it, a document whose objects have plain keys: a later \<^verbatim>\<open>ResolveAll\<close> gives back the document, and if packing failed the reply is that document.
\<close>

theorem OnMessage_reply_resolves:
  assumes "lib_laws L D" "handlers s g = Some nh" "\<not> hasTool nh" "dec inMessage = Inr b"
    and "run_handler C (originalHandler nh) (NewContext L b) (sleep_sec (DelayBefore (nhNode nh)) s) = (err, msg, s1)"
    and "data msg = Some payload" "payload \<noteq> []" "den D payload = Some j" "wf_json j" "no_ref D j"
    and "lmoStore s1 = Some st" "HasCapability CapabilityLMO (capsOf s1)"
    and "sound L st S (fs s1)" "big_parts L (parse L payload) \<subseteq> S" "depth j \<le> n"
    and "OnMessage n L pf C dec g inMessage s = Some ((reply, e), s')"
    and "keeps L st S (fs s') w" "faultless w" "depth j < m"
  shows "\<exists>o1 out w'. reply = Some o1 \<and> ResolveAll m L pf st o1 w = Some (Inr out, w') \<and> den D out = Some j"
proof -
  obtain o1 p where q: "reply = Some o1" "den D o1 = Some p" "packed L D st S (fs s') (depth j + 2) j p" "\<not> isref D p"
    using OnMessage_reply_packed [OF assms(1-16)] by blast
  have "packed L D st S w (depth j + 2) j p" using packed_world [OF q(3)] assms(17) by (simp add: keeps_def)
  from ResolveAll_spec [OF assms(1) this q(4,2) assms(10,9), of w m pf] assms(18,19) q(1) show ?thesis
    by (auto simp: quiet_from_def)
qed

section \<open>Robot info\<close>

text \<open>
  The host is asked for the robot info until it gives one that is not empty; from then on every
  answer is that one and nothing changes.  A failing host is no error for \<^verbatim>\<open>GetRobotVersion\<close> and
  \<^verbatim>\<open>GetRobotID\<close>, which return an empty string and no error.
\<close>

theorem robot_info_cached:
  assumes "hasClient s" "robotInfo s = []"
  shows "(i \<noteq> [] \<longrightarrow> (let s' = snd (GetRobotInfo (Inr i) s) in
            \<forall>fetch. GetRobotInfo fetch s' = (Inr i, s') \<and> fst (GetRobotVersion fetch s') = fst (GetRobotVersion (Inr i) s)))
    \<and> fst (GetRobotVersion (Inl e) s) = Inr [] \<and> fst (GetRobotID (Inl e) s) = Inr []"
  using assms
  by (auto simp: GetRobotInfo_def GetRobotVersion_def GetRobotID_def info_string_def Let_def split: option.splits)

section \<open>A concrete package\<close>

text \<open>
  Two nodes: \<open>a\<close> answers every message with the large demo document; \<open>b\<close> is a tool whose \<^verbatim>\<open>OnCreate\<close>
  fails and which leaves messages as they are.
\<close>

definition demo_node :: "string \<Rightarrow> node" where
  "demo_node g = \<lparr>nScope = [], GUID = g, nName = [], DelayBefore = 0, DelayAfter = 0, ContinueOnError = False\<rparr>"

definition demo_cfg :: "string \<Rightarrow> bytes" where
  "demo_cfg g = print_json (JObj [(''guid'', JStr g)])"

definition demo_code :: "unit node_code" where
  "demo_code = \<lparr>
     unmarshal_node = (\<lambda>ty c. if c = demo_cfg ''a'' then Inr 3 else if c = demo_cfg ''b'' then Inr 2 else Inl (Errorf ''json'')),
     node_field = (\<lambda>h. Some (demo_node (if h = 3 then ''a'' else ''b''))), tool_field = (\<lambda>h. h = 2), out_specs = (\<lambda>h. []),
     on_create = (\<lambda>h x. (if h = 2 then Some (Errorf ''boom'') else None, x)),
     on_message = (\<lambda>h m w x. (None, if h = 3 then m\<lparr>data := Some (print_json demo_doc)\<rparr> else m, w, x)),
     on_close = (\<lambda>h x. (None, x)), on_setup = (\<lambda>h. Some (\<lambda>g sid x. (None, x)))\<rparr>"

definition demo_server :: "store option \<Rightarrow> unit server" where
  "demo_server st = \<lparr>factories = [''N'' \<mapsto> ''T''], handlers = Map.empty, nc = 0, sessionMode = False, lmoStore = st,
     capsOf = \<lparr>robotCapabilities = CapabilityLMO, packageCapabilities = CapabilityLMO\<rparr>, hasClient = True, robotInfo = [],
     fs = demo_os, doneSignals = 0, inbox = [], ext = ()\<rparr>"

definition with_a :: "unit server" where
  "with_a = (AddNodeHandler demo_code (demo_node ''a'') 3 (demo_server (Some demo_store)))\<lparr>nc := 1\<rparr>"

lemma demo_cfg_guid [simp]: "str text_lib (get text_lib (demo_cfg g) ''guid'') = g"
proof -
  have "unesc ''guid'' = ''guid''" by simp
  then show ?thesis
    using json_den_print [of "JObj [(''guid'', JStr g)]"]
    by (simp add: text_lib_def demo_cfg_def del: print_json.simps unesc.simps)
qed

lemma demo_cfg_inj: "demo_cfg ''b'' \<noteq> demo_cfg ''a''"
proof
  assume "demo_cfg ''b'' = demo_cfg ''a''"
  then have "str text_lib (get text_lib (demo_cfg ''b'') ''guid'') = str text_lib (get text_lib (demo_cfg ''a'') ''guid'')"
    by simp
  then show False by (simp only: demo_cfg_guid) simp
qed

lemma demo_code_sel: "unmarshal_node demo_code ty (demo_cfg ''a'') = Inr 3" "unmarshal_node demo_code ty (demo_cfg ''b'') = Inr 2"
  "node_field demo_code 3 = Some (demo_node ''a'')" "node_field demo_code 2 = Some (demo_node ''b'')"
  "tool_field demo_code h = (h = 2)" "on_create demo_code 3 x = (None, x)" "GUID (demo_node g) = g"
  using demo_cfg_inj by (simp_all add: demo_code_def demo_node_def)

lemma demo_create_a: "OnCreate text_lib demo_code ''N'' (demo_cfg ''a'') (demo_server (Some demo_store)) = Return (None, with_a)"
proof -
  have "factories (demo_server (Some demo_store)) ''N'' = Some ''T''" by (simp add: demo_server_def)
  moreover have "handlers (AddNodeHandler demo_code (demo_node ''a'') 3 (demo_server (Some demo_store))) ''a''
      = Some \<lparr>nhNode = demo_node ''a'', originalHandler = 3, hasTool = False\<rparr>"
    by (simp add: AddNodeHandler_def demo_code_sel)
  moreover have "nc (AddNodeHandler demo_code (demo_node ''a'') 3 (demo_server (Some demo_store))) = 0"
    by (simp add: AddNodeHandler_def demo_server_def)
  ultimately show ?thesis
    by (simp add: OnCreate_def GetNodeFactory_def GetNodeHandler_def factory_OnCreate_def demo_code_sel with_a_def)
qed

theorem handlers_keyed_by_guid_witness:
  "\<exists>nh. handlers with_a ''a'' = Some nh \<and> GUID (nhNode nh) = ''a'' \<and> \<not> hasTool nh"
proof -
  have "(rpc text_lib Posix demo_code Inr)\<^sup>*\<^sup>* (demo_server (Some demo_store)) with_a"
    using rpc.create [OF demo_create_a] by blast
  moreover have "handlers (demo_server (Some demo_store)) = Map.empty" by (simp add: demo_server_def)
  moreover obtain nh where "handlers with_a ''a'' = Some nh" "originalHandler nh = 3"
    by (simp add: with_a_def AddNodeHandler_def demo_node_def)
  ultimately show ?thesis using handlers_keyed_by_guid by (fastforce simp: demo_code_def)
qed

lemma with_a_facts: "handlers with_a = [''a'' \<mapsto> \<lparr>nhNode = demo_node ''a'', originalHandler = 3, hasTool = False\<rparr>]"
  "nc with_a = 1" "factories with_a = [''N'' \<mapsto> ''T'']" "sessionMode with_a = False" "lmoStore with_a = Some demo_store"
  "fs with_a = demo_os" "capsOf with_a = \<lparr>robotCapabilities = CapabilityLMO, packageCapabilities = CapabilityLMO\<rparr>"
  by (simp_all add: with_a_def AddNodeHandler_def demo_server_def demo_code_def demo_node_def)

theorem process_ends_with_last_node_witness:
  "doneSignals (snd (OnClose demo_code ''a'' with_a)) = Suc (doneSignals with_a)"
proof -
  have "clean_rpc text_lib Posix demo_code Inr (demo_server (Some demo_store)) with_a"
  proof (rule clean_rpc.create [OF demo_create_a])
    show "fresh_config text_lib demo_code ''N'' (demo_cfg ''a'') (demo_server (Some demo_store))"
      by (auto simp: fresh_config_def demo_code_def demo_server_def demo_node_def split: if_splits)
    show "create_clean demo_code ''N'' (demo_cfg ''a'') (demo_server (Some demo_store))"
      by (auto simp: create_clean_def demo_code_def demo_cfg_inj)
  qed
  then have r: "(clean_rpc text_lib Posix demo_code Inr)\<^sup>*\<^sup>* (demo_server (Some demo_store)) with_a" by blast
  obtain res s' where o: "OnClose demo_code ''a'' with_a = (res, s')" by fastforce
  have "handlers s' = Map.empty"
    using o by (cases rule: OnClose_cases) (auto simp: with_a_facts)
  with process_ends_with_last_node [OF r _ _ o] o show ?thesis
    by (simp add: with_a_facts demo_server_def)
qed

theorem failed_create_miscounts_witness:
  "\<exists>s1. OnCreate text_lib demo_code ''N'' (demo_cfg ''b'') with_a = Return (Some (Errorf ''boom''), s1)
    \<and> handlers (snd (OnClose demo_code ''b'' s1)) ''a'' \<noteq> None \<and> doneSignals (snd (OnClose demo_code ''b'' s1)) = Suc (doneSignals with_a)"
proof -
  have b: "GUID (demo_node ''b'') = ''b''" by (simp add: demo_node_def)
  have "unmarshal_node demo_code ''T'' (demo_cfg ''b'') = Inr 2" "node_field demo_code 2 = Some (demo_node ''b'')"
    "on_create demo_code 2 (ext with_a) = (Some (Errorf ''boom''), ())"
    using demo_cfg_inj by (simp_all add: demo_code_def)
  from failed_create_miscounts [where name = "''N''" and s = with_a and L = text_lib and config = "demo_cfg ''b''", OF _ this(1,2) _ _ this(3)]
  obtain s1 where "OnCreate text_lib demo_code ''N'' (demo_cfg ''b'') with_a = Return (Some (Errorf ''boom''), s1)"
    "handlers (snd (OnClose demo_code ''b'' s1)) = handlers with_a"
    "doneSignals (snd (OnClose demo_code ''b'' s1)) = Suc (doneSignals with_a)"
    by (auto simp: with_a_facts b Let_def)
  then show ?thesis by (auto simp: with_a_facts)
qed

theorem setup_removes_live_handler_witness:
  "handlers with_a ''a'' \<noteq> None \<and> handlers (snd (OnSetup text_lib demo_code ''N'' (demo_cfg ''a'') ''s'' with_a)) ''a'' = None"
proof -
  have g: "GUID (demo_node ''a'') = ''a''" by (simp add: demo_node_def)
  have "unmarshal_node demo_code ''T'' (demo_cfg ''a'') = Inr 3" "node_field demo_code 3 = Some (demo_node ''a'')"
    by (simp_all add: demo_code_def)
  from setup_removes_live_handler [where name = "''N''" and s = with_a and L = text_lib and config = "demo_cfg ''a''" and sid = "''s''", OF _ this]
  show ?thesis by (simp add: with_a_facts g)
qed

definition tool_msg :: json where
  "tool_msg = JObj [(''__message_type__'', JStr ''tool_request'')]"

definition with_b :: "unit server" where
  "with_b = AddNodeHandler demo_code (demo_node ''b'') 2 (demo_server None)"

lemma tool_msg_get: "lmoStore u = None \<Longrightarrow> IsToolRequest n text_lib Posix (NewContext text_lib (print_json tool_msg)) u = Some (True, u)"
proof -
  assume u: "lmoStore u = None"
  have d: "json_den (print_json tool_msg) = Some tool_msg"
    by (rule json_den_print) (simp add: tool_msg_def)
  have k: "unesc ''__message_type__'' = ''__message_type__''" "convertPath ''__message_type__'' = ''__message_type__''"
    by (simp_all add: convertPath_def)
  have g: "get text_lib (print_json tool_msg) ''__message_type__'' = result_of (JStr ''tool_request'')"
    using d k(1) by (simp add: text_lib_def del: unesc.simps) (simp add: tool_msg_def)
  have e: "exists text_lib (result_of (JStr ''tool_request''))" "val text_lib (result_of (JStr ''tool_request'')) = GStr ''tool_request''"
    by (simp_all add: text_lib_def) (simp add: result_of_def quoted_def)
  have "data (NewContext text_lib b) = Some b" for b by (simp add: NewContext_def)
  then show ?thesis using u g e k(2)
    by (simp add: IsToolRequest_def ctx_get_def msg_Get_def msg_get_def LMOResolveSubtree_def LMOResolve_def raw_bytes_def)
qed

theorem tool_request_never_flows_witness:
  "\<exists>s'. OnMessage 9 text_lib Posix demo_code Inr ''b'' (print_json tool_msg) with_b = Some ((None, None), s')"
proof -
  have h: "handlers with_b ''b'' = Some \<lparr>nhNode = demo_node ''b'', originalHandler = 2, hasTool = True\<rparr>"
    and st: "lmoStore with_b = None" "hasClient with_b"
    by (simp_all add: with_b_def AddNodeHandler_def demo_node_def demo_code_def demo_server_def)
  let ?m = "NewContext text_lib (print_json tool_msg)" and ?s = "sleep_sec (DelayBefore (demo_node ''b'')) with_b"
  have st': "lmoStore ?s = None" using st by (simp add: sleep_sec_def)
  have run: "run_handler demo_code 2 ?m ?s = (None, ?m, ?s)" by (simp add: run_handler_def demo_code_def)
  have sent: "hasToolResponseBeenSent 9 text_lib Posix ?m ?s = Some (False, ?s)"
    using st' by (simp add: hasToolResponseBeenSent_def ctx_raw_def msg_GetRaw_def getRaw_def lift_raw_def LMOResolveAll_def NewContext_def)
  have still: "still_request 9 text_lib Posix ?m ?s"
    using tool_msg_get st' by (auto simp: still_request_def same_registry_def)
  have get_None: "\<exists>v. ctx_get 9 text_lib Posix p ?m u = Some (v, u)" if "lmoStore u = None" for p u
    using that by (auto simp: ctx_get_def msg_Get_def msg_get_def LMOResolveSubtree_def LMOResolve_def NewContext_def)
  have resp: "\<exists>m' s'. ToolResponse 9 text_lib Posix ?m stt d e u = Some (m', s')" if u: "lmoStore u = None" for stt d e u
  proof -
    have raw: "\<exists>r. ctx_raw 9 text_lib Posix x u = Some (r, u)" for x
      using u by (auto simp: ctx_raw_def msg_GetRaw_def getRaw_def lift_raw_def LMOResolveAll_def split: option.splits)
    from get_None [OF u] obtain v where v: "\<And>p. ctx_get 9 text_lib Posix p ?m u = Some (v p, u)" by metis
    obtain r where r: "ctx_raw 9 text_lib Posix (response_msg text_lib (v ''id'') (v ''session_id'') (v ''query'') (v ''__tool_caller_id__'') stt d e) u = Some (r, u)" using raw by blast
    show ?thesis by (simp add: ToolResponse_def Let_def tool_msg_get [OF u] v r)
  qed
  have "out_specs demo_code 2 = []" by (simp add: demo_code_def)
  then obtain m' s1 where hr: "handleToolRequest 9 text_lib Posix demo_code 2 ?m ?s = Some (None, m', s1)"
    using run sent resp [OF st', of "''success''" "Some (GMap [(''status'', GStr ''completed'')])" "[]"]
    by (auto simp: handleToolRequest_def collectOutputVariables_def)
  have "data m' = None" using handleToolRequest_clears [OF hr run sent still] by simp
  then obtain s' where o: "OnMessage 9 text_lib Posix demo_code Inr ''b'' (print_json tool_msg) with_b = Some ((None, None), s')"
    using h hr tool_msg_get [OF st']
    by (auto simp: OnMessage_def GetNodeHandler_def interceptor_OnMessage_def pack_output_def IsEmpty_def Let_def)
  from tool_request_never_flows [OF h, of Inr "print_json tool_msg" "print_json tool_msg"] tool_msg_get [OF st'] run sent still o
  have "None = (None :: bytes option) \<and> None = (None :: error option)" by simp
  with o show ?thesis by blast
qed

text \<open>A demo node that leaves the large document in the message, and what the reply to it needs.\<close>

definition demo_out :: message where
  "demo_out = (NewContext text_lib (print_json JNull))\<lparr>data := Some (print_json demo_doc)\<rparr>"

lemma demo_out_data: "data demo_out = Some (print_json demo_doc)" "print_json demo_doc \<noteq> []"
  using print_nonempty demo_json(1) by (simp add: demo_out_def, blast)

lemma demo_handler: "handlers with_a ''a'' = Some \<lparr>nhNode = demo_node ''a'', originalHandler = 3, hasTool = False\<rparr>"
  by (simp add: with_a_facts)

abbreviation demo_before :: "unit server" where
  "demo_before \<equiv> sleep_sec (DelayBefore (demo_node ''a'')) with_a"

lemma demo_run: "run_handler demo_code 3 (NewContext text_lib (print_json JNull)) demo_before = (None, demo_out, demo_before)"
  by (simp add: run_handler_def demo_code_def demo_out_def)

lemma demo_before_facts:
  "HasCapability CapabilityLMO (capsOf demo_before)" "lmoStore demo_before = Some demo_store"
  "sound text_lib demo_store demo_bytes (fs demo_before)" "healthy (fs demo_before)"
proof -
  show "HasCapability CapabilityLMO (capsOf demo_before)" "lmoStore demo_before = Some demo_store"
    using capability_negotiation [of 4 "capsOf demo_before"]
    by (simp_all add: CapabilityLMO_def [symmetric] sleep_sec_def with_a_facts) (simp_all add: CapabilityLMO_def bit_cap)
  show "sound text_lib demo_store demo_bytes (fs demo_before)" "healthy (fs demo_before)"
    using demo_healthy demo_sound
    by (simp_all add: sleep_sec_def os_sleep_def with_a_facts healthy_def faultless_def rnd_ok_def no_tmp_def sound_def)
qed

lemma demo_reply:
  obtains o1 s' where "OnMessage 1 text_lib Posix demo_code Inr ''a'' (print_json JNull) with_a = Some ((Some o1, None), s')"
    "faultless (fs s')"
proof -
  have inv: "pack_inv text_lib demo_store demo_bytes False (fs demo_before)" using demo_before_facts by (simp add: pack_inv_def)
  from Pack_spec [OF text_lib_laws demo_den demo_json(3) no_ref_isref [OF demo_json(4)] demo_parts _ inv, of 1 Posix]
  obtain o1 w1 where p: "Pack 1 text_lib Posix demo_store (print_json demo_doc) (fs demo_before) = Some (Inr o1, w1)" "healthy w1"
    using demo_json(5) by (fastforce simp: pack_inv_def split: sum.splits)
  have "OnMessage 1 text_lib Posix demo_code Inr ''a'' (print_json JNull) with_a
      = Some ((Some o1, None), sleep_sec 0 (demo_before\<lparr>fs := w1\<rparr>))"
    using demo_run p demo_before_facts demo_out_data
    by (simp add: OnMessage_def GetNodeHandler_def demo_handler interceptor_OnMessage_def pack_output_def LMOPack_def
        IsEmpty_def raw_bytes_def Let_def del: print_json.simps) (simp add: demo_node_def)
  moreover have "faultless (fs (sleep_sec 0 (demo_before\<lparr>fs := w1\<rparr>)))"
    using p(2) by (simp add: healthy_def faultless_def sleep_sec_def os_sleep_def)
  ultimately show thesis using that by blast
qed

theorem OnMessage_reply_resolves_witness:
  "\<exists>reply s' out w'. OnMessage 1 text_lib Posix demo_code Inr ''a'' (print_json JNull) with_a = Some ((Some reply, None), s')
    \<and> ResolveAll 2 text_lib Posix demo_store reply (fs s') = Some (Inr out, w') \<and> json_den out = Some demo_doc"
proof -
  obtain o1 s' where o: "OnMessage 1 text_lib Posix demo_code Inr ''a'' (print_json JNull) with_a = Some ((Some o1, None), s')"
    "faultless (fs s')" by (rule demo_reply)
  from OnMessage_reply_resolves [OF text_lib_laws demo_handler _ _ _ demo_out_data demo_den demo_json(3,4) demo_before_facts(2,1,3)
      demo_parts _ o(1) keeps_refl o(2), of "print_json JNull" None 2]
    demo_run demo_json(5) o show ?thesis by (auto simp del: print_json.simps)
qed

theorem robot_info_cached_witness:
  "fst (GetRobotVersion (Inl (Errorf ''unavailable'')) (demo_server None)) = Inr []"
  using robot_info_cached [of "demo_server None"] by (simp add: demo_server_def)

end
