(* ===== verification/Close_Concurrent.thy ===== *)
theory Close_Concurrent
  imports Node_Server_Props
begin

text \<open>
  Calls of \<^verbatim>\<open>OnClose\<close> that run at once: gRPC starts a goroutine for every call, and \<^verbatim>\<open>OnClose\<close> looks its handler
  up, runs it, takes one off the counter, removes the handler and reads the counter in separate steps.
  \<^verbatim>\<open>CloseLMOStore\<close>, which is not guarded by a mutex, is taken apart as well.
\<close>

section \<open>OnClose step by step\<close>

datatype close_pc =
    Lookup
  | Running node_handler
  | Uncount "error option"
  | Unregister "error option"
  | Check "error option"
  | StoreCheck "error option"
  | StoreClose "error option"
  | StoreNil "error option"
  | Signal "error option"
  | Replied "error option"
  | Crashed

definition none_left :: "'e server \<Rightarrow> bool" where
  "none_left s \<longleftrightarrow> nc s = 0 \<and> \<not> sessionMode s"

fun close_step :: "'e node_code \<Rightarrow> string \<Rightarrow> close_pc \<times> 'e server \<Rightarrow> close_pc \<times> 'e server" where
  "close_step C guid (Lookup, s) = (case GetNodeHandler guid s of
     None \<Rightarrow> (Replied (Some (Errorf ''No handler'')), s) | Some nh \<Rightarrow> (Running nh, s))"
| "close_step C guid (Running nh, s) =
     (case on_close C (originalHandler nh) (ext s) of (err, x) \<Rightarrow> (Uncount err, s\<lparr>ext := x\<rparr>))"
| "close_step C guid (Uncount err, s) = (Unregister err, s\<lparr>nc := nc s - 1\<rparr>)"
| "close_step C guid (Unregister err, s) = (Check err, RemoveNodeHandler guid s)"
| "close_step C guid (Check err, s) = (if none_left s then StoreCheck err else Replied err, s)"
| "close_step C guid (StoreCheck err, s) = (if lmoStore s = None then Signal err else StoreClose err, s)"
| "close_step C guid (StoreClose err, s) = (if lmoStore s = None then Crashed else StoreNil err, s)"
| "close_step C guid (StoreNil err, s) = (Signal err, s\<lparr>lmoStore := None\<rparr>)"
| "close_step C guid (Signal err, s) = (Replied err, s\<lparr>doneSignals := Suc (doneSignals s)\<rparr>)"
| "close_step C guid (Replied err, s) = (Replied err, s)"
| "close_step C guid (Crashed, s) = (Crashed, s)"

text \<open>Run alone it is the function \<open>OnClose\<close>.\<close>

definition close_run :: "nat \<Rightarrow> 'e node_code \<Rightarrow> string \<Rightarrow> 'e server \<Rightarrow> close_pc \<times> 'e server" where
  "close_run n C guid s = (close_step C guid ^^ n) (Lookup, s)"

lemma store_unchanged: "lmoStore s = None \<Longrightarrow> s\<lparr>lmoStore := None, doneSignals := d\<rparr> = s\<lparr>doneSignals := d\<rparr>"
  by simp

lemma OnClose_steps:
  assumes "OnClose C guid s = (err, s')"
  shows "close_run 9 C guid s = (Replied err, s')"
proof (cases "handlers s guid")
  case None
  with assms show ?thesis by (simp add: close_run_def numeral_eq_Suc GetNodeHandler_def OnClose_def)
next
  case (Some nh)
  obtain e x where c: "on_close C (originalHandler nh) (ext s) = (e, x)" by fastforce
  let ?s = "RemoveNodeHandler guid (s\<lparr>ext := x, nc := nc s - 1\<rparr>)"
  have "err = e" and s': "s' = (if none_left ?s then ?s\<lparr>lmoStore := None, doneSignals := Suc (doneSignals ?s)\<rparr> else ?s)"
    using assms Some c by (auto simp: OnClose_def GetNodeHandler_def none_left_def CloseLMOStore_def Let_def)
  have "(close_step C guid ^^ 4) (Lookup, s) = (Check e, ?s)"
    using Some c by (simp add: numeral_eq_Suc GetNodeHandler_def)
  moreover have "(close_step C guid ^^ 5) (Check e, ?s) = (Replied e, s')"
  proof (cases "none_left ?s")
    case True
    then show ?thesis by (cases "lmoStore ?s") (simp_all add: s' store_unchanged numeral_eq_Suc)
  qed (simp add: s' numeral_eq_Suc)
  ultimately show ?thesis using \<open>err = e\<close> funpow_add [of 5 4 "close_step C guid"] by (simp add: close_run_def)
qed

section \<open>Any number of calls\<close>

text \<open>A state is the program counter of the call for each guid, and the shared state.\<close>

inductive close_sys :: "lib \<Rightarrow> platform \<Rightarrow> 'e node_code \<Rightarrow> (bytes \<Rightarrow> bytes res) \<Rightarrow> string set
    \<Rightarrow> (string \<Rightarrow> close_pc) \<times> 'e server \<Rightarrow> (string \<Rightarrow> close_pc) \<times> 'e server \<Rightarrow> bool"
  for L pf C dec G where
  close: "Crashed \<notin> range pcs \<Longrightarrow> g \<in> G \<Longrightarrow> close_step C g (pcs g, s) = (c, s') \<Longrightarrow>
    close_sys L pf C dec G (pcs, s) (pcs(g := c), s')"
| message: "Crashed \<notin> range pcs \<Longrightarrow> OnMessage n L pf C dec guid inMessage s = Some (r, s') \<Longrightarrow>
    close_sys L pf C dec G (pcs, s) (pcs, s')"

fun uncounted :: "close_pc \<Rightarrow> bool" where
  "uncounted Lookup = False" | "uncounted (Running nh) = False" | "uncounted (Uncount e) = False" | "uncounted _ = True"

fun unregistered :: "close_pc \<Rightarrow> bool" where
  "unregistered (Unregister e) = False" | "unregistered c = uncounted c"

text \<open>The call has seen the counter at zero, or still has to read it.\<close>

fun ending :: "close_pc \<Rightarrow> bool" where
  "ending (StoreCheck e) = True" | "ending (StoreClose e) = True" | "ending (StoreNil e) = True" | "ending (Signal e) = True"
| "ending Crashed = True" | "ending _ = False"

fun yet_to_check :: "close_pc \<Rightarrow> bool" where
  "yet_to_check (Unregister e) = True" | "yet_to_check (Check e) = True" | "yet_to_check _ = False"

definition closed_off :: "(string \<Rightarrow> close_pc) \<Rightarrow> 'e server \<Rightarrow> string set" where
  "closed_off pcs s0 = {g \<in> dom (handlers s0). uncounted (pcs g)}"

definition tracked :: "'e server \<Rightarrow> (string \<Rightarrow> close_pc) \<Rightarrow> 'e server \<Rightarrow> bool" where
  "tracked s0 pcs s \<longleftrightarrow>
     nc s = of_nat (card (dom (handlers s0)) - card (closed_off pcs s0))
   \<and> handlers s = (\<lambda>g. if unregistered (pcs g) then None else handlers s0 g)
   \<and> (\<forall>g. handlers s0 g = None \<longrightarrow> pcs g = Lookup \<or> (\<exists>e. pcs g = Replied e))
   \<and> sessionMode s = sessionMode s0"

definition ends_right :: "'e server \<Rightarrow> (string \<Rightarrow> close_pc) \<Rightarrow> 'e server \<Rightarrow> bool" where
  "ends_right s0 pcs s \<longleftrightarrow> doneSignals s0 \<le> doneSignals s
   \<and> ((\<exists>g. ending (pcs g)) \<or> doneSignals s0 < doneSignals s \<longrightarrow> closed_off pcs s0 = dom (handlers s0) \<and> \<not> sessionMode s0)
   \<and> (closed_off pcs s0 = dom (handlers s0) \<longrightarrow> dom (handlers s0) \<noteq> {} \<longrightarrow> \<not> sessionMode s0 \<longrightarrow>
        (\<exists>g. ending (pcs g) \<or> yet_to_check (pcs g)) \<or> doneSignals s0 < doneSignals s)
   \<and> ((\<exists>g e. pcs g = Signal e) \<or> doneSignals s0 < doneSignals s \<longrightarrow> lmoStore s = None)"

section \<open>The counter is right whenever it matters\<close>

lemma closed_off_same: "uncounted c = uncounted (pcs g) \<or> handlers s0 g = None \<Longrightarrow> closed_off (pcs(g := c)) s0 = closed_off pcs s0"
  by (auto simp: closed_off_def)

lemma closed_off_insert: "handlers s0 g \<noteq> None \<Longrightarrow> uncounted c \<Longrightarrow> closed_off (pcs(g := c)) s0 = insert g (closed_off pcs s0)"
  by (auto simp: closed_off_def)

lemma handlers_same:
  "handlers s = (\<lambda>g. if unregistered (pcs g) then None else h g) \<Longrightarrow> unregistered c = unregistered (pcs g) \<or> h g = None \<Longrightarrow>
   handlers s = (\<lambda>g'. if unregistered ((pcs(g := c)) g') then None else h g')"
  by (auto simp: fun_eq_iff)

lemma tracked_keep:
  assumes "tracked s0 pcs s" "uncounted c = uncounted (pcs g) \<and> unregistered c = unregistered (pcs g) \<or> handlers s0 g = None"
    and "handlers s0 g = None \<longrightarrow> c = Lookup \<or> (\<exists>e. c = Replied e)"
    and "nc s' = nc s" "handlers s' = handlers s" "sessionMode s' = sessionMode s"
  shows "tracked s0 (pcs(g := c)) s'"
  using assms closed_off_same [of c pcs g s0] handlers_same [of s pcs "handlers s0" c g]
  unfolding tracked_def by auto

lemma tracked_registered: "tracked s0 pcs s \<Longrightarrow> pcs g \<noteq> Lookup \<Longrightarrow> (\<And>e. pcs g \<noteq> Replied e) \<Longrightarrow> handlers s0 g \<noteq> None"
  unfolding tracked_def by blast

lemma closed_off_less:
  assumes "finite (dom (handlers s0))" "handlers s0 g \<noteq> None" "\<not> uncounted (pcs g)"
  shows "card (closed_off pcs s0) < card (dom (handlers s0))"
  using assms by (intro psubset_card_mono) (auto simp: closed_off_def)

lemma tracked_step:
  assumes t: "tracked s0 pcs s" and "counted s0" and step: "close_step C g (pcs g, s) = (c, s')"
  shows "tracked s0 (pcs(g := c)) s'"
proof -
  have fin: "finite (dom (handlers s0))" using assms(2) by (simp add: counted_def)
  note reg = tracked_registered [OF t, of g]
  show ?thesis
  proof (cases "pcs g")
    case Lookup
    with t have "handlers s g = handlers s0 g" by (simp add: tracked_def)
    with Lookup step t show ?thesis by (intro tracked_keep) (auto simp: GetNodeHandler_def split: option.splits)
  next
    case (Uncount e)
    with step have c: "c = Unregister e" "s' = s\<lparr>nc := nc s - 1\<rparr>" by auto
    have "handlers s0 g \<noteq> None" using reg Uncount by simp
    moreover have "g \<notin> closed_off pcs s0" "finite (closed_off pcs s0)"
      using Uncount fin by (auto simp: closed_off_def intro: finite_subset [of _ "dom (handlers s0)"])
    moreover note closed_off_less [of s0 g pcs] handlers_same [of s pcs "handlers s0" c g]
    ultimately show ?thesis using t c Uncount fin
      by (auto simp: tracked_def closed_off_insert of_nat_diff)
  next
    case (Unregister e)
    with step have c: "c = Check e" "s' = RemoveNodeHandler g s" by auto
    have "handlers s0 g \<noteq> None" using reg Unregister by simp
    with t c Unregister show ?thesis
      by (auto simp: tracked_def closed_off_same RemoveNodeHandler_def fun_eq_iff)
  next
    case (Replied e)
    with step have "c = Replied e" "s' = s" by auto
    with t Replied show ?thesis by (intro tracked_keep) auto
  qed (use step t reg in \<open>auto intro!: tracked_keep split: prod.splits if_splits\<close>)
qed

lemma counter_zero:
  assumes "tracked s0 pcs s" "finite (dom (handlers s0))" "card (dom (handlers s0)) < 2 ^ 32"
  shows "none_left s \<longleftrightarrow> closed_off pcs s0 = dom (handlers s0) \<and> \<not> sessionMode s0"
proof -
  have sub: "closed_off pcs s0 \<subseteq> dom (handlers s0)" by (auto simp: closed_off_def)
  let ?k = "card (dom (handlers s0)) - card (closed_off pcs s0)"
  have "of_nat ?k = (0 :: 32 word) \<longleftrightarrow> ?k = 0"
    using assms(3) by (auto simp: word_of_nat_eq_0_iff dest: dvd_imp_le)
  moreover have "?k = 0 \<longleftrightarrow> closed_off pcs s0 = dom (handlers s0)"
    using card_mono [OF assms(2) sub] card_subset_eq [OF assms(2) sub] by auto
  ultimately show ?thesis using assms(1) by (auto simp: none_left_def tracked_def)
qed

lemma closed_off_mono:
  assumes "tracked s0 pcs s" "close_step C g (pcs g, s) = (c, s')" "closed_off pcs s0 = dom (handlers s0)"
  shows "closed_off (pcs(g := c)) s0 = dom (handlers s0)"
proof (cases "handlers s0 g")
  case (Some nh)
  with assms(3) have "uncounted (pcs g)" by (auto simp: closed_off_def)
  with assms(2) have "uncounted c" by (cases "pcs g") (auto split: if_splits)
  with Some assms(3) show ?thesis by (auto simp: closed_off_insert)
qed (use assms(3) in \<open>simp add: closed_off_same\<close>)

text \<open>What a step means for the end of the process.\<close>

lemma close_step_ending:
  assumes "close_step C g (pc, s) = (c, s')"
  shows "ending c \<Longrightarrow> ending pc \<or> none_left s"
    and "ending pc \<Longrightarrow> ending c \<or> doneSignals s < doneSignals s'"
    and "yet_to_check pc \<Longrightarrow> none_left s \<Longrightarrow> ending c \<or> yet_to_check c"
    and "\<not> uncounted pc \<Longrightarrow> uncounted c \<Longrightarrow> yet_to_check c \<or> handlers s g = None"
    and "doneSignals s \<le> doneSignals s'" "doneSignals s < doneSignals s' \<Longrightarrow> \<exists>e. pc = Signal e"
    and "c = Signal e \<Longrightarrow> lmoStore s' = None" "lmoStore s = None \<Longrightarrow> lmoStore s' = None"
  using assms by (cases pc; auto simp: GetNodeHandler_def RemoveNodeHandler_def split: option.splits prod.splits if_splits; fail)+

lemma ends_right_step:
  assumes t: "tracked s0 pcs s" and r: "ends_right s0 pcs s" and step: "close_step C g (pcs g, s) = (c, s')"
    and n: "finite (dom (handlers s0))" "card (dom (handlers s0)) < 2 ^ 32"
  shows "ends_right s0 (pcs(g := c)) s'"
proof -
  note z = counter_zero [OF t n] and st = close_step_ending [OF step] and mono = closed_off_mono [OF t step]
  have before: "closed_off pcs s0 = dom (handlers s0) \<and> \<not> sessionMode s0" if "ending (pcs g) \<or> none_left s" for g
    using that r z unfolding ends_right_def by blast
  have "closed_off (pcs(g := c)) s0 = dom (handlers s0) \<and> \<not> sessionMode s0"
    if h: "(\<exists>h. ending ((pcs(g := c)) h)) \<or> doneSignals s0 < doneSignals s'"
  proof -
    have "(\<exists>h. ending (pcs h)) \<or> none_left s \<or> doneSignals s0 < doneSignals s"
      using h st(1) st(6) r by (auto simp: ends_right_def split: if_splits) (metis ending.simps(4) le_neq_implies_less)+
    with before r mono show ?thesis unfolding ends_right_def by blast
  qed
  moreover have "(\<exists>h. ending ((pcs(g := c)) h) \<or> yet_to_check ((pcs(g := c)) h)) \<or> doneSignals s0 < doneSignals s'"
    if h: "closed_off (pcs(g := c)) s0 = dom (handlers s0)" "dom (handlers s0) \<noteq> {}" "\<not> sessionMode s0"
  proof (cases "closed_off pcs s0 = dom (handlers s0)")
    case True
    with h r consider (told) "doneSignals s0 < doneSignals s" | (call) k where "ending (pcs k) \<or> yet_to_check (pcs k)"
      unfolding ends_right_def by blast
    then show ?thesis
    proof cases
      case told
      with st(5) show ?thesis by simp
    next
      case (call k)
      show ?thesis
      proof (cases "k = g")
        case True
        have "none_left s" using z h(3) \<open>closed_off pcs s0 = _\<close> by simp
        with call True st(2,3) r show ?thesis by (auto simp: ends_right_def)
      next
        case False
        with call show ?thesis by (metis fun_upd_other)
      qed
    qed
  next
    case False
    then have new: "handlers s0 g \<noteq> None" "\<not> uncounted (pcs g)" "uncounted c"
      using h(1) closed_off_same [of c pcs g s0] closed_off_same [of c pcs g s0] by (metis, auto simp: closed_off_def split: if_splits)
    moreover have "handlers s g = handlers s0 g" using t new(2) by (cases "pcs g") (auto simp: tracked_def)
    ultimately show ?thesis using st(4) by auto
  qed
  moreover have "lmoStore s' = None" if "(\<exists>h e. (pcs(g := c)) h = Signal e) \<or> doneSignals s0 < doneSignals s'"
    using that st(5-8) r by (auto simp: ends_right_def split: if_splits)
  moreover have "doneSignals s0 \<le> doneSignals s'" using st(5) r by (simp add: ends_right_def)
  ultimately show ?thesis unfolding ends_right_def by blast
qed

lemma close_sys_invariant:
  assumes "counted s" "card (dom (handlers s)) < 2 ^ 32" "(close_sys L pf C dec G)\<^sup>*\<^sup>* (\<lambda>g. Lookup, s) (pcs, s')"
  shows "tracked s pcs s' \<and> ends_right s pcs s' \<and> (\<forall>g. g \<notin> G \<longrightarrow> pcs g = Lookup)"
  using assms(3)
proof (induction rule: rtranclp_induct2)
  case refl
  have "closed_off (\<lambda>g. Lookup) s = {}" by (simp add: closed_off_def)
  with assms(1) show ?case by (auto simp: tracked_def ends_right_def counted_def)
next
  case (step p t q u)
  from step.hyps(2) show ?case
  proof cases
    case (close g c)
    with step.IH assms(1,2) have "tracked s q u" "ends_right s q u"
      by (auto simp: counted_def simp del: fun_upd_apply intro: tracked_step ends_right_step)
    moreover have "\<forall>h. h \<notin> G \<longrightarrow> q h = Lookup" using close step.IH by auto
    ultimately show ?thesis by blast
  next
    case (message n guid m r)
    then have "same_registry t u" using OnMessage_same by (cases r) blast
    with step.IH message(1) show ?thesis by (simp add: tracked_def ends_right_def same_registry_def)
  qed
qed

text \<open>
  C14. Nodes closed at once: however any number of calls of \<^verbatim>\<open>OnClose\<close> for different nodes and of \<^verbatim>\<open>OnMessage\<close>
  interleave step by step, the process is not told to end before every registered node was closed and
  taken off the counter; when all calls have replied, exactly their nodes are gone, the counter is the
  number of the others, and if there are none left the process was told to end and the blob store closed.
\<close>

theorem concurrent_closes_end:
  assumes "counted s" "card (dom (handlers s)) < 2 ^ 32" "(close_sys L pf C dec G)\<^sup>*\<^sup>* (\<lambda>g. Lookup, s) (pcs, s')"
  shows "(doneSignals s < doneSignals s' \<or> Crashed \<in> range pcs \<longrightarrow>
        (\<forall>g \<in> dom (handlers s). g \<in> G \<and> uncounted (pcs g)) \<and> \<not> sessionMode s)
    \<and> ((\<forall>g \<in> G. \<exists>e. pcs g = Replied e) \<longrightarrow> handlers s' = handlers s |` (- G) \<and> counted s'
        \<and> (handlers s \<noteq> Map.empty \<and> handlers s' = Map.empty \<and> \<not> sessionMode s \<longrightarrow>
            doneSignals s < doneSignals s' \<and> lmoStore s' = None))"
proof -
  from close_sys_invariant [OF assms] have t: "tracked s pcs s'" and r: "ends_right s pcs s'"
    and G: "g \<notin> G \<Longrightarrow> pcs g = Lookup" for g by auto
  have "(\<forall>g \<in> dom (handlers s). g \<in> G \<and> uncounted (pcs g)) \<and> \<not> sessionMode s"
    if "doneSignals s < doneSignals s' \<or> Crashed \<in> range pcs"
  proof -
    from that have "(\<exists>g. ending (pcs g)) \<or> doneSignals s < doneSignals s'" by (metis ending.simps(5) rangeE)
    with r have "closed_off pcs s = dom (handlers s)" "\<not> sessionMode s" unfolding ends_right_def by blast+
    have "g \<in> G \<and> uncounted (pcs g)" if "g \<in> dom (handlers s)" for g
    proof -
      have "uncounted (pcs g)" using that \<open>closed_off pcs s = _\<close> by (auto simp: closed_off_def)
      then show ?thesis using G [of g] by (cases "g \<in> G") auto
    qed
    with \<open>\<not> sessionMode s\<close> show ?thesis by blast
  qed
  moreover have "handlers s' = handlers s |` (- G) \<and> counted s'
      \<and> (handlers s \<noteq> Map.empty \<and> handlers s' = Map.empty \<and> \<not> sessionMode s \<longrightarrow> doneSignals s < doneSignals s' \<and> lmoStore s' = None)"
    if all: "\<forall>g \<in> G. \<exists>e. pcs g = Replied e"
  proof -
    have u: "uncounted (pcs g) = (g \<in> G)" "unregistered (pcs g) = (g \<in> G)" for g
      using all G [of g] by (cases "g \<in> G"; fastforce)+
    have e: "\<not> ending (pcs g)" "\<not> yet_to_check (pcs g)" for g
      using all G [of g] by (cases "g \<in> G"; fastforce)+
    have h: "handlers s' = handlers s |` (- G)" using t by (auto simp: tracked_def u restrict_map_def fun_eq_iff)
    have off: "closed_off pcs s = dom (handlers s) \<inter> G" by (auto simp: closed_off_def u)
    have "dom (handlers s') = dom (handlers s) - dom (handlers s) \<inter> G" using h by auto
    moreover have "finite (dom (handlers s))" using assms(1) by (simp add: counted_def)
    ultimately have c: "counted s'" using t by (simp add: counted_def tracked_def off card_Diff_subset)
    have "doneSignals s < doneSignals s' \<and> lmoStore s' = None"
      if "handlers s \<noteq> Map.empty" "handlers s' = Map.empty" "\<not> sessionMode s"
    proof -
      have "dom (handlers s) \<inter> G = dom (handlers s)" using h that(2) by (auto simp: restrict_map_def fun_eq_iff split: if_splits)
      with that off r e show ?thesis unfolding ends_right_def by auto
    qed
    with h c show ?thesis by blast
  qed
  ultimately show ?thesis by blast
qed

lemma close_alone:
  assumes "g \<in> G" "close_run n C g s = (c, s')" "c \<noteq> Crashed"
  shows "(close_sys L pf C dec G)\<^sup>*\<^sup>* (\<lambda>g. Lookup, s) ((\<lambda>g. Lookup)(g := c), s')"
  using assms(2,3)
proof (induction n arbitrary: c s')
  case 0
  then show ?case by (simp add: close_run_def fun_upd_idem)
next
  case (Suc n)
  obtain c1 s1 where c1: "close_run n C g s = (c1, s1)" by fastforce
  with Suc.prems have st: "close_step C g (c1, s1) = (c, s')" "c1 \<noteq> Crashed" by (auto simp: close_run_def)
  have "close_sys L pf C dec G ((\<lambda>g. Lookup)(g := c1), s1) (((\<lambda>g. Lookup)(g := c1))(g := c), s')"
    by (rule close_sys.close [OF _ assms(1)]) (use st in auto)
  then have "close_sys L pf C dec G ((\<lambda>g. Lookup)(g := c1), s1) ((\<lambda>g. Lookup)(g := c), s')"
    by (simp only: fun_upd_upd)
  with Suc.IH [OF c1 st(2)] show ?case by (rule rtranclp.rtrancl_into_rtrancl)
qed

theorem concurrent_closes_end_witness:
  "\<exists>pcs s'. (close_sys text_lib Posix demo_code Inr {''a''})\<^sup>*\<^sup>* (\<lambda>g. Lookup, with_a) (pcs, s')
     \<and> handlers s' = Map.empty \<and> doneSignals with_a < doneSignals s' \<and> lmoStore s' = None"
proof -
  obtain err s' where "OnClose demo_code ''a'' with_a = (err, s')" by fastforce
  from close_alone [OF _ OnClose_steps [OF this]]
  have r: "(close_sys text_lib Posix demo_code Inr {''a''})\<^sup>*\<^sup>* (\<lambda>g. Lookup, with_a) ((\<lambda>g. Lookup)(''a'' := Replied err), s')" by simp
  have c: "counted with_a" "card (dom (handlers with_a)) < 2 ^ 32" by (simp_all add: counted_def with_a_facts)
  have "\<forall>g \<in> {''a''}. \<exists>e. ((\<lambda>g. Lookup)(''a'' := Replied err)) g = Replied e" by simp
  with concurrent_closes_end [OF c r] have "handlers s' = handlers with_a |` (- {''a''})"
    "handlers with_a \<noteq> Map.empty \<and> handlers s' = Map.empty \<and> \<not> sessionMode with_a \<longrightarrow> doneSignals with_a < doneSignals s' \<and> lmoStore s' = None"
    by blast+
  moreover have "handlers with_a |` (- {''a''}) = Map.empty" by (auto simp: with_a_facts restrict_map_def)
  moreover have "handlers with_a \<noteq> Map.empty" "\<not> sessionMode with_a" by (simp_all add: with_a_facts)
  ultimately have "handlers s' = Map.empty \<and> doneSignals with_a < doneSignals s' \<and> lmoStore s' = None" by simp
  with r show ?thesis by blast
qed

text \<open>
  \<^verbatim>\<open>CloseLMOStore\<close> is not guarded: when the calls for the last two nodes both find the store open, one of
  them sets the pointer to nil before the other calls \<^verbatim>\<open>Close\<close> on it, and that call panics.
\<close>

definition close_at :: "'e node_code \<Rightarrow> string \<Rightarrow> (string \<Rightarrow> close_pc) \<times> 'e server \<Rightarrow> (string \<Rightarrow> close_pc) \<times> 'e server" where
  "close_at C g x = (case close_step C g (fst x g, snd x) of (c, s) \<Rightarrow> ((fst x)(g := c), s))"

lemma last_two_closes_crash:
  assumes "handlers s = [''a'' \<mapsto> na, ''b'' \<mapsto> nb]" "nc s = 2" "\<not> sessionMode s" "lmoStore s = Some st"
  shows "fst (fold (close_at C) [''a'', ''a'', ''a'', ''b'', ''b'', ''b'', ''a'', ''b'', ''a'', ''b'', ''a'', ''b'', ''a'', ''a'', ''b'']
    (\<lambda>g. Lookup, s)) ''b'' = Crashed"
proof -
  obtain ea xa where a: "on_close C (originalHandler na) (ext s) = (ea, xa)" by fastforce
  obtain eb xb where b: "on_close C (originalHandler nb) xa = (eb, xb)" by fastforce
  show ?thesis
    using assms a b by (simp add: close_at_def GetNodeHandler_def RemoveNodeHandler_def none_left_def)
qed

end
