(* ===== verification/Fair_Runs.thy ===== *)
theory Fair_Runs
  imports Main
begin

text \<open>
  Infinite runs of a step relation, weak fairness, and the contract of one stage of a liveness argument
  (\<open>fair_stage\<close>): each interpretation of it says that the program gets from one situation to the next.
\<close>

section \<open>Fair runs\<close>

definition run_of :: "('s \<Rightarrow> 's \<Rightarrow> bool) \<Rightarrow> (nat \<Rightarrow> 's) \<Rightarrow> bool" where
  "run_of step r \<longleftrightarrow> (\<forall>i. r (Suc i) = r i \<or> step (r i) (r (Suc i)))"

text \<open>An action that can be taken from some moment on is taken.\<close>

definition weakly_fair :: "('s \<Rightarrow> 's \<Rightarrow> bool) \<Rightarrow> (nat \<Rightarrow> 's) \<Rightarrow> bool" where
  "weakly_fair act r \<longleftrightarrow> (\<forall>i. (\<forall>j \<ge> i. \<exists>t. act (r j) t) \<longrightarrow> (\<exists>j \<ge> i. act (r j) (r (Suc j))))"

text \<open>
  A stage of a run: while \<open>P\<close> holds the action can be taken, it brings the stage nearer to its end \<open>Q\<close>, and
  no other step sets it back.
\<close>

locale fair_stage =
  fixes step act :: "'s \<Rightarrow> 's \<Rightarrow> bool" and P Q :: "'s \<Rightarrow> bool" and rank :: "'s \<Rightarrow> nat"
  assumes keeps: "P s \<Longrightarrow> step s t \<Longrightarrow> Q t \<or> P t \<and> rank t \<le> rank s"
    and helps: "P s \<Longrightarrow> act s t \<Longrightarrow> Q t \<or> rank t < rank s"
    and able: "P s \<Longrightarrow> \<exists>t. act s t"
begin

lemma stays:
  assumes "run_of step r" "P (r i)" "\<forall>j \<ge> i. \<not> Q (r j)"
  shows "P (r (i + k)) \<and> rank (r (i + k)) \<le> rank (r i)"
proof (induction k)
  case (Suc k)
  moreover have "r (Suc (i + k)) = r (i + k) \<or> step (r (i + k)) (r (Suc (i + k)))"
    using assms(1) by (simp add: run_of_def)
  ultimately show ?case using keeps [of "r (i + k)" "r (Suc (i + k))"] assms(3) by fastforce
qed (use assms(2) in simp)

lemma leads_to:
  assumes "run_of step r" "weakly_fair act r" "P (r i)"
  shows "\<exists>j \<ge> i. Q (r j)"
  using assms(3)
proof (induction "rank (r i)" arbitrary: i rule: less_induct)
  case less
  show ?case
  proof (rule ccontr)
    assume "\<nexists>j. i \<le> j \<and> Q (r j)"
    then have no: "\<forall>j \<ge> i. \<not> Q (r j)" by blast
    have P: "P (r j) \<and> rank (r j) \<le> rank (r i)" if "i \<le> j" for j
      using stays [OF assms(1) less.prems no, of "j - i"] that by simp
    then obtain j where j: "i \<le> j" "act (r j) (r (Suc j))"
      using assms(2) able unfolding weakly_fair_def by blast
    with P [of j] P [of "Suc j"] helps [of "r j" "r (Suc j)"] no
    have "rank (r (Suc j)) < rank (r i)" "P (r (Suc j))" by fastforce+
    from less.hyps [OF this] no j(1) show False by fastforce
  qed
qed

end

lemma run_of_from:
  assumes "run_of step r" "\<And>j. i \<le> j \<Longrightarrow> step (r j) (r (Suc j)) \<Longrightarrow> step' (r j) (r (Suc j))"
  shows "run_of step' (\<lambda>j. r (i + j))"
  unfolding run_of_def
proof
  fix j
  from assms(1) have "r (Suc (i + j)) = r (i + j) \<or> step (r (i + j)) (r (Suc (i + j)))" unfolding run_of_def by blast
  with assms(2) [of "i + j"] show "r (i + Suc j) = r (i + j) \<or> step' (r (i + j)) (r (i + Suc j))" by auto
qed

lemma weakly_fair_from:
  assumes "weakly_fair act r"
  shows "weakly_fair act (\<lambda>j. r (k + j))"
  unfolding weakly_fair_def
proof (intro allI impI)
  fix i
  assume able: "\<forall>j \<ge> i. \<exists>t. act (r (k + j)) t"
  have "\<exists>t. act (r j) t" if "k + i \<le> j" for j
  proof -
    have "i \<le> j - k" "k + (j - k) = j" using that by simp_all
    with able show ?thesis by metis
  qed
  with assms obtain j where "k + i \<le> j" "act (r j) (r (Suc j))" unfolding weakly_fair_def by blast
  then have "i \<le> j - k" "act (r (k + (j - k))) (r (k + Suc (j - k)))" by simp_all
  then show "\<exists>j \<ge> i. act (r (k + j)) (r (k + Suc j))" by blast
qed

end
