(* ===== verification/Handshake.thy ===== *)
theory Handshake
  imports Node_Server_Props
begin

text \<open>
  The start of a connection (\<^verbatim>\<open>Init\<close> in \<^verbatim>\<open>runtime/grpc.go\<close>).  \<^verbatim>\<open>Init\<close> returns at once and leaves the negotiation
  of the capabilities to a goroutine, which closes the channel \<^verbatim>\<open>initReady\<close> at its end; creating a node,
  setting one up and telling the capabilities wait for that channel, the other calls do not.  A channel
  is a number, and a closed one lets everybody pass.  \<^verbatim>\<open>defer close(initReady)\<close> takes the channel when
  the goroutine starts to run, not when it is started.
\<close>

section \<open>The connection\<close>

datatype routine = Spawned | Fetching nat | Closing nat | Finished

record 'e conn =
  node_srv :: "'e server"
  initReady :: "nat option"
  made :: nat
  closed :: "nat set"
  routines :: "routine list"
  panic :: "string option"

definition new_conn :: "'e server \<Rightarrow> 'e conn" where
  "new_conn s = \<lparr>node_srv = s, initReady = None, made = 0, closed = {}, routines = [], panic = None\<rparr>"

text \<open>\<^verbatim>\<open><-initReady\<close>; receiving from the nil channel blocks for ever.\<close>

definition ready :: "'e conn \<Rightarrow> bool" where
  "ready h \<longleftrightarrow> (\<exists>c. initReady h = Some c \<and> c \<in> closed h)"

definition rpc_GetCapabilities :: "'e conn \<Rightarrow> 64 word option" where
  "rpc_GetCapabilities h = (if ready h then Some (packageCapabilities (capsOf (node_srv h))) else None)"

definition conn_Init :: "error option \<Rightarrow> error option \<Rightarrow> error option \<Rightarrow> string \<Rightarrow> 'e conn \<Rightarrow> error option \<times> 'e conn" where
  "conn_Init dial_err enc_err dec_err cfg h = (case Init dial_err enc_err dec_err cfg (node_srv h) of
     (Some e, s) \<Rightarrow> (Some e, h\<lparr>node_srv := s\<rparr>)
   | (None, s) \<Rightarrow> (None, h\<lparr>node_srv := s, initReady := Some (made h), made := Suc (made h), routines := routines h @ [Spawned]\<rparr>))"

text \<open>What a goroutine does next; \<open>fetch\<close> is the host's answer.  Closing a closed channel panics.\<close>

definition routine_step :: "(string \<times> goval) list res \<Rightarrow> nat \<Rightarrow> 'e conn \<Rightarrow> 'e conn" where
  "routine_step fetch i h = (case routines h ! i of
     Spawned \<Rightarrow> (case initReady h of None \<Rightarrow> h | Some c \<Rightarrow> h\<lparr>routines := (routines h)[i := Fetching c]\<rparr>)
   | Fetching c \<Rightarrow> h\<lparr>node_srv := init_goroutine fetch (node_srv h), routines := (routines h)[i := Closing c]\<rparr>
   | Closing c \<Rightarrow>
       if c \<in> closed h then h\<lparr>panic := Some ''close of closed channel''\<rparr>
       else h\<lparr>closed := insert c (closed h), routines := (routines h)[i := Finished]\<rparr>
   | Finished \<Rightarrow> h)"

text \<open>The calls of the robot on its nodes; some wait for the channel.\<close>

inductive conn_call :: "lib \<Rightarrow> platform \<Rightarrow> 'e node_code \<Rightarrow> (bytes \<Rightarrow> bytes res) \<Rightarrow> 'e conn \<Rightarrow> 'e conn \<Rightarrow> bool"
  for L pf C dec where
  create: "ready h \<Longrightarrow> OnCreate L C name config (node_srv h) = Return (r, s) \<Longrightarrow> conn_call L pf C dec h (h\<lparr>node_srv := s\<rparr>)"
| create_panic: "ready h \<Longrightarrow> OnCreate L C name config (node_srv h) = Panic p \<Longrightarrow> conn_call L pf C dec h (h\<lparr>panic := Some p\<rparr>)"
| pairing: "ready h \<Longrightarrow> OnSetup L C name config sid (node_srv h) = (r, s) \<Longrightarrow> conn_call L pf C dec h (h\<lparr>node_srv := s\<rparr>)"
| message: "OnMessage n L pf C dec guid inMessage (node_srv h) = Some (r, s) \<Longrightarrow> conn_call L pf C dec h (h\<lparr>node_srv := s\<rparr>)"
| close: "OnClose C guid (node_srv h) = (r, s) \<Longrightarrow> conn_call L pf C dec h (h\<lparr>node_srv := s\<rparr>)"

inductive conn_step :: "lib \<Rightarrow> platform \<Rightarrow> 'e node_code \<Rightarrow> (bytes \<Rightarrow> bytes res) \<Rightarrow> 'e conn \<Rightarrow> 'e conn \<Rightarrow> bool"
  for L pf C dec where
  init: "panic h = None \<Longrightarrow> conn_Init de ee ze cfg h = (r, h') \<Longrightarrow> conn_step L pf C dec h h'"
| routine: "panic h = None \<Longrightarrow> i < length (routines h) \<Longrightarrow> conn_step L pf C dec h (routine_step fetch i h)"
| call: "panic h = None \<Longrightarrow> conn_call L pf C dec h h' \<Longrightarrow> conn_step L pf C dec h h'"

section \<open>Nodes see negotiated capabilities\<close>

lemma rpc_caps: "rpc L pf C dec s s' \<Longrightarrow> capsOf s' = capsOf s"
proof (erule rpcE)
  fix n guid m r
  assume "OnMessage n L pf C dec guid m s = Some (r, s')"
  then have "same_registry s s'" using OnMessage_same by (cases r) blast
  then show ?thesis by (simp add: same_registry_def)
next
  fix name config r
  assume "OnCreate L C name config s = Return (r, s')"
  then show ?thesis
    by (auto simp: OnCreate_def factory_OnCreate_def AddNodeHandler_def split: option.splits prod.splits sum.splits)
next
  fix guid r
  assume "OnClose C guid s = (r, s')"
  then show ?thesis by (auto simp: OnClose_def RemoveNodeHandler_def Let_def split: option.splits prod.splits if_splits)
next
  fix name config sid r
  assume "OnSetup L C name config sid s = (r, s')"
  then show ?thesis
    by (auto simp: OnSetup_def factory_OnCreate_def AddNodeHandler_def RemoveNodeHandler_def Let_def
        split: option.splits prod.splits sum.splits)
qed

definition no_handlers :: "'e server \<Rightarrow> bool" where
  "no_handlers s \<longleftrightarrow> handlers s = Map.empty"

lemma no_handlers_init: "Init de ee ze cfg s = (r, s') \<Longrightarrow> handlers s' = handlers s \<and> capsOf s' = capsOf s"
  by (auto simp: Init_def split: option.splits)

lemma no_handlers_goroutine: "handlers (init_goroutine fetch s) = handlers s"
  by (auto simp: init_goroutine_def GetRobotInfo_def Let_def split: prod.splits sum.splits option.splits if_splits)

lemma no_handlers_calls:
  "OnMessage n L pf C dec guid m s = Some (r, s') \<Longrightarrow> no_handlers s \<Longrightarrow> no_handlers s'"
  "OnClose C guid s = (e, s') \<Longrightarrow> no_handlers s \<Longrightarrow> no_handlers s'"
proof -
  show "no_handlers s'" if "OnMessage n L pf C dec guid m s = Some (r, s')" "no_handlers s"
  proof -
    have "same_registry s s'" using OnMessage_same that(1) by (cases r) blast
    with that(2) show ?thesis by (simp add: same_registry_def no_handlers_def)
  qed
  show "OnClose C guid s = (e, s') \<Longrightarrow> no_handlers s \<Longrightarrow> no_handlers s'"
    by (auto simp: OnClose_def GetNodeHandler_def no_handlers_def)
qed

text \<open>A connection that was initialised at most once: no node is there before the goroutine is finished.\<close>

definition idle :: "'e conn \<Rightarrow> bool" where
  "idle h \<longleftrightarrow> no_handlers (node_srv h) \<and> closed h = {}"

definition once :: "'e conn \<Rightarrow> bool" where
  "once h \<longleftrightarrow> panic h \<noteq> Some ''close of closed channel'' \<and>
     (routines h = [] \<and> made h = 0 \<and> initReady h = None \<and> idle h
      \<or> routines h \<in> {[Spawned], [Fetching 0], [Closing 0]} \<and> made h = 1 \<and> initReady h = Some 0 \<and> idle h
      \<or> routines h = [Finished] \<and> made h = 1 \<and> initReady h = Some 0 \<and> closed h = {0})"

lemma onceE:
  assumes "once h"
  obtains (fresh) "routines h = []" "made h = 0" "initReady h = None" "idle h" "panic h \<noteq> Some ''close of closed channel''"
  | (spawned) "routines h = [Spawned]" "made h = 1" "initReady h = Some 0" "idle h" "panic h \<noteq> Some ''close of closed channel''"
  | (fetching) "routines h = [Fetching 0]" "made h = 1" "initReady h = Some 0" "idle h" "panic h \<noteq> Some ''close of closed channel''"
  | (closing) "routines h = [Closing 0]" "made h = 1" "initReady h = Some 0" "idle h" "panic h \<noteq> Some ''close of closed channel''"
  | (finished) "routines h = [Finished]" "made h = 1" "initReady h = Some 0" "closed h = {0}" "panic h \<noteq> Some ''close of closed channel''"
  using assms unfolding once_def insert_iff empty_iff by (elim conjE disjE) simp_all

lemma once_ready: "once h \<Longrightarrow> ready h \<longleftrightarrow> routines h = [Finished]"
  by (erule onceE) (simp_all add: ready_def idle_def)

lemma conn_call_keeps: "conn_call L pf C dec h h' \<Longrightarrow> made h' = made h \<and> routines h' = routines h \<and> capsOf (node_srv h') = capsOf (node_srv h)"
  by (induction rule: conn_call.induct) (auto dest: rpc.intros [THEN rpc_caps])

lemma conn_step_made: "conn_step L pf C dec h h' \<Longrightarrow> made h \<le> made h'"
  by (induction rule: conn_step.induct)
    (auto simp: conn_Init_def routine_step_def conn_call_keeps split: prod.splits option.splits routine.splits)

lemma OnCreate_not_closed: "OnCreate L C name config s = Panic p \<Longrightarrow> p \<noteq> ''close of closed channel''"
  by (auto simp: OnCreate_def split: option.splits prod.splits)

lemma once_routine: "once h \<Longrightarrow> i < length (routines h) \<Longrightarrow> once (routine_step fetch i h)"
  by (erule onceE) (simp_all add: once_def idle_def routine_step_def no_handlers_def no_handlers_goroutine)

lemma once_srv:
  assumes "once h" "(no_handlers (node_srv h) \<longrightarrow> no_handlers s) \<or> ready h"
  shows "once (h\<lparr>node_srv := s\<rparr>)"
  using assms(1) by (rule onceE) (use assms(2) in \<open>simp_all add: once_def idle_def ready_def\<close>)

lemma once_init:
  assumes "once h" "conn_Init de ee ze cfg h = (r, h')" "made h' \<le> 1"
  shows "once h' \<and> capsOf (node_srv h') = capsOf (node_srv h) \<and> (routines h = [Finished] \<longrightarrow> routines h' = [Finished])"
proof -
  obtain r' s where i: "Init de ee ze cfg (node_srv h) = (r', s)" by fastforce
  note s = no_handlers_init [OF i]
  show ?thesis
  proof (cases r')
    case None
    with assms(2,3) i have "made h = 0" and h': "h' = h\<lparr>node_srv := s, initReady := Some 0, made := 1, routines := routines h @ [Spawned]\<rparr>"
      by (auto simp: conn_Init_def)
    from assms(1) \<open>made h = 0\<close> have "routines h = []" "idle h" "panic h \<noteq> Some ''close of closed channel''"
      by (auto elim: onceE)
    with h' s show ?thesis by (simp add: once_def idle_def no_handlers_def)
  next
    case (Some e)
    with assms(2) i have "h' = h\<lparr>node_srv := s\<rparr>" by (simp add: conn_Init_def)
    with s once_srv [OF assms(1), of s] show ?thesis by (simp add: no_handlers_def)
  qed
qed

lemma once_call: "conn_call L pf C dec h h' \<Longrightarrow> once h \<Longrightarrow> once h'"
proof (induction rule: conn_call.induct)
  case (create_panic h name config p)
  then show ?case using create_panic.prems(1) OnCreate_not_closed [OF create_panic.hyps(2)]
    by (simp add: once_def idle_def)
next
  case (message n guid m h r s)
  then show ?case using once_srv [OF message.prems(1), of s] no_handlers_calls(1) [OF message.hyps(1)] by blast
next
  case (close guid h r s)
  then show ?case using once_srv [OF close.prems(1), of s] no_handlers_calls(2) [OF close.hyps(1)] by blast
qed (simp_all add: once_srv)

text \<open>From the moment the channel is closed the capabilities stay.\<close>

lemma once_step:
  assumes "conn_step L pf C dec h h'" "once h" "made h' \<le> 1"
  shows "once h' \<and> (routines h = [Finished] \<longrightarrow> routines h' = [Finished] \<and> capsOf (node_srv h') = capsOf (node_srv h))"
  using assms
proof (induction rule: conn_step.induct)
  case init
  then show ?case using once_init by blast
next
  case (routine h i fetch)
  then have "routines h = [Finished] \<Longrightarrow> routine_step fetch i h = h" by (simp add: routine_step_def)
  with routine show ?case by (auto simp: once_routine)
next
  case call
  then show ?case using once_call conn_call_keeps by metis
qed

lemma once_star:
  assumes "(conn_step L pf C dec)\<^sup>*\<^sup>* h h'" "once h" "made h' \<le> 1"
  shows "once h' \<and> (routines h = [Finished] \<longrightarrow> routines h' = [Finished] \<and> capsOf (node_srv h') = capsOf (node_srv h))"
  using assms(1,3)
proof (induction rule: rtranclp_induct)
  case base
  then show ?case using assms(2) by simp
next
  case (step y z)
  have "made y \<le> 1" using conn_step_made [OF step.hyps(2)] step.prems by simp
  with step.IH have y: "once y" "routines h = [Finished] \<longrightarrow> routines y = [Finished] \<and> capsOf (node_srv y) = capsOf (node_srv h)"
    by simp_all
  with once_step [OF step.hyps(2) y(1) step.prems] show ?case by auto
qed

text \<open>
  C12. No node exists before the capabilities are negotiated: on a connection that is initialised once, however
  the calls of the robot and the goroutine of \<^verbatim>\<open>Init\<close> interleave and whatever the robot answers, from the
  moment a node is registered the goroutine has finished, the capabilities never change again, so all
  messages of all nodes are packed under the same ones, and every question for them is answered.
\<close>

theorem nodes_see_negotiated_capabilities:
  assumes "handlers s = Map.empty" "(conn_step L pf C dec)\<^sup>*\<^sup>* (new_conn s) h" "handlers (node_srv h) g = Some nh"
    and "(conn_step L pf C dec)\<^sup>*\<^sup>* h h'" "made h' \<le> 1"
  shows "routines h = [Finished] \<and> panic h' \<noteq> Some ''close of closed channel'' \<and> capsOf (node_srv h') = capsOf (node_srv h)
    \<and> rpc_GetCapabilities h' = Some (packageCapabilities (capsOf (node_srv h)))"
proof -
  have "made a \<le> made b" if "(conn_step L pf C dec)\<^sup>*\<^sup>* a b" for a b
    using that by (induction rule: rtranclp_induct) (auto dest: conn_step_made)
  then have m: "made h \<le> 1" using assms(4,5) by (meson order_trans)
  have "once (new_conn s)" using assms(1) by (simp add: once_def new_conn_def idle_def no_handlers_def)
  from once_star [OF assms(2) this m] have h: "once h" by simp
  then have f: "routines h = [Finished]" using assms(3) by (auto simp: idle_def no_handlers_def elim: onceE)
  from once_star [OF assms(4) h assms(5)] f
  have h': "once h'" "routines h' = [Finished]" "capsOf (node_srv h') = capsOf (node_srv h)" by simp_all
  with f once_ready [OF h'(1)] show ?thesis by (auto simp: rpc_GetCapabilities_def once_def)
qed

lemma OnCreate_demo:
  assumes "factories s ''N'' = Some ''T''"
  shows "OnCreate text_lib demo_code ''N'' (demo_cfg ''a'') s
    = Return (None, AddNodeHandler demo_code (demo_node ''a'') 3 s\<lparr>nc := nc s + 1\<rparr>)"
proof -
  have "handlers (AddNodeHandler demo_code (demo_node ''a'') 3 s) ''a''
      = Some \<lparr>nhNode = demo_node ''a'', originalHandler = 3, hasTool = False\<rparr>"
    by (simp add: AddNodeHandler_def demo_code_sel)
  then show ?thesis using assms
    by (simp add: OnCreate_def GetNodeFactory_def GetNodeHandler_def factory_OnCreate_def demo_code_sel AddNodeHandler_def)
qed

text \<open>A whole handshake: \<^verbatim>\<open>Init\<close>, the goroutine with what the robot answers, and a node.\<close>

definition after_init :: "'e conn \<Rightarrow> 'e conn" where
  "after_init h = snd (conn_Init None None None [] h)"

definition demo_settled :: "(string \<times> goval) list res \<Rightarrow> unit conn" where
  "demo_settled f = routine_step f 0 (routine_step f 0 (routine_step f 0 (after_init (new_conn (demo_server None)))))"

lemma init_reached: "(conn_step L pf C dec)\<^sup>*\<^sup>* h0 h \<Longrightarrow> panic h = None \<Longrightarrow> (conn_step L pf C dec)\<^sup>*\<^sup>* h0 (after_init h)"
  by (erule rtranclp.rtrancl_into_rtrancl, rule conn_step.init [of _ None None None "[]" "fst (conn_Init None None None [] h)"])
    (simp_all add: after_init_def)

lemma routine_reached: "(conn_step L pf C dec)\<^sup>*\<^sup>* h0 h \<Longrightarrow> panic h = None \<Longrightarrow> i < length (routines h) \<Longrightarrow>
    (conn_step L pf C dec)\<^sup>*\<^sup>* h0 (routine_step f i h)"
  by (erule rtranclp.rtrancl_into_rtrancl) (rule conn_step.routine)

lemmas handshake_defs = routine_step_def after_init_def conn_Init_def new_conn_def Init_def

lemma demo_settled_sel:
  "node_srv (demo_settled f) = init_goroutine f (snd (Init None None None [] (demo_server None)))"
  "routines (demo_settled f) = [Finished]" "panic (demo_settled f) = None" "ready (demo_settled f)" "made (demo_settled f) = 1"
  by (simp_all add: demo_settled_def handshake_defs ready_def)

lemma demo_settled_reached: "(conn_step L pf demo_code dec)\<^sup>*\<^sup>* (new_conn (demo_server None)) (demo_settled f)"
  unfolding demo_settled_def
  by (intro routine_reached init_reached rtranclp.rtrancl_refl) (simp_all add: handshake_defs)

lemma nodes_see_negotiated_capabilities_witness:
  "\<exists>h. (conn_step text_lib Posix demo_code Inr)\<^sup>*\<^sup>* (new_conn (demo_server None)) h \<and> handlers (node_srv h) ''a'' \<noteq> None
    \<and> rpc_GetCapabilities h = Some (packageCapabilities (capsOf (node_srv h)))"
proof -
  let ?f = "Inl (Errorf ''robot'') :: (string \<times> goval) list res"
  let ?s = "node_srv (demo_settled ?f)"
  let ?h = "demo_settled ?f\<lparr>node_srv := AddNodeHandler demo_code (demo_node ''a'') 3 ?s\<lparr>nc := nc ?s + 1\<rparr>\<rparr>"
  have "factories ?s ''N'' = Some ''T''"
    by (simp add: demo_settled_sel Init_def init_goroutine_def GetRobotInfo_def demo_server_def)
  then have "conn_step text_lib Posix demo_code Inr (demo_settled ?f) ?h"
    by (intro conn_step.call conn_call.create [OF _ OnCreate_demo] demo_settled_sel)
  with demo_settled_reached have r: "(conn_step text_lib Posix demo_code Inr)\<^sup>*\<^sup>* (new_conn (demo_server None)) ?h"
    by (rule rtranclp.rtrancl_into_rtrancl)
  have a: "handlers (node_srv ?h) ''a'' = Some \<lparr>nhNode = demo_node ''a'', originalHandler = 3, hasTool = False\<rparr>"
    by (simp add: AddNodeHandler_def demo_code_sel)
  have "handlers (demo_server None) = Map.empty" "made ?h \<le> 1" by (simp_all add: demo_server_def demo_settled_sel)
  from nodes_see_negotiated_capabilities [OF this(1) r a rtranclp.rtrancl_refl this(2)] r a show ?thesis by blast
qed

text \<open>
  Once is not enforced: when \<^verbatim>\<open>Init\<close> is called again before the first goroutine runs, both goroutines defer the
  closing of the second channel, and the second to do so panics.
\<close>

definition two_inits :: "(string \<times> goval) list res \<Rightarrow> 'e server \<Rightarrow> 'e conn" where
  "two_inits f s = (let r = routine_step f in
     r 1 (r 1 (r 1 (r 0 (r 0 (r 0 (after_init (after_init (new_conn s)))))))))"

lemma second_Init_crashes:
  "(conn_step L pf C dec)\<^sup>*\<^sup>* (new_conn s) (two_inits f s)" (is ?reached)
  "panic (two_inits f s) = Some ''close of closed channel''"
proof -
  show ?reached unfolding two_inits_def Let_def
    by (intro routine_reached init_reached rtranclp.rtrancl_refl) (simp_all add: handshake_defs)
  show "panic (two_inits f s) = Some ''close of closed channel''" by (simp add: two_inits_def handshake_defs)
qed

end
