(* ===== verification/Struct_Value.thy ===== *)
theory Struct_Value
  imports Lmo_Store
begin

text \<open>
  \<^verbatim>\<open>runtime/struct.go\<close>: Go values to protobuf values and back, the encoding of every variable the runtime
  sends to the host.  \<open>rval\<close> is a value as the \<^verbatim>\<open>reflect\<close> package sees it; \<open>RIface\<close> is a value of interface
  kind, which is what the elements of an \<^verbatim>\<open>[]interface{}\<close> and of a \<^verbatim>\<open>map[string]interface{}\<close> are.
  \<open>pbval option\<close> is a \<^verbatim>\<open>*structpb.Value\<close>.  The function \<open>sprint\<close> is \<^verbatim>\<open>fmt.Sprint\<close>.
\<close>

datatype rval =
    RBool bool
  | RInt int                                   \<comment> \<open>any signed kind\<close>
  | RUint nat                                  \<comment> \<open>any unsigned kind\<close>
  | RFloat rat
  | RStr string
  | RErr string                                \<comment> \<open>an error, with its text; only the type switch of ToValue sees it\<close>
  | RPtr "rval option"
  | RList "rval list"                          \<comment> \<open>array or slice\<close>
  | RStruct "(string \<times> rval) list"
  | RMap "(string option \<times> rval) list"        \<comment> \<open>None is a key that is no string\<close>
  | RIface "rval option"
  | ROther                                     \<comment> \<open>functions, channels and the like\<close>

datatype pbval =
    PNull
  | PBool bool
  | PNum rat
  | PStr string
  | PList "pbval option list"
  | PStruct "(string \<times> pbval option) list"

section \<open>From protobuf\<close>

text \<open>A protobuf null is the enum value \<^verbatim>\<open>structpb.NullValue\<close>, which is not nil.\<close>

fun convert :: "pbval option \<Rightarrow> goval" where
  "convert None = GNil"
| "convert (Some (PBool b)) = GBool b"
| "convert (Some (PList vs)) = GList (map convert vs)"
| "convert (Some PNull) = GOther ''structpb.NullValue''"
| "convert (Some (PNum r)) = GFloat r"
| "convert (Some (PStr s)) = GStr s"
| "convert (Some (PStruct fs)) = GMap (map (\<lambda>(k, v). (k, convert v)) fs)"

text \<open>A nil message panics; a missing field \<^verbatim>\<open>value\<close> is the nil value.\<close>

definition parseStruct :: "(string \<times> pbval option) list option \<Rightarrow> goval outcome" where
  "parseStruct d = (case d of
     None \<Rightarrow> Panic ''nil pointer dereference''
   | Some flds \<Rightarrow> Return (convert (case map_of flds ''value'' of None \<Rightarrow> None | Some v \<Rightarrow> v)))"

section \<open>To protobuf\<close>

definition is_exported :: "string \<Rightarrow> bool" where
  "is_exported n \<longleftrightarrow> n \<noteq> [] \<and> 65 \<le> (of_char (hd n) :: nat) \<and> (of_char (hd n) :: nat) \<le> 90"

lemma size_filter_member:
  "(k, v) \<in> set (filter P xs) \<Longrightarrow> size (v :: rval) < Suc (size_list (size_prod (\<lambda>_. 0) size) xs)"
  by (induction xs) (auto split: if_splits)

function (sequential) toValue :: "(rval \<Rightarrow> string) \<Rightarrow> rval \<Rightarrow> pbval option" where
  "toValue sprint (RBool b) = Some (PBool b)"
| "toValue sprint (RInt i) = Some (PNum (round_f64 i))"
| "toValue sprint (RUint n) = Some (PNum (round_f64 (int n)))"
| "toValue sprint (RFloat r) = Some (PNum r)"
| "toValue sprint (RPtr None) = None"
| "toValue sprint (RPtr (Some v)) = toValue sprint v"
| "toValue sprint (RList vs) = (if vs = [] then None else Some (PList (map (toValue sprint) vs)))"
| "toValue sprint (RStruct fs) =
     (let ex = filter (\<lambda>(n, v). is_exported n) fs in
      if ex = [] then None else Some (PStruct (map (\<lambda>(n, v). (n, toValue sprint v)) ex)))"
| "toValue sprint (RMap kvs) =
     (let ex = filter (\<lambda>(k, v). k \<noteq> None) kvs in
      if ex = [] then None else Some (PStruct (map (\<lambda>(k, v). (the k, toValue sprint v)) ex)))"
| "toValue sprint v = Some (PStr (sprint v))"
  by pat_completeness auto

termination
  by (relation "measure (size \<circ> snd)")
    (auto simp: size_list_estimation' less_Suc_eq_le dest!: size_filter_member intro: size_list_estimation')

text \<open>The type switch of \<^verbatim>\<open>ToValue\<close>; its default goes to reflection, which unwraps the interface.\<close>

fun ToValue :: "(rval \<Rightarrow> string) \<Rightarrow> rval option \<Rightarrow> pbval option" where
  "ToValue sprint None = None"
| "ToValue sprint (Some (RStr s)) = Some (PStr s)"
| "ToValue sprint (Some (RErr m)) = Some (PStr m)"
| "ToValue sprint (Some v) = toValue sprint v"

section \<open>What survives the way to the host and back\<close>

text \<open>
  Values that survive: numbers within float64 precision, strings, non-empty typed lists, structs with an
  exported field, and maps from strings, without interface elements, nil pointers or empty containers.
\<close>

lemma size_pair_member: "f \<in> set xs \<Longrightarrow> size (snd f :: rval) < Suc (size_list (size_prod (\<lambda>_. 0) size) xs)"
  by (induction xs) auto

function (sequential) plain :: "rval \<Rightarrow> bool" where
  "plain (RBool b) = True"
| "plain (RInt i) = (\<bar>i\<bar> \<le> 2 ^ 53)"
| "plain (RUint n) = (n \<le> 2 ^ 53)"
| "plain (RFloat r) = True"
| "plain (RStr s) = True"
| "plain (RPtr (Some v)) = plain v"
| "plain (RList vs) = (vs \<noteq> [] \<and> (\<forall>v \<in> set vs. plain v))"
| "plain (RStruct fs) = (fs \<noteq> [] \<and> (\<forall>f \<in> set fs. is_exported (fst f) \<and> plain (snd f)))"
| "plain (RMap kvs) = (kvs \<noteq> [] \<and> (\<forall>kv \<in> set kvs. fst kv \<noteq> None \<and> plain (snd kv)))"
| "plain v = False"
  by pat_completeness auto

termination
  by (relation "measure size") (auto simp: less_Suc_eq_le size_pair_member intro: size_list_estimation' dest!: size_pair_member)

function (sequential) meaning :: "rval \<Rightarrow> goval" where
  "meaning (RBool b) = GBool b"
| "meaning (RInt i) = GFloat (of_int i)"
| "meaning (RUint n) = GFloat (of_nat n)"
| "meaning (RFloat r) = GFloat r"
| "meaning (RStr s) = GStr s"
| "meaning (RPtr (Some v)) = meaning v"
| "meaning (RList vs) = GList (map meaning vs)"
| "meaning (RStruct fs) = GMap (map (\<lambda>f. (fst f, meaning (snd f))) fs)"
| "meaning (RMap kvs) = GMap (map (\<lambda>kv. (the (fst kv), meaning (snd kv))) kvs)"
| "meaning v = GNil"
  by pat_completeness auto

termination
  by (relation "measure size") (auto simp: less_Suc_eq_le size_pair_member intro: size_list_estimation' dest!: size_pair_member)

text \<open>
  C20. A plain value comes back from the host as the generic value of the same meaning: \<^verbatim>\<open>convert\<close>
  undoes \<^verbatim>\<open>toValue\<close>, integers becoming float64.
\<close>

theorem toValue_convert:
  assumes "\<And>s. sprint (RStr s) = s" "plain v"
  shows "convert (toValue sprint v) = meaning v"
  using assms(2)
proof (induction v rule: plain.induct)
  case (8 fs)
  then have "filter (\<lambda>(n, v). is_exported n) fs = fs" by (auto simp: filter_id_conv)
  with 8 show ?case by (auto simp: Let_def)
next
  case (9 kvs)
  then have "filter (\<lambda>(k, v). k \<noteq> None) kvs = kvs" by (auto simp: filter_id_conv)
  with 9 show ?case by (auto simp: Let_def)
qed (auto simp: round_f64_exact assms(1))

theorem toValue_convert_witness:
  "convert (toValue (\<lambda>v. case v of RStr s \<Rightarrow> s | _ \<Rightarrow> ''?'') (RStruct [(''Count'', RInt 7), (''Tags'', RList [RStr ''a''])]))
     = GMap [(''Count'', GFloat 7), (''Tags'', GList [GStr ''a''])]"
  using toValue_convert [of "\<lambda>v. case v of RStr s \<Rightarrow> s | _ \<Rightarrow> ''?''" "RStruct [(''Count'', RInt 7), (''Tags'', RList [RStr ''a''])]"]
  by (simp add: is_exported_def)

text \<open>
  The elements of a generic map or list arrive at the host as text: they are of interface kind,
  which \<^verbatim>\<open>toValue\<close> has no case for, so each is printed.  In particular a blob marker, as \<^verbatim>\<open>PackValue\<close>
  makes it, is no marker any more when the variable is read back: its magic number is a string.
\<close>

theorem interface_elements_printed:
  assumes "kvs \<noteq> []"
  shows "convert (ToValue sprint (Some (RMap (map (\<lambda>(k, v). (Some k, RIface v)) kvs))))
      = GMap (map (\<lambda>(k, v). (k, GStr (sprint (RIface v)))) kvs)
    \<and> \<not> IsBlobRefMap (convert (ToValue sprint (Some (RMap (map (\<lambda>(k, v). (Some k, RIface v)) kvs)))))"
proof -
  have f: "filter (\<lambda>(k, v). k \<noteq> None) (map (\<lambda>(k, v). (Some k, RIface v)) kvs) = map (\<lambda>(k, v). (Some k, RIface v)) kvs"
    by (auto simp: filter_id_conv)
  have e: "convert (ToValue sprint (Some (RMap (map (\<lambda>(k, v). (Some k, RIface v)) kvs))))
      = GMap (map (\<lambda>(k, v). (k, GStr (sprint (RIface v)))) kvs)"
    using assms by (simp add: f Let_def comp_def split_def)
  have "as_float (map_get (map (\<lambda>(k, v). (k, GStr (sprint (RIface v)))) kvs) k) = None" for k
    by (auto simp: map_get_def split: option.splits dest!: map_of_SomeD)
  then show ?thesis unfolding e by (simp add: IsBlobRefMap_def trunc_f64_def Magic_def Let_def)
qed

theorem interface_elements_printed_witness:
  "\<not> IsBlobRefMap (convert (ToValue (\<lambda>v. ''20260301'') (Some (RMap
      (map (\<lambda>(k, v). (Some k, RIface v)) [(''__ref'', Some (RStr ''xxh3:ab'')), (''__magic'', Some (RFloat 20260301))])))))"
  by (rule conjunct2 [OF interface_elements_printed]) simp

end
