(* ===== verification/Variables.thy ===== *)
theory Variables
  imports Lmo_Runtime Spec_Tags Struct_Value
begin

text \<open>
  \<^verbatim>\<open>runtime/variable.go\<close> and \<^verbatim>\<open>runtime/credential.go\<close>: how a node reads its typed inputs and writes its
  outputs.  The type parameter \<open>T\<close> is a \<open>gotype\<close>, a value of type \<open>T\<close> a \<open>tval\<close>.  A call of \<^verbatim>\<open>reflect\<close> on
  a value of the wrong kind panics.  Reflection-based decoding into \<open>T\<close> (\<^verbatim>\<open>json.Unmarshal\<close> of user types),
  \<^verbatim>\<open>strconv.ParseFloat\<close>, float32 rounding, the host and \<^verbatim>\<open>mapstructure\<close> are parameters (\<open>venv\<close>).
\<close>

datatype tval =
    VZero gotype
  | VBool bool
  | VInt int
  | VFloat rat
  | VStr string
  | VPtr tval
  | VSlice "tval list"
  | VDyn goval          \<comment> \<open>a generic value, as \<^verbatim>\<open>json.Unmarshal\<close> or the host made it\<close>

record vname =
  vScope :: string
  vName :: goval

record venv =
  vlib :: lib
  vjson :: json_lib
  vplat :: platform
  unmarshal_into :: "gotype \<Rightarrow> bytes \<Rightarrow> tval res"
  pfloat :: "string \<Rightarrow> rat res"
  to_f32 :: "rat \<Rightarrow> rat"
  host_get :: "(string \<Rightarrow> string \<Rightarrow> bytes option \<Rightarrow> goval res) option"   \<comment> \<open>client.GetVariable; None is a nil client\<close>
  host_set :: "(string \<Rightarrow> string \<Rightarrow> goval \<Rightarrow> error option) option"        \<comment> \<open>client.SetVariable\<close>

record vstate =
  vstore :: "store option"
  vfs :: os

section \<open>Conversions\<close>

fun int_bits :: "ikind \<Rightarrow> nat" where
  "int_bits I = 64" | "int_bits I8 = 8" | "int_bits I16 = 16" | "int_bits I32 = 32" | "int_bits I64 = 64"

text \<open>A signed integer cut to \<open>b\<close> bits.\<close>

definition wrap_int :: "nat \<Rightarrow> int \<Rightarrow> int" where
  "wrap_int b i = (i + 2 ^ (b - 1)) mod 2 ^ b - 2 ^ (b - 1)"

text \<open>\<^verbatim>\<open>int64(f)\<close>: outside the range of int64 the result is the smallest int64, as on amd64.\<close>

definition f64_to_i64 :: "rat \<Rightarrow> int" where
  "f64_to_i64 r = (let i = trunc_f64 r in if - (2 ^ 63) \<le> i \<and> i < 2 ^ 63 then i else - (2 ^ 63))"

definition bad_kind :: "'a outcome" where
  "bad_kind = Panic ''reflect: call on value of wrong kind''"

text \<open>\<^verbatim>\<open>reflect.Value.SetInt\<close>, \<^verbatim>\<open>SetFloat\<close>, \<^verbatim>\<open>SetBool\<close>, \<^verbatim>\<open>SetString\<close> on a variable of type \<open>T\<close>.\<close>

fun SetInt :: "gotype \<Rightarrow> int \<Rightarrow> tval outcome" where
  "SetInt (TInt k) i = Return (VInt (wrap_int (int_bits k) i))"
| "SetInt T i = bad_kind"

fun SetFloat :: "venv \<Rightarrow> gotype \<Rightarrow> rat \<Rightarrow> tval outcome" where
  "SetFloat E TFloat32 r = Return (VFloat (to_f32 E r))"
| "SetFloat E TFloat64 r = Return (VFloat r)"
| "SetFloat E T r = bad_kind"

fun SetBool :: "gotype \<Rightarrow> bool \<Rightarrow> tval outcome" where
  "SetBool TBool b = Return (VBool b)"
| "SetBool T b = bad_kind"

fun SetString :: "gotype \<Rightarrow> string \<Rightarrow> tval outcome" where
  "SetString TString s = Return (VStr s)"
| "SetString T s = bad_kind"

text \<open>\<^verbatim>\<open>Set\<close> of a pointer to an \<open>int64\<close>, a \<open>bool\<close> or a \<open>string\<close>: the types must be the same.\<close>

fun SetPtr :: "gotype \<Rightarrow> tval \<Rightarrow> tval outcome" where
  "SetPtr (TPtr (TInt I64)) (VInt i) = Return (VPtr (VInt i))"
| "SetPtr (TPtr TBool) (VBool b) = Return (VPtr (VBool b))"
| "SetPtr (TPtr TString) (VStr s) = Return (VPtr (VStr s))"
| "SetPtr T v = bad_kind"

text \<open>The loop over a map: every entry that \<open>sel\<close> accepts is assigned, in iteration order.\<close>

fun assign_all :: "(goval \<Rightarrow> 'a option) \<Rightarrow> ('a \<Rightarrow> tval outcome) \<Rightarrow> goval list \<Rightarrow> tval \<Rightarrow> tval outcome" where
  "assign_all sel asg [] t = Return t"
| "assign_all sel asg (v # vs) t = (case sel v of
     None \<Rightarrow> assign_all sel asg vs t
   | Some d \<Rightarrow> outcome_bind (asg d) (\<lambda>t'. assign_all sel asg vs t'))"

fun as_int :: "goval \<Rightarrow> int option" where
  "as_int (GInt i) = Some i" | "as_int _ = None"

fun as_bool :: "goval \<Rightarrow> bool option" where
  "as_bool (GBool b) = Some b" | "as_bool _ = None"

fun no_error :: "tval outcome \<Rightarrow> tval res outcome" where
  "no_error (Return t) = Return (Inr t)"
| "no_error (Panic m) = Panic m"

fun getInt :: "gotype \<Rightarrow> goval \<Rightarrow> tval res outcome" where
  "getInt T (GInt i) = no_error (SetInt T i)"
| "getInt T (GFloat r) = no_error (SetInt T (f64_to_i64 r))"
| "getInt T (GStr s) = (case parse_int 64 s of Inl e \<Rightarrow> Return (Inl e) | Inr d \<Rightarrow> no_error (SetInt T d))"
| "getInt T (GMap m) = no_error (assign_all as_int (SetInt T) (map snd m) (VZero T))"
| "getInt T v = Return (Inr (VZero T))"

fun getIntPtr :: "gotype \<Rightarrow> goval \<Rightarrow> tval res outcome" where
  "getIntPtr T (GInt i) = no_error (SetPtr T (VInt i))"
| "getIntPtr T (GFloat r) = no_error (SetPtr T (VInt (f64_to_i64 r)))"
| "getIntPtr T (GStr s) =
     (if s = [] then Return (Inr (VZero T))
      else case parse_int 64 s of Inl e \<Rightarrow> Return (Inl e) | Inr d \<Rightarrow> no_error (SetPtr T (VInt d)))"
| "getIntPtr T (GMap m) = no_error (assign_all as_int (\<lambda>i. SetPtr T (VInt i)) (map snd m) (VZero T))"
| "getIntPtr T v = Return (Inr (VZero T))"

fun getFloat :: "venv \<Rightarrow> gotype \<Rightarrow> goval \<Rightarrow> tval res outcome" where
  "getFloat E T (GInt i) = no_error (SetFloat E T (round_f64 i))"
| "getFloat E T (GFloat r) = no_error (SetFloat E T r)"
| "getFloat E T (GStr s) = (case pfloat E s of Inl e \<Rightarrow> Return (Inl e) | Inr d \<Rightarrow> no_error (SetFloat E T d))"
| "getFloat E T (GMap m) = no_error (assign_all as_float (SetFloat E T) (map snd m) (VZero T))"
| "getFloat E T v = Return (Inr (VZero T))"

fun getBool :: "gotype \<Rightarrow> goval \<Rightarrow> tval res outcome" where
  "getBool T (GInt i) = no_error (SetBool T (0 < i))"
| "getBool T (GFloat r) = no_error (SetBool T (0 < r))"
| "getBool T (GBool b) = no_error (SetBool T b)"
| "getBool T (GStr s) = (case parse_bool s of Inl e \<Rightarrow> Return (Inl e) | Inr d \<Rightarrow> no_error (SetBool T d))"
| "getBool T (GMap m) = no_error (assign_all as_bool (SetBool T) (map snd m) (VZero T))"
| "getBool T v = Return (Inr (VZero T))"

text \<open>For a number the code sets the pointer to a bool, not to the address of one: this panics.\<close>

fun getBoolPtr :: "gotype \<Rightarrow> goval \<Rightarrow> tval res outcome" where
  "getBoolPtr T (GInt i) = bad_kind"
| "getBoolPtr T (GFloat r) = bad_kind"
| "getBoolPtr T (GBool b) = no_error (SetPtr T (VBool b))"
| "getBoolPtr T (GStr s) =
     (if s = [] then Return (Inr (VZero T))
      else case parse_bool s of Inl e \<Rightarrow> Return (Inl e) | Inr d \<Rightarrow> no_error (SetPtr T (VBool d)))"
| "getBoolPtr T (GMap m) = no_error (assign_all as_bool (\<lambda>b. SetPtr T (VBool b)) (map snd m) (VZero T))"
| "getBoolPtr T v = Return (Inr (VZero T))"

fun getString :: "gotype \<Rightarrow> goval \<Rightarrow> tval res outcome" where
  "getString T (GStr s) = no_error (SetString T s)"
| "getString T (GMap m) = no_error (assign_all as_str (SetString T) (map snd m) (VZero T))"
| "getString T v = Return (Inr (VZero T))"

fun getStringPtr :: "gotype \<Rightarrow> goval \<Rightarrow> tval res outcome" where
  "getStringPtr T (GStr s) = no_error (SetPtr T (VStr s))"
| "getStringPtr T (GMap m) = no_error (assign_all as_str (\<lambda>s. SetPtr T (VStr s)) (map snd m) (VZero T))"
| "getStringPtr T v = Return (Inr (VZero T))"

fun slice_elems :: "venv \<Rightarrow> gotype \<Rightarrow> string list \<Rightarrow> tval list \<Rightarrow> tval list res" where
  "slice_elems E et [] acc = Inr acc"
| "slice_elems E et (p # ps) acc =
     (let q = trim_space p in
      if et = TString then slice_elems E et ps (acc @ [VStr q])
      else case unmarshal_into E et q of
        Inl e \<Rightarrow> Inl (Errorf (''cannot convert '' @ q @ '' to '' @ type_string et))
      | Inr v \<Rightarrow> slice_elems E et ps (acc @ [v]))"

definition json_roundtrip :: "venv \<Rightarrow> gotype \<Rightarrow> goval \<Rightarrow> tval res" where
  "json_roundtrip E T v = (case marshal (vjson E) v of Inl e \<Rightarrow> Inl e | Inr d \<Rightarrow> unmarshal_into E T d)"

definition getSlice :: "venv \<Rightarrow> gotype \<Rightarrow> goval \<Rightarrow> tval res" where
  "getSlice E T v = (case as_str v of
     None \<Rightarrow> json_roundtrip E T v
   | Some s0 \<Rightarrow>
       (let s = trim_space s0;
            commas = (case slice_elems E (elem_type T) (split_on (CHR '','') s) [] of
                        Inl e \<Rightarrow> Inl e | Inr vs \<Rightarrow> Inr (VSlice vs))
        in if has_prefix s ''['' then (case unmarshal_into E T s of Inr t \<Rightarrow> Inr t | Inl e \<Rightarrow> commas) else commas))"

text \<open>The switch on the kind of \<open>T\<close>; \<open>None\<close> falls through to the host.\<close>

fun convert_to :: "venv \<Rightarrow> gotype \<Rightarrow> goval \<Rightarrow> tval res outcome option" where
  "convert_to E (TPtr TBool) v = Some (getBoolPtr (TPtr TBool) v)"
| "convert_to E (TPtr (TInt k)) v = Some (getIntPtr (TPtr (TInt k)) v)"
| "convert_to E (TPtr (TUint k)) v = Some (getIntPtr (TPtr (TUint k)) v)"
| "convert_to E (TPtr TString) v = Some (getStringPtr (TPtr TString) v)"
| "convert_to E (TPtr t) v = None"
| "convert_to E (TInt k) v = Some (getInt (TInt k) v)"
| "convert_to E (TUint k) v = Some (getInt (TUint k) v)"
| "convert_to E TFloat32 v = Some (getFloat E TFloat32 v)"
| "convert_to E TFloat64 v = Some (getFloat E TFloat64 v)"
| "convert_to E TBool v = Some (getBool TBool v)"
| "convert_to E TString v = Some (getString TString v)"
| "convert_to E (TSlice t) v = Some (Return (getSlice E (TSlice t) v))"
| "convert_to E TPort v = Some (Return (getSlice E TPort v))"
| "convert_to E T v = Some (Return (json_roundtrip E T v))"

section \<open>Reading\<close>

definition vget :: "nat \<Rightarrow> venv \<Rightarrow> string \<Rightarrow> message \<Rightarrow> vstate \<Rightarrow> (goval \<times> vstate) option" where
  "vget n E path msg s =
     map_option (\<lambda>(v, w). (v, s\<lparr>vfs := w\<rparr>)) (msg_Get n (vlib E) (vplat E) (vstore s) path msg (vfs s))"

text \<open>The value of a Message or AI variable; under AI scope the tool call's parameters are asked too.\<close>

definition message_value :: "nat \<Rightarrow> venv \<Rightarrow> string \<Rightarrow> string \<Rightarrow> message \<Rightarrow> vstate \<Rightarrow> (goval \<times> vstate) option" where
  "message_value n E scope name msg s = (case vget n E name msg s of
     None \<Rightarrow> None
   | Some (v, s1) \<Rightarrow>
       if v \<noteq> GNil \<or> scope \<noteq> ''AI'' then Some (v, s1)
       else (case vget n E ''__message_type__'' msg s1 of
          None \<Rightarrow> None
        | Some (ty, s2) \<Rightarrow>
            if ty \<noteq> GStr ''tool_request'' then Some (GNil, s2)
            else (case vget n E ''__parameters__'' msg s2 of
               None \<Rightarrow> None
             | Some (ps, s3) \<Rightarrow> Some (case as_map ps of Some m \<Rightarrow> map_get m name | None \<Rightarrow> GNil, s3))))"

text \<open>A marker is read from the store and decoded into \<open>T\<close>.\<close>

definition decode_marker :: "venv \<Rightarrow> gotype \<Rightarrow> goval \<Rightarrow> vstate \<Rightarrow> tval res \<times> vstate" where
  "decode_marker E T v s =
     (case ResolveBlobRefValue (vlib E) (vjson E) (vplat E) (case as_map v of Some m \<Rightarrow> m | None \<Rightarrow> []) (vstore s) (vfs s) of
        (Inl e, st, w) \<Rightarrow> (Inl e, s\<lparr>vstore := st, vfs := w\<rparr>)
      | (Inr resolved, st, w) \<Rightarrow> (json_roundtrip E T resolved, s\<lparr>vstore := st, vfs := w\<rparr>))"

text \<open>The assertion \<^verbatim>\<open>val.(T)\<close>: the dynamic type must be \<open>T\<close>; to \<^verbatim>\<open>any\<close> it succeeds unless the value is nil.\<close>

definition assert_type :: "gotype \<Rightarrow> goval \<Rightarrow> tval option" where
  "assert_type T v =
     (if T = TBool then (case v of GBool b \<Rightarrow> Some (VBool b) | _ \<Rightarrow> None)
      else if T = TInt I64 then map_option VInt (as_int v)
      else if T = TFloat64 then map_option VFloat (as_float v)
      else if T = TString then map_option VStr (as_str v)
      else if T = TSlice TAny then (case v of GList vs \<Rightarrow> Some (VSlice (map VDyn vs)) | _ \<Rightarrow> None)
      else if T = TMap then map_option (\<lambda>m. VDyn (GMap m)) (as_map v)
      else if T = TAny then (if v = GNil then None else Some (VDyn v))
      else None)"

fun dyn_type :: "goval \<Rightarrow> string" where
  "dyn_type GNil = []"
| "dyn_type (GBool b) = ''bool''"
| "dyn_type (GInt i) = ''int64''"
| "dyn_type (GFloat r) = ''float64''"
| "dyn_type (GStr s) = ''string''"
| "dyn_type (GList vs) = ''[]interface {}''"
| "dyn_type (GMap m) = ''map[string]interface {}''"
| "dyn_type (GOther t) = t"

text \<open>
  The end of \<^verbatim>\<open>Get\<close>: the host is asked.  When the assertion fails, the error message takes the type of
  the value, and \<^verbatim>\<open>reflect.TypeOf\<close> of nil has no name: that panics.
\<close>

definition get_from_host :: "nat \<Rightarrow> venv \<Rightarrow> gotype \<Rightarrow> vname \<Rightarrow> message \<Rightarrow> vstate \<Rightarrow> (tval res \<times> vstate) outcome option" where
  "get_from_host n E T v msg s = (case host_get E of
     None \<Rightarrow> Some (Return (Inl (Errorf ''Runtime was not initialized''), s))
   | Some hget \<Rightarrow>
       (case msg_GetRaw n (vlib E) (vplat E) (vstore s) [] msg (vfs s) of
          None \<Rightarrow> None
        | Some (Inl e, w) \<Rightarrow> Some (Return (Inl e, s\<lparr>vfs := w\<rparr>))
        | Some (Inr payload, w) \<Rightarrow>
            (case as_str (vName v) of
               None \<Rightarrow> Some (Panic ''interface conversion'')
             | Some name \<Rightarrow>
                 (case hget (vScope v) name payload of
                    Inl e \<Rightarrow> Some (Return (Inl e, s\<lparr>vfs := w\<rparr>))
                  | Inr x \<Rightarrow>
                      if IsBlobRefMap x then Some (Return (decode_marker E T x (s\<lparr>vfs := w\<rparr>)))
                      else (case assert_type T x of
                        Some t \<Rightarrow> Some (Return (Inr t, s\<lparr>vfs := w\<rparr>))
                      | None \<Rightarrow> if x = GNil then Some (Panic ''nil pointer dereference'')
                          else Some (Return (Inl (Errorf (''expected '' @ type_string T @ '' but got '' @ dyn_type x)), s\<lparr>vfs := w\<rparr>)))))))"

definition convert_or_host :: "nat \<Rightarrow> venv \<Rightarrow> gotype \<Rightarrow> vname \<Rightarrow> message \<Rightarrow> goval \<Rightarrow> vstate
    \<Rightarrow> (tval res \<times> vstate) outcome option" where
  "convert_or_host n E T v msg x s = (case convert_to E T x of
     None \<Rightarrow> get_from_host n E T v msg s
   | Some (Panic m) \<Rightarrow> Some (Panic m)
   | Some (Return r) \<Rightarrow> Some (Return (r, s)))"

definition InVariable_Get :: "nat \<Rightarrow> venv \<Rightarrow> gotype \<Rightarrow> vname \<Rightarrow> message \<Rightarrow> vstate \<Rightarrow> (tval res \<times> vstate) outcome option" where
  "InVariable_Get n E T v msg s =
     (if vName v = GNil then Some (Return (Inr (VZero T), s))
      else if vScope v = ''Custom'' then convert_or_host n E T v msg (vName v) s
      else if vScope v = ''Message'' \<or> vScope v = ''AI'' then
        (case as_str (vName v) of
           None \<Rightarrow> Some (Panic ''interface conversion'')
         | Some name \<Rightarrow>
             (case message_value n E (vScope v) name msg s of
                None \<Rightarrow> None
              | Some (x, s1) \<Rightarrow>
                  if x = GNil then Some (Return (Inr (VZero T), s1))
                  else if IsBlobRefMap x then Some (Return (decode_marker E T x s1))
                  else convert_or_host n E T v msg x s1))
      else get_from_host n E T v msg s)"

section \<open>Writing\<close>

text \<open>\<open>lmo\<close> says whether the blob capability is in force.\<close>

definition OutVariable_Set :: "nat \<Rightarrow> venv \<Rightarrow> bool \<Rightarrow> vname \<Rightarrow> goval \<Rightarrow> message \<Rightarrow> vstate
    \<Rightarrow> (error option \<times> message \<times> vstate) outcome option" where
  "OutVariable_Set n E lmo v value msg s =
     (let put = (\<lambda>x s'. case as_str (vName v) of
            None \<Rightarrow> Panic ''interface conversion''
          | Some name \<Rightarrow>
              if vScope v = ''Message'' \<or> vScope v = ''AI'' then
                (case msg_Set (vlib E) name x msg of (e, msg') \<Rightarrow> Return (e, msg', s'))
              else (case host_set E of
                  None \<Rightarrow> Return (Some (Errorf ''Runtime was not initialized''), msg, s')
                | Some hset \<Rightarrow> Return (hset (vScope v) name x, msg, s')))
      in if (vScope v = ''Message'' \<or> vScope v = ''AI'') \<and> vName v = GStr [] then
           Some (Return (Some (Errorf ''Empty message object''), msg, s))
         else if vScope v \<noteq> ''Message'' \<and> vScope v \<noteq> ''AI'' \<and> host_set E = None then
           Some (Return (Some (Errorf ''Runtime was not initialized''), msg, s))
         else if \<not> lmo then Some (put value s)
         else (case PackValue n (vlib E) (vjson E) (vplat E) value (vstore s) (vfs s) of
            None \<Rightarrow> None
          | Some (Inl e, w) \<Rightarrow> Some (Return (Some e, msg, s\<lparr>vfs := w\<rparr>))
          | Some (Inr None, w) \<Rightarrow> Some (put value (s\<lparr>vfs := w\<rparr>))
          | Some (Inr (Some p), w) \<Rightarrow> Some (put p (s\<lparr>vfs := w\<rparr>))))"

section \<open>Credentials\<close>

record credential =
  cScope :: string
  cName :: goval
  cVaultID :: string
  cItemID :: string

text \<open>
  The vault and item a credential names: the deprecated fields when both are set, else the decoded
  name, which under Message scope is read from the message.  \<open>decode\<close> is \<^verbatim>\<open>mapstructure.Decode\<close>.
\<close>

definition cred_target :: "nat \<Rightarrow> venv \<Rightarrow> (tval \<Rightarrow> (string \<times> string) res) \<Rightarrow> credential \<Rightarrow> message \<Rightarrow> vstate
    \<Rightarrow> ((string \<times> string) res \<times> vstate) outcome option" where
  "cred_target n E decode c msg s =
     (if cVaultID c \<noteq> [] \<and> cItemID c \<noteq> [] then Some (Return (Inr (cVaultID c, cItemID c), s))
      else if cScope c = ''Message'' then
        (case as_str (cName c) of
           None \<Rightarrow> Some (Panic ''interface conversion'')
         | Some nm \<Rightarrow>
             (case InVariable_Get n E TAny \<lparr>vScope = cScope c, vName = GStr nm\<rparr> msg s of
                None \<Rightarrow> None
              | Some (Panic m) \<Rightarrow> Some (Panic m)
              | Some (Return (Inl e, s')) \<Rightarrow> Some (Return (Inl e, s'))
              | Some (Return (Inr ci, s')) \<Rightarrow> Some (Return (decode ci, s'))))
      else Some (Return (decode (VDyn (cName c)), s)))"

text \<open>\<open>vault\<close> is the host's \<^verbatim>\<open>GetVaultItem\<close> (or \<^verbatim>\<open>SetVaultItem\<close> with its data); \<open>None\<close> is a nil client.\<close>

definition Credential_use :: "nat \<Rightarrow> venv \<Rightarrow> (tval \<Rightarrow> (string \<times> string) res) \<Rightarrow> (string \<Rightarrow> string \<Rightarrow> goval res) option
    \<Rightarrow> credential \<Rightarrow> message \<Rightarrow> vstate \<Rightarrow> (goval res \<times> vstate) outcome option" where
  "Credential_use n E decode vault c msg s = (case vault of
     None \<Rightarrow> Some (Return (Inl (Errorf ''Runtime was not initialized''), s))
   | Some f \<Rightarrow> (case cred_target n E decode c msg s of
       None \<Rightarrow> None
     | Some (Panic m) \<Rightarrow> Some (Panic m)
     | Some (Return (Inl e, s')) \<Rightarrow> Some (Return (Inl e, s'))
     | Some (Return (Inr (vid, iid), s')) \<Rightarrow> Some (Return (f vid iid, s'))))"

section \<open>Properties\<close>

text \<open>The values from which \<^verbatim>\<open>getInt\<close> and \<^verbatim>\<open>getIntPtr\<close> take an integer to assign.\<close>

fun feeds_int :: "goval \<Rightarrow> bool" where
  "feeds_int (GInt i) = True"
| "feeds_int (GFloat r) = True"
| "feeds_int (GStr s) = (\<exists>d. parse_int 64 s = Inr d)"
| "feeds_int (GMap m) = (\<exists>v \<in> snd ` set m. as_int v \<noteq> None)"
| "feeds_int v = False"

fun is_number :: "goval \<Rightarrow> bool" where
  "is_number (GInt i) = True"
| "is_number (GFloat r) = True"
| "is_number v = False"

definition panics :: "'a outcome \<Rightarrow> bool" where
  "panics out \<longleftrightarrow> (\<exists>m. out = Panic m)"

lemma panics_simps [simp]: "\<not> panics (Return x)" "panics (Panic m)" "panics bad_kind"
  by (auto simp: panics_def bad_kind_def)

lemma panics_no_error [simp]: "panics (no_error out) = panics out"
  by (cases out) auto

lemma panics_bind: "panics (outcome_bind a f) \<longleftrightarrow> panics a \<or> (\<exists>x. a = Return x \<and> panics (f x))"
  by (cases a) (auto simp: panics_def)

lemma assign_all_panics:
  assumes "\<And>d. panics (asg d) = p"
  shows "panics (assign_all sel asg vs t) \<longleftrightarrow> p \<and> (\<exists>v \<in> set vs. sel v \<noteq> None)"
proof (induction vs arbitrary: t)
  case (Cons v vs)
  then show ?case using assms by (cases "asg (the (sel v))") (auto simp: panics_bind split: option.splits)
qed simp

lemma SetInt_panics: "panics (SetInt T i) \<longleftrightarrow> \<not> (\<exists>k. T = TInt k)"
  by (cases "(T, i)" rule: SetInt.cases) auto

lemma SetPtr_int_panics: "panics (SetPtr T (VInt i)) \<longleftrightarrow> T \<noteq> TPtr (TInt I64)"
  by (cases "(T, VInt i)" rule: SetPtr.cases) auto

lemma getInt_panics: "panics (getInt T v) \<longleftrightarrow> feeds_int v \<and> \<not> (\<exists>k. T = TInt k)"
  by (cases v)
    (auto simp: SetInt_panics assign_all_panics [where p = "\<not> (\<exists>k. T = TInt k)"] split: sum.splits)

lemma getIntPtr_panics: "panics (getIntPtr T v) \<longleftrightarrow> feeds_int v \<and> T \<noteq> TPtr (TInt I64)"
  by (cases v)
    (auto simp: SetPtr_int_panics assign_all_panics [where p = "T \<noteq> TPtr (TInt I64)"]
      parse_int_def parse_digits_def split: sum.splits)

lemma SetFloat_panics: "panics (SetFloat E T r) \<longleftrightarrow> T \<noteq> TFloat32 \<and> T \<noteq> TFloat64"
  by (cases "(E, T, r)" rule: SetFloat.cases) auto

lemma getFloat_panics: "T = TFloat32 \<or> T = TFloat64 \<Longrightarrow> \<not> panics (getFloat E T v)"
  by (cases v) (auto simp: SetFloat_panics assign_all_panics [where p = False] split: sum.splits)

lemma getBool_panics: "\<not> panics (getBool TBool v)"
  by (cases v) (auto simp: assign_all_panics [where p = False] split: sum.splits)

lemma getBoolPtr_panics: "panics (getBoolPtr (TPtr TBool) v) \<longleftrightarrow> is_number v"
  by (cases v) (auto simp: assign_all_panics [where p = False] split: sum.splits)

lemma getString_panics: "\<not> panics (getString TString v)"
  by (cases v) (auto simp: assign_all_panics [where p = False] split: sum.splits)

lemma getStringPtr_panics: "\<not> panics (getStringPtr (TPtr TString) v)"
  by (cases v) (auto simp: assign_all_panics [where p = False] split: sum.splits)

text \<open>The types whose conversion can panic, and on which values.\<close>

fun panic_type :: "gotype \<Rightarrow> goval \<Rightarrow> bool" where
  "panic_type (TUint k) v = feeds_int v"
| "panic_type (TPtr TBool) v = is_number v"
| "panic_type (TPtr (TInt k)) v = (feeds_int v \<and> k \<noteq> I64)"
| "panic_type (TPtr (TUint k)) v = feeds_int v"
| "panic_type T v = False"

text \<open>
  C23. The conversion of an input panics in exactly these cases: an unsigned type, or a pointer to an
  integer type other than \<^verbatim>\<open>int64\<close>, given something that yields an integer; and a pointer to a bool
  given a number.  Every other pair of type and value ends in a value, an error or the host.
\<close>

theorem convert_panics_exactly: "(\<exists>m. convert_to E T v = Some (Panic m)) \<longleftrightarrow> panic_type T v"
proof -
  have e: "(\<exists>m. Some x = Some (Panic m)) \<longleftrightarrow> panics x" for x :: "tval res outcome" by (simp add: panics_def)
  show ?thesis
  proof (cases T)
    case (TPtr t)
    then show ?thesis
      by (cases t) (simp_all only: convert_to.simps panic_type.simps e getBoolPtr_panics getIntPtr_panics option.distinct
        getStringPtr_panics simp_thms gotype.inject gotype.distinct)
  qed (simp_all only: convert_to.simps panic_type.simps e getInt_panics getFloat_panics getBool_panics
      getString_panics panics_simps gotype.inject gotype.distinct simp_thms)
qed

text \<open>Integers at their width\<close>

lemma wrap_int_range: "0 < b \<Longrightarrow> - (2 ^ (b - 1)) \<le> wrap_int b i \<and> wrap_int b i < 2 ^ (b - 1)"
proof -
  assume "0 < b"
  then have "(2 :: int) ^ b = 2 * 2 ^ (b - 1)" by (cases b) simp_all
  moreover have "(i + 2 ^ (b - 1)) mod 2 ^ b < (2 :: int) ^ b" "0 \<le> (i + 2 ^ (b - 1)) mod (2 :: int) ^ b" by simp_all
  ultimately show ?thesis unfolding wrap_int_def by linarith
qed

lemma wrap_int_cong: "(wrap_int b i - i) mod 2 ^ b = 0"
proof -
  have "wrap_int b i - i = - (2 ^ b * ((i + 2 ^ (b - 1)) div 2 ^ b))"
    unfolding wrap_int_def minus_mult_div_eq_mod [symmetric] by simp
  then have "2 ^ b dvd wrap_int b i - i" by simp
  then show ?thesis by simp
qed

lemma wrap_int_id:
  assumes "0 < b" "- (2 ^ (b - 1)) \<le> i" "i < 2 ^ (b - 1)"
  shows "wrap_int b i = i"
proof -
  have "(2 :: int) ^ b = 2 * 2 ^ (b - 1)" using assms(1) by (cases b) simp_all
  with assms have "(i + 2 ^ (b - 1)) mod 2 ^ b = i + 2 ^ (b - 1)" by (intro mod_pos_pos_trivial) auto
  then show ?thesis by (simp add: wrap_int_def)
qed

lemma int_bits_pos: "0 < int_bits k"
  by (cases k) simp_all

text \<open>
  An integer read into a signed type is cut to the type's width without an error: the result lies
  in the range of the type, differs from the value by a multiple of \<open>2 ^ bits\<close>, and is the value
  itself exactly when the value fits.  The same holds for the text of an integer within int64.
\<close>

theorem getInt_wraps:
  "\<exists>j. getInt (TInt k) (GInt i) = Return (Inr (VInt j))
     \<and> (- (2 ^ 63) \<le> i \<and> i < 2 ^ 63 \<longrightarrow> getInt (TInt k) (GStr (show_int i)) = Return (Inr (VInt j)))
     \<and> - (2 ^ (int_bits k - 1)) \<le> j \<and> j < 2 ^ (int_bits k - 1) \<and> (j - i) mod 2 ^ int_bits k = 0
     \<and> (j = i \<longleftrightarrow> - (2 ^ (int_bits k - 1)) \<le> i \<and> i < 2 ^ (int_bits k - 1))"
proof (intro exI conjI impI iffI)
  let ?j = "wrap_int (int_bits k) i"
  show "getInt (TInt k) (GInt i) = Return (Inr (VInt ?j))" by simp
  show "getInt (TInt k) (GStr (show_int i)) = Return (Inr (VInt ?j))" if "- (2 ^ 63) \<le> i \<and> i < 2 ^ 63"
    using that parse_int_show_int [of i] by simp
  show "- (2 ^ (int_bits k - 1)) \<le> ?j" "?j < 2 ^ (int_bits k - 1)"
    using wrap_int_range [OF int_bits_pos, of k i] by auto
  show "(?j - i) mod 2 ^ int_bits k = 0" by (rule wrap_int_cong)
  show "- (2 ^ (int_bits k - 1)) \<le> i" "i < 2 ^ (int_bits k - 1)" if "?j = i"
    using wrap_int_range [OF int_bits_pos, of k i] that by auto
  show "?j = i" if "- (2 ^ (int_bits k - 1)) \<le> i \<and> i < 2 ^ (int_bits k - 1)"
    using wrap_int_id [OF int_bits_pos] that by auto
qed

theorem getInt_wraps_witness:
  "getInt (TInt I8) (GStr (show_int 300)) = getInt (TInt I8) (GInt 300)"
  using getInt_wraps [of I8 300] by auto

text \<open>The host scopes\<close>

lemma GetRaw_no_store [simp]: "msg_GetRaw n L pf None [] msg w = Some (Inr (data msg), w)"
  by (cases "data msg") (simp_all add: msg_GetRaw_def getRaw_def lift_raw_def LMOResolveAll_def)

text \<open>
  A number in a scope kept by the host (any but Custom, Message and AI) cannot be read into an integer
  type: what \<^verbatim>\<open>SetVariable\<close> sent as an integer comes back as a float64, which \<^verbatim>\<open>Get\<close> refuses; only a
  float64 variable reads it.
\<close>

theorem host_scope_integers_unreadable:
  assumes "vScope v \<notin> {''Custom'', ''Message'', ''AI''}" "vName v = GStr nm" "vstore s = None"
    and "host_get E = Some h" "\<And>p. h (vScope v) nm p = Inr (convert (ToValue sprint (Some (RInt i))))"
    and "\<bar>i\<bar> \<le> 2 ^ 53"
  shows "InVariable_Get n E (TInt k) v msg s
      = Some (Return (Inl (Errorf (''expected '' @ type_string (TInt k) @ '' but got float64'')), s))
    \<and> InVariable_Get n E TFloat64 v msg s = Some (Return (Inr (VFloat (of_int i)), s))"
  using assms by (simp add: InVariable_Get_def get_from_host_def IsBlobRefMap_def assert_type_def round_f64_exact)

text \<open>
  Message variables.  \<open>val_law\<close> is what gjson documents of \<^verbatim>\<open>Result.Value\<close>: a string for a JSON string, a
  map with the members for a JSON object, nil for no result.
\<close>

definition val_law :: "lib \<Rightarrow> sem \<Rightarrow> bool" where
  "val_law L D \<longleftrightarrow> (\<forall>r x. rep D r (JStr x) \<longrightarrow> val L r = GStr x) \<and> val L no_result = GNil
     \<and> (\<forall>r kvs. rep D r (JObj kvs) \<longrightarrow> (\<exists>gs. val L r = GMap gs \<and> map fst gs = map fst kvs
          \<and> (\<forall>k x. map_of kvs k = Some (JStr x) \<longrightarrow> map_of gs k = Some (GStr x))))"

lemma simple_key_convertPath: "simple_key k \<Longrightarrow> convertPath k = k"
  by (rule convertPath_id) (auto simp: simple_key_def list_all_iff plain_char_def Let_def)

lemma msg_get_no_store: "msg_get n L pf None k msg w = Some (get L (raw_bytes msg) (convertPath k), w)"
  by (simp add: msg_get_def LMOResolveSubtree_def LMOResolve_def)

lemma vget_no_store:
  "vstore s = None \<Longrightarrow> vget n E k msg s = Some (val (vlib E) (get (vlib E) (raw_bytes msg) (convertPath k)), s)"
  by (simp add: vget_def msg_Get_def msg_get_no_store)

lemma vget_member:
  assumes "lib_laws (vlib E) D" "val_law (vlib E) D" "den D (raw_bytes msg) = Some (JObj kvs)" "path_key k"
    and "vstore s = None"
  shows "map_of kvs k = None \<Longrightarrow> vget n E k msg s = Some (GNil, s)"
    and "map_of kvs k = Some (JStr x) \<Longrightarrow> vget n E k msg s = Some (GStr x, s)"
    and "map_of kvs k = Some (JObj ps) \<Longrightarrow> \<exists>gs. vget n E k msg s = Some (GMap gs, s) \<and> map fst gs = map fst ps
          \<and> (\<forall>k x. map_of ps k = Some (JStr x) \<longrightarrow> map_of gs k = Some (GStr x))"
  using get_member [OF assms(1,3), of k] assms(2,4,5)
  by (auto simp: vget_no_store path_key_def simple_key_convertPath val_law_def)

text \<open>A text is no marker and has no parts, so every getter answers it as it stands, with a store or without.\<close>

lemma vget_text:
  assumes "lib_laws (vlib E) D" "val_law (vlib E) D" "den D (raw_bytes msg) = Some (JObj kvs)" "path_key k"
    and "map_of kvs k = Some (JStr x)"
  shows "vget n E k msg s = Some (GStr x, s)"
proof (cases "vstore s")
  case None
  then show ?thesis using vget_member(2) [OF assms(1-4) _ assms(5)] by simp
next
  case (Some st)
  have k: "convertPath k = k" using assms(4) by (simp add: path_key_def simple_key_convertPath)
  have g: "exists (vlib E) (get (vlib E) (raw_bytes msg) k)" "rep D (get (vlib E) (raw_bytes msg) k) (JStr x)"
    using get_member [OF assms(1,3), of k] assms(4,5) by (auto simp: path_key_def)
  then have "gtype (get (vlib E) (raw_bytes msg) k) \<noteq> TJSON" "\<not> IsBlobRef (vlib E) (get (vlib E) (raw_bytes msg) k)"
    using rep_type_json IsBlobRef_isref [OF assms(1)] by (fastforce simp: isref_def)+
  then have "msg_get n (vlib E) (vplat E) (Some st) k msg (vfs s) = Some (get (vlib E) (raw_bytes msg) k, vfs s)"
    using g(1) k by (simp add: msg_get_def LMOResolveSubtree_def LMOResolve_def Resolve_def)
  then show ?thesis using g(2) assms(2) Some by (simp add: vget_def msg_Get_def val_law_def)
qed

text \<open>\<^verbatim>\<open>json.Marshal\<close> of a UTF-8 text, and \<^verbatim>\<open>json.Unmarshal\<close> of the result.\<close>

definition text_law :: "json_lib \<Rightarrow> sem \<Rightarrow> bool" where
  "text_law J D \<longleftrightarrow> (\<forall>x. utf8 x \<longrightarrow>
     (\<exists>d. marshal J (GStr x) = Inr d \<and> den D d = Some (JStr x) \<and> unmarshal J d = Inr (GStr x)))"

text \<open>
  C21. What an output variable writes to a message, an input variable of the same name reads back: any
  UTF-8 text as itself, and the text of an int64 also as that integer.  This holds with a blob store or
  without, for texts of any length (\<^verbatim>\<open>PackValue\<close> leaves a text in the message, however long), whether the message
  holds a member of that name already or not, and whatever else it holds; only that member changes, and no file
  is touched.
\<close>

theorem message_variable_roundtrip:
  assumes "lib_laws (vlib E) D" "val_law (vlib E) D" "text_law (vjson E) D" "members D (raw_bytes msg) = Some kvs"
    and "path_key nm" "utf8 x" "scope \<in> {''Message'', ''AI''}"
  shows "\<exists>msg'. OutVariable_Set n E lmo \<lparr>vScope = scope, vName = GStr nm\<rparr> (GStr x) msg s = Some (Return (None, msg', s))
    \<and> members D (raw_bytes msg') = Some (AList.update nm (JStr x) kvs)
    \<and> InVariable_Get n E TString \<lparr>vScope = scope, vName = GStr nm\<rparr> msg' s = Some (Return (Inr (VStr x), s))
    \<and> (\<forall>i. x = show_int i \<and> - (2 ^ 63) \<le> i \<and> i < 2 ^ 63 \<longrightarrow>
         InVariable_Get n E (TInt I64) \<lparr>vScope = scope, vName = GStr nm\<rparr> msg' s = Some (Return (Inr (VInt i), s)))"
proof -
  have nm: "nm \<noteq> []" "simple_key nm" using assms(5) by (auto simp: path_key_def simple_key_def)
  obtain b where b: "set_val (vlib E) (raw_bytes msg) nm (GStr x) = (b, None)"
    "den D b = Some (JObj (AList.update nm (JStr x) kvs))" "has_prefix b ''{''"
    using lib_lawsD(6) [OF assms(1)] assms(4-6) unfolding set_val_law_def by (metis lit_json.simps(1) lit_ok.simps(1))
  let ?m = "msg\<lparr>data := Some b\<rparr>"
  have raw: "den D (raw_bytes ?m) = Some (JObj (AList.update nm (JStr x) kvs))" using b(2) by (simp add: raw_bytes_def)
  have key: "map_of (AList.update nm (JStr x) kvs) nm = Some (JStr x)" by (simp add: update_conv')
  have "message_value n E scope nm ?m s = Some (GStr x, s)"
    using vget_text [OF assms(1,2) raw assms(5) key, of n] by (simp add: message_value_def)
  then have get: "InVariable_Get n E T \<lparr>vScope = scope, vName = GStr nm\<rparr> ?m s
      = convert_or_host n E T \<lparr>vScope = scope, vName = GStr nm\<rparr> ?m (GStr x) s" for T
    using assms(7) by (auto simp: InVariable_Get_def IsBlobRefMap_def)
  obtain d where d: "marshal (vjson E) (GStr x) = Inr d" "den D d = Some (JStr x)" "unmarshal (vjson E) d = Inr (GStr x)"
    using assms(3,6) unfolding text_law_def by blast
  have "PackValue n (vlib E) (vjson E) (vplat E) (GStr x) (vstore s) (vfs s) = Some (Inr None, vfs s)"
    by (rule PackValue_scalar_inline [OF assms(1) d(1,2) _ d(3)]) (simp_all add: IsBlobRefMap_def)
  then have "OutVariable_Set n E lmo \<lparr>vScope = scope, vName = GStr nm\<rparr> (GStr x) msg s = Some (Return (None, ?m, s))"
    using nm assms(7) b(1)
    by (auto simp: OutVariable_Set_def msg_Set_def simple_key_convertPath)
  moreover have "members D (raw_bytes ?m) = Some (AList.update nm (JStr x) kvs)"
    using b(2,3) by (auto simp: raw_bytes_def members_def has_prefix_def)
  ultimately show ?thesis
    by (auto simp: get convert_or_host_def parse_int_show_int wrap_int_id)
qed

text \<open>
  An AI variable that the message does not hold at top level is read from the parameters of a tool
  request; a Message variable of that name is not, and reads as the zero value without an error.
\<close>

theorem ai_parameter_fallback:
  assumes "lib_laws (vlib E) D" "val_law (vlib E) D" "den D (raw_bytes msg) = Some (JObj kvs)"
    and "path_key nm" "nm \<notin> fst ` set kvs" "vstore s = None"
    and "map_of kvs ''__message_type__'' = Some (JStr ''tool_request'')"
    and "map_of kvs ''__parameters__'' = Some (JObj ps)"
  shows "(map_of ps nm = Some (JStr x) \<longrightarrow>
       InVariable_Get n E TString \<lparr>vScope = ''AI'', vName = GStr nm\<rparr> msg s = Some (Return (Inr (VStr x), s)))
    \<and> (map_of ps nm = None \<longrightarrow>
       InVariable_Get n E TString \<lparr>vScope = ''AI'', vName = GStr nm\<rparr> msg s = Some (Return (Inr (VZero TString), s)))
    \<and> InVariable_Get n E TString \<lparr>vScope = ''Message'', vName = GStr nm\<rparr> msg s = Some (Return (Inr (VZero TString), s))"
proof -
  have k: "path_key ''__message_type__''" "path_key ''__parameters__''"
    by (simp_all add: path_key_def simple_key_def plain_char_def is_digit_def)
  note get = vget_member [OF assms(1-3) _ assms(6), where n = n]
  have top: "vget n E nm msg s = Some (GNil, s)" using get(1) [OF assms(4)] assms(5) by (simp add: map_of_eq_None_iff)
  obtain gs where gs: "vget n E ''__parameters__'' msg s = Some (GMap gs, s)" "map fst gs = map fst ps"
    "\<And>k x. map_of ps k = Some (JStr x) \<Longrightarrow> map_of gs k = Some (GStr x)"
    using get(3) [OF k(2) assms(8)] by blast
  have ai: "message_value n E ''AI'' nm msg s = Some (map_get gs nm, s)"
    using top get(2) [OF k(1) assms(7)] gs(1) by (simp add: message_value_def)
  have "map_of ps nm = None \<Longrightarrow> map_of gs nm = None"
    using gs(2) by (metis list.set_map map_of_eq_None_iff)
  moreover have "message_value n E ''Message'' nm msg s = Some (GNil, s)" using top by (simp add: message_value_def)
  ultimately show ?thesis using gs(3) [of nm x] ai
    by (simp add: InVariable_Get_def map_get_def IsBlobRefMap_def convert_or_host_def)
qed

section \<open>Witnesses\<close>

lemma text_val_law: "val_law text_lib text_sem"
proof -
  have v: "rep text_sem r j \<Longrightarrow> val text_lib r = json_val j" for r j
    by (simp add: rep_def text_sem_def text_lib_def of_result_def)
  have m: "map_of kvs k = Some (JStr x) \<Longrightarrow> map_of (map (\<lambda>(k, v). (k, json_val v)) kvs) k = Some (GStr x)" for kvs k x
    by (simp add: map_of_map)
  have n: "val text_lib no_result = GNil"
    by (simp add: text_lib_def of_result_def no_result_def json_den_def)
  have "map fst (map (\<lambda>(k, v). (k, json_val v)) kvs) = map fst kvs" for kvs by (induction kvs) auto
  then show ?thesis unfolding val_law_def using m by (auto simp: v n)
qed

definition demo_env :: venv where
  "demo_env = \<lparr>vlib = text_lib, vjson = demo_jsonlib, vplat = Posix,
     unmarshal_into = (\<lambda>_ _. Inl (Errorf ''unsupported'')), pfloat = (\<lambda>_. Inl (Errorf ''unsupported'')), to_f32 = id,
     host_get = Some (\<lambda>_ _ _. Inr (convert (ToValue (\<lambda>_. []) (Some (RInt 7))))), host_set = None\<rparr>"

definition demo_state :: vstate where
  "demo_state = \<lparr>vstore = None, vfs = demo_os\<rparr>"

theorem host_scope_integers_unreadable_witness:
  "InVariable_Get 0 demo_env (TInt I64) \<lparr>vScope = ''Flow'', vName = GStr ''n''\<rparr> \<lparr>ID = [], data = None\<rparr> demo_state
     = Some (Return (Inl (Errorf ''expected int64 but got float64''), demo_state))"
  using host_scope_integers_unreadable [of "\<lparr>vScope = ''Flow'', vName = GStr ''n''\<rparr>" "''n''" demo_state demo_env _
      "\<lambda>_. []" 7 0 I64 "\<lparr>ID = [], data = None\<rparr>"]
  by (simp add: demo_env_def demo_state_def)

definition demo_call :: json where
  "demo_call = JObj [(''__message_type__'', JStr ''tool_request''), (''__parameters__'', JObj [(''q'', JStr ''hi'')])]"

lemma demo_call_den: "den text_sem (print_json demo_call)
    = Some (JObj [(''__message_type__'', JStr ''tool_request''), (''__parameters__'', JObj [(''q'', JStr ''hi'')])])"
proof -
  have "json_ok demo_call" by (simp add: demo_call_def)
  then show ?thesis by (simp add: json_den_print text_sem_def) (simp add: demo_call_def)
qed

lemma demo_keys: "path_key ''q''"
  by (simp add: path_key_def simple_key_def plain_char_def is_digit_def)

lemma demo_text_law: "text_law demo_jsonlib text_sem"
proof -
  have "json_den (print_json (JStr x)) = Some (JStr x)" for x by (rule json_den_print) simp
  then show ?thesis by (simp add: text_law_def demo_jsonlib_def text_sem_def del: print_json.simps)
qed

theorem message_variable_roundtrip_witness:
  "\<exists>msg'. OutVariable_Set 0 demo_env True \<lparr>vScope = ''Message'', vName = GStr ''q''\<rparr> (GStr (show_int 42))
       \<lparr>ID = [], data = Some (print_json (JObj [(''q'', JStr ''old'')]))\<rparr> \<lparr>vstore = Some demo_store, vfs = demo_os\<rparr>
       = Some (Return (None, msg', \<lparr>vstore = Some demo_store, vfs = demo_os\<rparr>))
   \<and> InVariable_Get 0 demo_env (TInt I64) \<lparr>vScope = ''Message'', vName = GStr ''q''\<rparr> msg' \<lparr>vstore = Some demo_store, vfs = demo_os\<rparr>
       = Some (Return (Inr (VInt 42), \<lparr>vstore = Some demo_store, vfs = demo_os\<rparr>))"
proof -
  let ?msg = "\<lparr>ID = [], data = Some (print_json (JObj [(''q'', JStr ''old'')]))\<rparr>"
  have e: "vlib demo_env = text_lib" "vjson demo_env = demo_jsonlib" by (simp_all add: demo_env_def)
  have "json_den (print_json (JObj [(''q'', JStr ''old'')])) = Some (JObj [(''q'', JStr ''old'')])" by (rule json_den_print) simp
  then have m: "members text_sem (raw_bytes ?msg) = Some [(''q'', JStr ''old'')]"
    by (simp add: raw_bytes_def members_def text_sem_def del: print_json.simps)
  from message_variable_roundtrip [where E = demo_env, unfolded e, OF text_lib_laws text_val_law demo_text_law m demo_keys utf8_show_int]
  show ?thesis by fastforce
qed

theorem ai_parameter_fallback_witness:
  "InVariable_Get 0 demo_env TString \<lparr>vScope = ''AI'', vName = GStr ''q''\<rparr>
       \<lparr>ID = [], data = Some (print_json demo_call)\<rparr> demo_state = Some (Return (Inr (VStr ''hi''), demo_state))"
proof -
  have "lib_laws (vlib demo_env) text_sem" "val_law (vlib demo_env) text_sem" "vstore demo_state = None"
    by (simp_all add: demo_env_def demo_state_def text_lib_laws text_val_law)
  from ai_parameter_fallback [OF this(1,2) _ demo_keys _ this(3), of "\<lparr>ID = [], data = Some (print_json demo_call)\<rparr>"
      "[(''__message_type__'', JStr ''tool_request''), (''__parameters__'', JObj [(''q'', JStr ''hi'')])]"
      "[(''q'', JStr ''hi'')]" "''hi''" 0]
  show ?thesis using demo_call_den by (simp add: raw_bytes_def)
qed

end
