(* ===== verification/Host_Client.thy ===== *)
theory Host_Client
  imports Variables
begin

text \<open>
  The host as the package sees it: the interface \<^verbatim>\<open>RuntimeHelper\<close> (\<^verbatim>\<open>interface.go\<close>), its three
  implementations (\<^verbatim>\<open>GRPCRuntimeHelperClient\<close> in \<^verbatim>\<open>grpc.go\<close>, \<^verbatim>\<open>CLIRuntimeHelper\<close> in \<^verbatim>\<open>cli_runtime.go\<close>, \<^verbatim>\<open>testClient\<close>
  in \<^verbatim>\<open>testing.go\<close>), the package functions that call it (\<^verbatim>\<open>event.go\<close>, \<^verbatim>\<open>token.go\<close>) and the setup context
  (\<^verbatim>\<open>setup.go\<close>).  The generated gRPC stub is the record \<open>rpcs\<close>, a parameter; its calls change a state
  \<open>'h\<close> of the host.  A call of the interface may panic.
\<close>

type_synonym ('h, 'a) rpc = "'h \<Rightarrow> 'a res \<times> 'h"
type_synonym ('h, 'a) call = "'h \<Rightarrow> ('a res \<times> 'h) outcome"
type_synonym pbstruct = "(string \<times> pbval option) list option"
type_synonym gmap = "(string \<times> goval) list"

record variable =
  varScope :: string
  varName :: string
  varPayload :: bytes

record node_info =
  niType :: string
  niVersion :: string
  niConfig :: gmap

record instance_access =
  AmqEndpoint :: string
  ApiEndpoint :: string
  AccessToken :: string

record http_response =
  statusCode :: "32 word"
  respHeaders :: "(string \<times> string) list"
  respBody :: bytes

record http_request =
  reqMethod :: string
  reqUrl :: string
  reqHeaders :: "(string \<times> string) list"
  reqBody :: bytes

section \<open>The interface\<close>

record 'h helper =
  hClose :: "('h, unit) call"
  hDebug :: "string \<Rightarrow> string \<Rightarrow> goval \<Rightarrow> ('h, unit) call"
  hEmitFlowEvent :: "string \<Rightarrow> string \<Rightarrow> ('h, unit) call"
  hEmitInput :: "string \<Rightarrow> bytes \<Rightarrow> ('h, unit) call"
  hEmitOutput :: "string \<Rightarrow> bytes \<Rightarrow> 32 word \<Rightarrow> ('h, unit) call"
  hEmitError :: "string \<Rightarrow> string \<Rightarrow> string \<Rightarrow> ('h, unit) call"
  hGetVaultItem :: "string \<Rightarrow> string \<Rightarrow> ('h, gmap) call"
  hSetVaultItem :: "string \<Rightarrow> string \<Rightarrow> bytes \<Rightarrow> ('h, gmap) call"
  hGetVariable :: "variable \<Rightarrow> ('h, goval) call"
  hSetVariable :: "variable \<Rightarrow> rval option \<Rightarrow> ('h, unit) call"
  hGetRobotInfo :: "('h, gmap) call"
  hAppRequest :: "bytes \<Rightarrow> 32 word \<Rightarrow> ('h, bytes) call"
  hAppRequestV2 :: "bytes \<Rightarrow> ('h, bytes) call"
  hAppPublish :: "bytes \<Rightarrow> ('h, unit) call"
  hAppDownload :: "string \<Rightarrow> string \<Rightarrow> string \<Rightarrow> ('h, string) call"
  hAppUpload :: "string \<Rightarrow> string \<Rightarrow> ('h, string) call"
  hGatewayRequest :: "string \<Rightarrow> string \<Rightarrow> string \<Rightarrow> (string \<times> string) list \<Rightarrow> ('h, http_response option) call"
  hProxyRequest :: "http_request \<Rightarrow> ('h, http_response option) call"
  hIsRunning :: "('h, bool) call"
  hGetPortConnections :: "string \<Rightarrow> int \<Rightarrow> ('h, node_info list) call"
  hGetInstanceAccess :: "('h, instance_access option) call"
  hSetupEmit :: "string \<Rightarrow> string \<Rightarrow> bytes \<Rightarrow> ('h, unit) call"
  hSetupAwait :: "string \<Rightarrow> string \<Rightarrow> bytes \<Rightarrow> 32 word \<Rightarrow> ('h, bytes \<times> bool) call"

text \<open>The stub: one function per remote call, from the fields of the request to the response.\<close>

record 'h rpcs =
  rClose :: "('h, unit) rpc"
  rDebug :: "string \<Rightarrow> string \<Rightarrow> bytes \<Rightarrow> ('h, unit) rpc"
  rEmitFlowEvent :: "string \<Rightarrow> string \<Rightarrow> ('h, unit) rpc"
  rEmitInput :: "string \<Rightarrow> bytes \<Rightarrow> ('h, unit) rpc"
  rEmitOutput :: "string \<Rightarrow> bytes \<Rightarrow> 32 word \<Rightarrow> ('h, unit) rpc"
  rEmitError :: "string \<Rightarrow> string \<Rightarrow> string \<Rightarrow> ('h, unit) rpc"
  rGetVaultItem :: "string \<Rightarrow> string \<Rightarrow> ('h, pbstruct) rpc"
  rSetVaultItem :: "string \<Rightarrow> string \<Rightarrow> bytes \<Rightarrow> ('h, pbstruct) rpc"
  rGetVariable :: "variable \<Rightarrow> ('h, pbstruct) rpc"
  rSetVariable :: "variable \<Rightarrow> pbstruct \<Rightarrow> ('h, unit) rpc"
  rGetRobotInfo :: "('h, pbstruct) rpc"
  rAppRequest :: "bytes \<Rightarrow> 32 word \<Rightarrow> ('h, bytes) rpc"
  rAppRequestV2 :: "bytes \<Rightarrow> ('h, bytes) rpc"
  rAppPublish :: "bytes \<Rightarrow> ('h, unit) rpc"
  rAppDownload :: "string \<Rightarrow> string \<Rightarrow> string \<Rightarrow> ('h, string) rpc"
  rAppUpload :: "string \<Rightarrow> string \<Rightarrow> ('h, string) rpc"
  rGatewayRequest :: "string \<Rightarrow> string \<Rightarrow> string \<Rightarrow> (string \<times> string) list \<Rightarrow> ('h, http_response) rpc"
  rProxyRequest :: "http_request \<Rightarrow> ('h, http_response) rpc"
  rIsRunning :: "('h, bool) rpc"
  rGetPortConnections :: "string \<Rightarrow> 32 word \<Rightarrow> ('h, (string \<times> string \<times> bytes) list) rpc"
  rGetInstanceAccess :: "('h, string \<times> string \<times> string) rpc"
  rSetupEmit :: "string \<Rightarrow> string \<Rightarrow> bytes \<Rightarrow> ('h, unit) rpc"
  rSetupAwait :: "string \<Rightarrow> string \<Rightarrow> bytes \<Rightarrow> 32 word \<Rightarrow> ('h, bytes \<times> bool) rpc"

text \<open>What a method does with the reply: the error is logged and returned, the response goes to \<open>f\<close>.\<close>

definition reply :: "('a \<Rightarrow> 'b outcome) \<Rightarrow> 'a res \<times> 'h \<Rightarrow> ('b res \<times> 'h) outcome" where
  "reply f r = (case r of
     (Inl e, h) \<Rightarrow> Return (Inl e, h)
   | (Inr a, h) \<Rightarrow> (case f a of Return b \<Rightarrow> Return (Inr b, h) | Panic m \<Rightarrow> Panic m))"

lemma reply_simps [simp]:
  "reply f (Inl e, h) = Return (Inl e, h)"
  "reply f (Inr a, h) = (case f a of Return b \<Rightarrow> Return (Inr b, h) | Panic m \<Rightarrow> Panic m)"
  by (simp_all add: reply_def)

text \<open>The assertion \<^verbatim>\<open>parseStruct(item).(map[string]interface{})\<close>.\<close>

definition struct_map :: "pbstruct \<Rightarrow> gmap outcome" where
  "struct_map d = (case parseStruct d of
     Panic m \<Rightarrow> Panic m
   | Return v \<Rightarrow> (case as_map v of Some m \<Rightarrow> Return m | None \<Rightarrow> Panic ''interface conversion''))"

section \<open>The gRPC client\<close>

definition grpc_SetupEmit :: "'h rpcs \<Rightarrow> string \<Rightarrow> string \<Rightarrow> bytes \<Rightarrow> ('h, unit) call" where
  "grpc_SetupEmit c guid sessionID event h = reply Return (rSetupEmit c guid sessionID event h)"

definition grpc_SetupAwait :: "'h rpcs \<Rightarrow> string \<Rightarrow> string \<Rightarrow> bytes \<Rightarrow> 32 word \<Rightarrow> ('h, bytes \<times> bool) call" where
  "grpc_SetupAwait c guid sessionID spec timeoutSec h = reply Return (rSetupAwait c guid sessionID spec timeoutSec h)"

definition grpc_Close :: "'h rpcs \<Rightarrow> ('h, unit) call" where
  "grpc_Close c h = reply Return (rClose c h)"

definition grpc_Debug :: "json_lib \<Rightarrow> 'h rpcs \<Rightarrow> string \<Rightarrow> string \<Rightarrow> goval \<Rightarrow> ('h, unit) call" where
  "grpc_Debug J c guid name msg h = (case marshal J msg of
     Inl e \<Rightarrow> Return (Inl e, h) | Inr msgData \<Rightarrow> reply Return (rDebug c guid name msgData h))"

definition grpc_EmitFlowEvent :: "'h rpcs \<Rightarrow> string \<Rightarrow> string \<Rightarrow> ('h, unit) call" where
  "grpc_EmitFlowEvent c guid name h = reply Return (rEmitFlowEvent c guid name h)"

definition grpc_EmitInput :: "'h rpcs \<Rightarrow> string \<Rightarrow> bytes \<Rightarrow> ('h, unit) call" where
  "grpc_EmitInput c guid input h = reply Return (rEmitInput c guid input h)"

definition grpc_EmitOutput :: "'h rpcs \<Rightarrow> string \<Rightarrow> bytes \<Rightarrow> 32 word \<Rightarrow> ('h, unit) call" where
  "grpc_EmitOutput c guid output port h = reply Return (rEmitOutput c guid output port h)"

definition grpc_EmitError :: "'h rpcs \<Rightarrow> string \<Rightarrow> string \<Rightarrow> string \<Rightarrow> ('h, unit) call" where
  "grpc_EmitError c guid name msg h = reply Return (rEmitError c guid name msg h)"

definition grpc_GetVaultItem :: "'h rpcs \<Rightarrow> string \<Rightarrow> string \<Rightarrow> ('h, gmap) call" where
  "grpc_GetVaultItem c vaultID itemID h = reply struct_map (rGetVaultItem c vaultID itemID h)"

definition grpc_SetVaultItem :: "'h rpcs \<Rightarrow> string \<Rightarrow> string \<Rightarrow> bytes \<Rightarrow> ('h, gmap) call" where
  "grpc_SetVaultItem c vaultID itemID d h = reply struct_map (rSetVaultItem c vaultID itemID d h)"

definition grpc_GetVariable :: "'h rpcs \<Rightarrow> variable \<Rightarrow> ('h, goval) call" where
  "grpc_GetVariable c v h = reply parseStruct (rGetVariable c v h)"

text \<open>The request carries scope and name only, and the value under the key \<^verbatim>\<open>value\<close>.\<close>

definition grpc_SetVariable :: "(rval \<Rightarrow> string) \<Rightarrow> 'h rpcs \<Rightarrow> variable \<Rightarrow> rval option \<Rightarrow> ('h, unit) call" where
  "grpc_SetVariable sprint c v value h =
     reply Return (rSetVariable c (v\<lparr>varPayload := []\<rparr>) (Some [(''value'', ToValue sprint value)]) h)"

definition grpc_AppRequest :: "'h rpcs \<Rightarrow> bytes \<Rightarrow> 32 word \<Rightarrow> ('h, bytes) call" where
  "grpc_AppRequest c request timeout h = reply Return (rAppRequest c request timeout h)"

definition grpc_AppRequestV2 :: "'h rpcs \<Rightarrow> bytes \<Rightarrow> ('h, bytes) call" where
  "grpc_AppRequestV2 c request h = reply Return (rAppRequestV2 c request h)"

definition grpc_AppPublish :: "'h rpcs \<Rightarrow> bytes \<Rightarrow> ('h, unit) call" where
  "grpc_AppPublish c request h = reply Return (rAppPublish c request h)"

definition grpc_AppDownload :: "'h rpcs \<Rightarrow> string \<Rightarrow> string \<Rightarrow> string \<Rightarrow> ('h, string) call" where
  "grpc_AppDownload c ident dir file h = reply Return (rAppDownload c dir file ident h)"

definition grpc_AppUpload :: "'h rpcs \<Rightarrow> string \<Rightarrow> string \<Rightarrow> ('h, string) call" where
  "grpc_AppUpload c ident path h = reply Return (rAppUpload c ident path h)"

definition grpc_GatewayRequest :: "'h rpcs \<Rightarrow> string \<Rightarrow> string \<Rightarrow> string \<Rightarrow> (string \<times> string) list
    \<Rightarrow> ('h, http_response option) call" where
  "grpc_GatewayRequest c meth endpoint body headers h =
     reply (\<lambda>r. Return (Some r)) (rGatewayRequest c meth endpoint body headers h)"

definition grpc_GetRobotInfo :: "'h rpcs \<Rightarrow> ('h, gmap) call" where
  "grpc_GetRobotInfo c h = reply struct_map (rGetRobotInfo c h)"

definition grpc_ProxyRequest :: "'h rpcs \<Rightarrow> http_request \<Rightarrow> ('h, http_response option) call" where
  "grpc_ProxyRequest c req h = reply (\<lambda>r. Return (Some r)) (rProxyRequest c req h)"

definition grpc_GetInstanceAccess :: "'h rpcs \<Rightarrow> ('h, instance_access option) call" where
  "grpc_GetInstanceAccess c h =
     reply (\<lambda>(amq, api, tok). Return (Some \<lparr>AmqEndpoint = amq, ApiEndpoint = api, AccessToken = tok\<rparr>))
       (rGetInstanceAccess c h)"

definition grpc_IsRunning :: "'h rpcs \<Rightarrow> ('h, bool) call" where
  "grpc_IsRunning c h = reply Return (rIsRunning c h)"

section \<open>Connected nodes\<close>

text \<open>
  \<^verbatim>\<open>json.Unmarshal(b, &config)\<close> with its error dropped: an object is merged into the map that is there,
  \<^verbatim>\<open>null\<close> clears it, anything else leaves it.
\<close>

definition unmarshal_map :: "json_lib \<Rightarrow> bytes \<Rightarrow> gmap \<Rightarrow> gmap" where
  "unmarshal_map J b config = (case unmarshal J b of
     Inr (GMap m) \<Rightarrow> fold (\<lambda>(k, v). AList.update k v) m config
   | Inr GNil \<Rightarrow> []
   | _ \<Rightarrow> config)"

definition zero_node :: node_info where
  "zero_node = \<lparr>niType = [], niVersion = [], niConfig = []\<rparr>"

text \<open>
  The entry of one node: its config holds, base64-encoded twice, the config of the node.  A text that
  does not decode is skipped, which leaves the zero entry in its place.
\<close>

definition port_entry :: "json_lib \<Rightarrow> string \<times> string \<times> bytes \<Rightarrow> node_info outcome" where
  "port_entry J = (\<lambda>(ty, ver, raw).
     (let config = unmarshal_map J raw [] in
      case as_str (map_get config ''config'') of
        None \<Rightarrow> Panic ''interface conversion''
      | Some text \<Rightarrow> (case b64_decode text of
          Inl e \<Rightarrow> Return zero_node
        | Inr d1 \<Rightarrow> (case b64_decode d1 of
            Inl e \<Rightarrow> Return zero_node
          | Inr d2 \<Rightarrow> Return \<lparr>niType = ty, niVersion = ver, niConfig = unmarshal_map J d2 config\<rparr>))))"

fun port_entries :: "json_lib \<Rightarrow> (string \<times> string \<times> bytes) list \<Rightarrow> node_info list outcome" where
  "port_entries J [] = Return []"
| "port_entries J (n # ns) =
     outcome_bind (port_entry J n) (\<lambda>e. outcome_bind (port_entries J ns) (\<lambda>es. Return (e # es)))"

definition grpc_GetPortConnections :: "json_lib \<Rightarrow> 'h rpcs \<Rightarrow> string \<Rightarrow> int \<Rightarrow> ('h, node_info list) call" where
  "grpc_GetPortConnections J c guid port h =
     reply (port_entries J) (rGetPortConnections c guid (word_of_int port) h)"

definition GRPCRuntimeHelperClient :: "json_lib \<Rightarrow> (rval \<Rightarrow> string) \<Rightarrow> 'h rpcs \<Rightarrow> 'h helper" where
  "GRPCRuntimeHelperClient J sprint c = \<lparr>
     hClose = grpc_Close c, hDebug = grpc_Debug J c, hEmitFlowEvent = grpc_EmitFlowEvent c,
     hEmitInput = grpc_EmitInput c, hEmitOutput = grpc_EmitOutput c, hEmitError = grpc_EmitError c,
     hGetVaultItem = grpc_GetVaultItem c, hSetVaultItem = grpc_SetVaultItem c, hGetVariable = grpc_GetVariable c,
     hSetVariable = grpc_SetVariable sprint c, hGetRobotInfo = grpc_GetRobotInfo c, hAppRequest = grpc_AppRequest c,
     hAppRequestV2 = grpc_AppRequestV2 c, hAppPublish = grpc_AppPublish c, hAppDownload = grpc_AppDownload c,
     hAppUpload = grpc_AppUpload c, hGatewayRequest = grpc_GatewayRequest c, hProxyRequest = grpc_ProxyRequest c,
     hIsRunning = grpc_IsRunning c, hGetPortConnections = grpc_GetPortConnections J c,
     hGetInstanceAccess = grpc_GetInstanceAccess c, hSetupEmit = grpc_SetupEmit c, hSetupAwait = grpc_SetupAwait c\<rparr>"

section \<open>The command line client\<close>

text \<open>Its state: the credentials fetched from the vault, and what was written to standard error.\<close>

record cli_state =
  credentials :: "gmap option"
  stderr :: string

definition NewCLIRuntimeHelper :: cli_state where
  "NewCLIRuntimeHelper = \<lparr>credentials = None, stderr = []\<rparr>"

definition SetCredentials :: "gmap option \<Rightarrow> cli_state \<Rightarrow> cli_state" where
  "SetCredentials creds c = c\<lparr>credentials := creds\<rparr>"

definition ok :: "'a \<Rightarrow> ('h, 'a) call" where
  "ok x h = Return (Inr x, h)"

definition fails :: "string \<Rightarrow> ('h, 'a) call" where
  "fails m h = Return (Inl (Errorf m), h)"

definition cli_Debug :: "json_lib \<Rightarrow> string \<Rightarrow> string \<Rightarrow> goval \<Rightarrow> (cli_state, unit) call" where
  "cli_Debug J guid name msg c =
     Return (Inr (), c\<lparr>stderr := stderr c @ ''[debug] '' @ name @ '': ''
       @ (case marshal J msg of Inr d \<Rightarrow> d | Inl e \<Rightarrow> []) @ [CHR 0x0A]\<rparr>)"

definition cli_EmitError :: "string \<Rightarrow> string \<Rightarrow> string \<Rightarrow> (cli_state, unit) call" where
  "cli_EmitError guid name msg c =
     Return (Inr (), c\<lparr>stderr := stderr c @ ''[error] '' @ name @ '': '' @ msg @ [CHR 0x0A]\<rparr>)"

definition cli_GetVaultItem :: "string \<Rightarrow> string \<Rightarrow> (cli_state, gmap) call" where
  "cli_GetVaultItem vaultID itemID c = (case credentials c of
     Some creds \<Rightarrow> Return (Inr creds, c)
   | None \<Rightarrow> Return (Inl (Errorf ''no credentials available: use --vault-id/--item-id flags''), c))"

definition CLIRuntimeHelper :: "json_lib \<Rightarrow> cli_state helper" where
  "CLIRuntimeHelper J = \<lparr>
     hClose = ok (),
     hDebug = cli_Debug J,
     hEmitFlowEvent = (\<lambda>_ _. ok ()),
     hEmitInput = (\<lambda>_ _. ok ()),
     hEmitOutput = (\<lambda>_ _ _. ok ()),
     hEmitError = cli_EmitError,
     hGetVaultItem = cli_GetVaultItem,
     hSetVaultItem = (\<lambda>_ _ _. fails ''SetVaultItem not supported in CLI mode''),
     hGetVariable = (\<lambda>_. ok GNil),
     hSetVariable = (\<lambda>_ _. ok ()),
     hGetRobotInfo = ok [(''id'', GStr ''cli''), (''flow_id'', GStr ''cli'')],
     hAppRequest = (\<lambda>_ _. fails ''AppRequest not supported in CLI mode''),
     hAppRequestV2 = (\<lambda>_. fails ''AppRequestV2 not supported in CLI mode''),
     hAppPublish = (\<lambda>_. fails ''AppPublish not supported in CLI mode''),
     hAppDownload = (\<lambda>_ _ _. fails ''AppDownload not supported in CLI mode''),
     hAppUpload = (\<lambda>_ _. fails ''AppUpload not supported in CLI mode''),
     hGatewayRequest = (\<lambda>_ _ _ _. fails ''GatewayRequest not supported in CLI mode''),
     hProxyRequest = (\<lambda>_. fails ''ProxyRequest not supported in CLI mode''),
     hIsRunning = ok True,
     hGetPortConnections = (\<lambda>_ _. ok []),
     hGetInstanceAccess = fails ''GetInstanceAccess not supported in CLI mode'',
     hSetupEmit = (\<lambda>_ _ _. fails ''SetupEmit not supported in CLI mode''),
     hSetupAwait = (\<lambda>_ _ _ _. fails ''SetupAwait not supported in CLI mode'')\<rparr>"

section \<open>The client for tests\<close>

text \<open>Only the two vault functions of the user's mock are used.\<close>

definition testClient :: "(string \<Rightarrow> string \<Rightarrow> ('h, gmap) call) \<Rightarrow> (string \<Rightarrow> string \<Rightarrow> bytes \<Rightarrow> ('h, gmap) call) \<Rightarrow> 'h helper" where
  "testClient getItem setItem = \<lparr>
     hClose = ok (), hDebug = (\<lambda>_ _ _. ok ()), hEmitFlowEvent = (\<lambda>_ _. ok ()), hEmitInput = (\<lambda>_ _. ok ()),
     hEmitOutput = (\<lambda>_ _ _. ok ()), hEmitError = (\<lambda>_ _ _. ok ()),
     hGetVaultItem = getItem, hSetVaultItem = setItem,
     hGetVariable = (\<lambda>_. ok GNil), hSetVariable = (\<lambda>_ _. ok ()),
     hGetRobotInfo = ok [(''robotId'', GStr ''test-robot''), (''robotName'', GStr ''Test Robot'')],
     hAppRequest = (\<lambda>_ _. ok []), hAppRequestV2 = (\<lambda>_. ok []), hAppPublish = (\<lambda>_. ok ()),
     hAppDownload = (\<lambda>_ _ _. ok []), hAppUpload = (\<lambda>_ _. ok []),
     hGatewayRequest = (\<lambda>_ _ _ _. ok None), hProxyRequest = (\<lambda>_. ok None),
     hIsRunning = ok True, hGetPortConnections = (\<lambda>_ _. ok []), hGetInstanceAccess = ok None,
     hSetupEmit = (\<lambda>_ _ _. ok ()), hSetupAwait = (\<lambda>_ _ _ _. ok ([], False))\<rparr>"

definition SetTestClient :: "(string \<Rightarrow> string \<Rightarrow> ('h, gmap) call) \<Rightarrow> (string \<Rightarrow> string \<Rightarrow> bytes \<Rightarrow> ('h, gmap) call)
    \<Rightarrow> 'h helper option \<Rightarrow> 'h helper option" where
  "SetTestClient getItem setItem client = Some (testClient getItem setItem)"

definition ClearTestClient :: "'h helper option \<Rightarrow> 'h helper option" where
  "ClearTestClient client = None"

section \<open>The functions of the package\<close>

text \<open>Every function of \<^verbatim>\<open>event.go\<close> tests the global client first.\<close>

definition guarded :: "'h helper option \<Rightarrow> ('h helper \<Rightarrow> ('h, 'a) call) \<Rightarrow> ('h, 'a) call" where
  "guarded client f h = (case client of
     None \<Rightarrow> Return (Inl (Errorf ''Runtime was not initialized''), h) | Some c \<Rightarrow> f c h)"

definition EmitDebug :: "'h helper option \<Rightarrow> string \<Rightarrow> string \<Rightarrow> goval \<Rightarrow> ('h, unit) call" where
  "EmitDebug client guid name msg = guarded client (\<lambda>c. hDebug c guid name msg)"

definition EmitOutput :: "'h helper option \<Rightarrow> string \<Rightarrow> bytes \<Rightarrow> 32 word \<Rightarrow> ('h, unit) call" where
  "EmitOutput client guid output port = guarded client (\<lambda>c. hEmitOutput c guid output port)"

definition EmitError :: "'h helper option \<Rightarrow> string \<Rightarrow> string \<Rightarrow> string \<Rightarrow> ('h, unit) call" where
  "EmitError client guid name msg = guarded client (\<lambda>c. hEmitError c guid name msg)"

definition EmitFlowEvent :: "'h helper option \<Rightarrow> string \<Rightarrow> string \<Rightarrow> ('h, unit) call" where
  "EmitFlowEvent client guid name = guarded client (\<lambda>c. hEmitFlowEvent c guid name)"

definition AppRequest :: "'h helper option \<Rightarrow> bytes \<Rightarrow> 32 word \<Rightarrow> ('h, bytes) call" where
  "AppRequest client request timeout = guarded client (\<lambda>c. hAppRequest c request timeout)"

definition AppRequestV2 :: "'h helper option \<Rightarrow> bytes \<Rightarrow> ('h, bytes) call" where
  "AppRequestV2 client request = guarded client (\<lambda>c. hAppRequestV2 c request)"

definition AppPublish :: "'h helper option \<Rightarrow> bytes \<Rightarrow> ('h, unit) call" where
  "AppPublish client request = guarded client (\<lambda>c. hAppPublish c request)"

definition AppDownload :: "'h helper option \<Rightarrow> string \<Rightarrow> string \<Rightarrow> string \<Rightarrow> ('h, string) call" where
  "AppDownload client ident dir file = guarded client (\<lambda>c. hAppDownload c ident dir file)"

definition AppUpload :: "'h helper option \<Rightarrow> string \<Rightarrow> string \<Rightarrow> ('h, string) call" where
  "AppUpload client ident path = guarded client (\<lambda>c. hAppUpload c ident path)"

definition GatewayRequest :: "'h helper option \<Rightarrow> string \<Rightarrow> string \<Rightarrow> string \<Rightarrow> (string \<times> string) list
    \<Rightarrow> ('h, http_response option) call" where
  "GatewayRequest client meth endpoint body headers = guarded client (\<lambda>c. hGatewayRequest c meth endpoint body headers)"

definition ProxyRequest :: "'h helper option \<Rightarrow> http_request \<Rightarrow> ('h, http_response option) call" where
  "ProxyRequest client req = guarded client (\<lambda>c. hProxyRequest c req)"

definition IsRunning :: "'h helper option \<Rightarrow> ('h, bool) call" where
  "IsRunning client = guarded client hIsRunning"

definition GetPortConnections :: "'h helper option \<Rightarrow> string \<Rightarrow> int \<Rightarrow> ('h, node_info list) call" where
  "GetPortConnections client guid port = guarded client (\<lambda>c. hGetPortConnections c guid port)"

definition GetInstanceAccess :: "'h helper option \<Rightarrow> ('h, instance_access option) call" where
  "GetInstanceAccess client = guarded client hGetInstanceAccess"

section \<open>The setup context\<close>

record setup_context =
  scGuid :: string
  scSession :: string
  scConfig :: bytes

record setup_input =
  siValues :: "(string \<times> string) list"
  siCancelled :: bool

definition no_input :: setup_input where
  "no_input = \<lparr>siValues = [], siCancelled = False\<rparr>"

text \<open>\<open>enc\<close> and \<open>decode\<close> are \<^verbatim>\<open>encoding/json\<close> on the event, the input spec and the input.\<close>

definition setup_Emit :: "('e \<Rightarrow> bytes res) \<Rightarrow> 'h helper option \<Rightarrow> setup_context \<Rightarrow> 'e \<Rightarrow> ('h, unit) call" where
  "setup_Emit enc client s ev h = (case client of
     None \<Rightarrow> Return (Inl (Errorf ''runtime not initialized''), h)
   | Some c \<Rightarrow> (case enc ev of
       Inl e \<Rightarrow> Return (Inl e, h) | Inr b \<Rightarrow> hSetupEmit c (scGuid s) (scSession s) b h))"

definition setup_Await :: "('s \<Rightarrow> bytes res) \<Rightarrow> (bytes \<Rightarrow> setup_input res) \<Rightarrow> 'h helper option \<Rightarrow> setup_context \<Rightarrow> 's
    \<Rightarrow> 32 word \<Rightarrow> ('h, setup_input) call" where
  "setup_Await enc decode client s spec timeoutSec h = (case client of
     None \<Rightarrow> Return (Inl (Errorf ''runtime not initialized''), h)
   | Some c \<Rightarrow> (case enc spec of
       Inl e \<Rightarrow> Return (Inl e, h)
     | Inr b \<Rightarrow> (case hSetupAwait c (scGuid s) (scSession s) b timeoutSec h of
         Panic m \<Rightarrow> Panic m
       | Return (Inl e, h') \<Rightarrow> Return (Inl e, h')
       | Return (Inr (raw, timedOut), h') \<Rightarrow>
           (if timedOut then Return (Inl (Errorf ''setup input timed out''), h')
            else if raw = [] then Return (Inr no_input, h')
            else Return (decode raw, h')))))"

section \<open>Properties\<close>

lemma port_entries_length: "port_entries J ns = Return es \<Longrightarrow> length es = length ns"
proof (induction ns arbitrary: es)
  case (Cons n ns)
  then show ?case by (cases "port_entry J n"; cases "port_entries J ns") auto
qed simp

lemma port_entries_nth: "port_entries J ns = Return es \<Longrightarrow> i < length ns \<Longrightarrow> port_entry J (ns ! i) = Return (es ! i)"
proof (induction ns arbitrary: es i)
  case (Cons n ns)
  obtain e es' where e: "port_entry J n = Return e" "port_entries J ns = Return es'" "es = e # es'"
    using Cons.prems(1) by (cases "port_entry J n"; cases "port_entries J ns") auto
  then show ?case using Cons.IH [OF e(2)] Cons.prems(2) by (cases i) auto
qed simp

lemma port_entries_panics: "(\<exists>m. port_entries J ns = Panic m) \<longleftrightarrow> (\<exists>n \<in> set ns. \<exists>m. port_entry J n = Panic m)"
proof (induction ns)
  case (Cons n ns)
  then show ?case by (cases "port_entry J n"; cases "port_entries J ns") auto
qed simp

text \<open>The config of a node as the host is expected to send it: a JSON object whose text is base64-encoded twice.\<close>

definition sends :: "json_lib \<Rightarrow> string \<times> string \<times> bytes \<Rightarrow> bytes \<Rightarrow> bool" where
  "sends J n payload \<longleftrightarrow> (\<exists>m. unmarshal J (snd (snd n)) = Inr (GMap m)
     \<and> distinct (map fst m) \<and> map_of m ''config'' = Some (GStr (b64_encode (b64_encode payload))))"

lemma fold_update_map_of:
  "distinct (map fst m) \<Longrightarrow> map_of (fold (\<lambda>(k, v). AList.update k v) m c) x = (case map_of m x of None \<Rightarrow> map_of c x | Some v \<Rightarrow> Some v)"
proof (induction m arbitrary: c)
  case (Cons kv m)
  then show ?case
    by (cases kv; cases "x = fst kv") (simp_all add: update_conv' map_of_eq_None_iff [THEN iffD2] split: option.split)
qed simp

lemma port_entry_panic: "port_entry J n = Panic m \<Longrightarrow> as_str (map_get (unmarshal_map J (snd (snd n)) []) ''config'') = None"
  by (cases n) (auto simp: port_entry_def Let_def split: option.splits sum.splits)

lemma port_entry_cases:
  "port_entry J n = Return e \<Longrightarrow> e = zero_node \<or> niType e = fst n \<and> niVersion e = fst (snd n)"
  by (cases n) (auto simp: port_entry_def Let_def split: option.splits sum.splits)

lemma port_entry_sends:
  assumes "sends J (ty, ver, raw) payload"
  shows "\<exists>cfg. port_entry J (ty, ver, raw) = Return \<lparr>niType = ty, niVersion = ver, niConfig = unmarshal_map J payload cfg\<rparr>"
proof -
  obtain m where m: "unmarshal J raw = Inr (GMap m)" "distinct (map fst m)"
    "map_of m ''config'' = Some (GStr (b64_encode (b64_encode payload)))"
    using assms by (auto simp: sends_def)
  then have "map_get (unmarshal_map J raw []) ''config'' = GStr (b64_encode (b64_encode payload))"
    by (simp add: unmarshal_map_def map_get_def fold_update_map_of)
  then show ?thesis by (intro exI [of _ "unmarshal_map J raw []"]) (simp add: port_entry_def Let_def b64_roundtrip)
qed

text \<open>
  \<^verbatim>\<open>GetPortConnections\<close> answers one entry per connected node, in order: the type, the version and the
  decoded config when the host sent the config as expected, and a zero entry, not an omission, when the
  text does not decode; it panics exactly when some node's config has no string under \<^verbatim>\<open>config\<close>.
\<close>

theorem port_connections_entries:
  assumes "rGetPortConnections c guid (word_of_int port) h = (Inr ns, h')"
  shows "(case GetPortConnections (Some (GRPCRuntimeHelperClient J sprint c)) guid port h of
      Panic m \<Rightarrow> \<exists>n \<in> set ns. as_str (map_get (unmarshal_map J (snd (snd n)) []) ''config'') = None
    | Return (r, h2) \<Rightarrow> h2 = h' \<and> (\<exists>es. r = Inr es \<and> length es = length ns
        \<and> (\<forall>i < length ns. es ! i = zero_node \<or> niType (es ! i) = fst (ns ! i) \<and> niVersion (es ! i) = fst (snd (ns ! i)))
        \<and> (\<forall>i < length ns. \<forall>p. sends J (ns ! i) p \<longrightarrow> (\<exists>cfg. niConfig (es ! i) = unmarshal_map J p cfg \<and> niType (es ! i) = fst (ns ! i)))))"
proof -
  have call: "GetPortConnections (Some (GRPCRuntimeHelperClient J sprint c)) guid port h = reply (port_entries J) (Inr ns, h')"
    using assms by (simp add: GetPortConnections_def guarded_def GRPCRuntimeHelperClient_def grpc_GetPortConnections_def)
  show ?thesis
  proof (cases "port_entries J ns")
    case (Panic m)
    then obtain n m' where n: "n \<in> set ns" "port_entry J n = Panic m'" using port_entries_panics [of J ns] by blast
    from port_entry_panic [OF this(2)] n(1) show ?thesis by (auto simp: call Panic)
  next
    case (Return es)
    have "es ! i = zero_node \<or> niType (es ! i) = fst (ns ! i) \<and> niVersion (es ! i) = fst (snd (ns ! i))" if "i < length ns" for i
      using port_entry_cases [OF port_entries_nth [OF Return that]] .
    moreover have "\<exists>cfg. niConfig (es ! i) = unmarshal_map J p cfg \<and> niType (es ! i) = fst (ns ! i)"
      if "i < length ns" "sends J (ns ! i) p" for i p
      using port_entries_nth [OF Return that(1)] port_entry_sends [of J "fst (ns ! i)" "fst (snd (ns ! i))" "snd (snd (ns ! i))" p] that(2)
      by auto
    ultimately show ?thesis using port_entries_length [OF Return] by (simp add: call Return)
  qed
qed

definition demo_rpcs :: "unit rpcs" where
  "demo_rpcs = \<lparr>rClose = (\<lambda>h. (Inr (), h)), rDebug = (\<lambda>_ _ _ h. (Inr (), h)), rEmitFlowEvent = (\<lambda>_ _ h. (Inr (), h)),
     rEmitInput = (\<lambda>_ _ h. (Inr (), h)), rEmitOutput = (\<lambda>_ _ _ h. (Inr (), h)), rEmitError = (\<lambda>_ _ _ h. (Inr (), h)),
     rGetVaultItem = (\<lambda>_ _ h. (Inr None, h)), rSetVaultItem = (\<lambda>_ _ _ h. (Inr None, h)),
     rGetVariable = (\<lambda>_ h. (Inr None, h)), rSetVariable = (\<lambda>_ _ h. (Inr (), h)), rGetRobotInfo = (\<lambda>h. (Inr None, h)),
     rAppRequest = (\<lambda>_ _ h. (Inr [], h)), rAppRequestV2 = (\<lambda>_ h. (Inr [], h)), rAppPublish = (\<lambda>_ h. (Inr (), h)),
     rAppDownload = (\<lambda>_ _ _ h. (Inr [], h)), rAppUpload = (\<lambda>_ _ h. (Inr [], h)),
     rGatewayRequest = (\<lambda>_ _ _ _ h. (Inl (Errorf ''unsupported''), h)),
     rProxyRequest = (\<lambda>_ h. (Inl (Errorf ''unsupported''), h)), rIsRunning = (\<lambda>h. (Inr True, h)),
     rGetPortConnections = (\<lambda>_ _ h. (Inr [(''Core.Sum'', ''3'', ''x'')], h)),
     rGetInstanceAccess = (\<lambda>h. (Inr ([], [], []), h)), rSetupEmit = (\<lambda>_ _ _ h. (Inr (), h)),
     rSetupAwait = (\<lambda>_ _ _ _ h. (Inr ([], False), h))\<rparr>"

definition demo_configs :: json_lib where
  "demo_configs = \<lparr>marshal = (\<lambda>_. Inl (Errorf ''unsupported'')),
     unmarshal = (\<lambda>b. Inr (GMap [(''config'', GStr ''*'')]))\<rparr>"

theorem port_connections_entries_witness:
  "GetPortConnections (Some (GRPCRuntimeHelperClient demo_configs (\<lambda>_. []) demo_rpcs)) [] 0 () = Return (Inr [zero_node], ())"
proof -
  have r: "rGetPortConnections demo_rpcs [] (word_of_int 0) () = (Inr [(''Core.Sum'', ''3'', ''x'')], ())"
    by (simp add: demo_rpcs_def)
  have e: "port_entry demo_configs (''Core.Sum'', ''3'', ''x'') = Return zero_node" by code_simp
  have "GetPortConnections (Some (GRPCRuntimeHelperClient demo_configs (\<lambda>_. []) demo_rpcs)) [] 0 ()
      = reply (port_entries demo_configs) (Inr [(''Core.Sum'', ''3'', ''x'')], ())"
    using r by (simp add: GetPortConnections_def guarded_def GRPCRuntimeHelperClient_def grpc_GetPortConnections_def)
  then show ?thesis
    using port_connections_entries [OF r, of demo_configs "\<lambda>_. []"] by (simp add: e)
qed

text \<open>
  In command line mode every credential reads as the one item fetched at start, whatever vault and
  item it names; without one every read fails; nothing can be written, and variables read as nil.
\<close>

theorem cli_vault_ignores_ids:
  "hGetVaultItem (CLIRuntimeHelper J) vid iid c
     = Return (case credentials c of Some m \<Rightarrow> Inr m
               | None \<Rightarrow> Inl (Errorf ''no credentials available: use --vault-id/--item-id flags''), c)
   \<and> hGetVaultItem (CLIRuntimeHelper J) vid iid (SetCredentials (Some creds) c) = Return (Inr creds, SetCredentials (Some creds) c)
   \<and> (\<exists>e. hSetVaultItem (CLIRuntimeHelper J) vid iid d c = Return (Inl e, c))
   \<and> hGetVariable (CLIRuntimeHelper J) v c = Return (Inr GNil, c)
   \<and> hSetVariable (CLIRuntimeHelper J) v value c = Return (Inr (), c)"
  by (simp add: CLIRuntimeHelper_def cli_GetVaultItem_def SetCredentials_def ok_def fails_def split: option.split)

text \<open>
  \<^verbatim>\<open>Await\<close> yields an input only when the host answered in time: a timeout is an error even when the
  host sent an input along, and an empty answer is the empty, not cancelled input.
\<close>

theorem setup_await_outcomes:
  assumes "rSetupAwait c (scGuid s) (scSession s) b t h = (Inr (raw, late), h')" "enc spec = Inr b"
  shows "setup_Await enc decode (Some (GRPCRuntimeHelperClient J sprint c)) s spec t h
     = Return (if late then Inl (Errorf ''setup input timed out'') else if raw = [] then Inr no_input else decode raw, h')"
  using assms by (simp add: setup_Await_def GRPCRuntimeHelperClient_def grpc_SetupAwait_def)

theorem setup_await_outcomes_witness:
  "setup_Await (\<lambda>_. Inr ''{}'') (\<lambda>_. Inl (Errorf ''bad'')) (Some (GRPCRuntimeHelperClient demo_configs (\<lambda>_. []) demo_rpcs))
     \<lparr>scGuid = [], scSession = [], scConfig = []\<rparr> () 5 () = Return (Inr no_input, ())"
  by (subst setup_await_outcomes [where raw = "[]" and late = False and b = "''{}''" and h' = "()"])
    (simp_all add: demo_rpcs_def)

end
