(* ===== verification/Cli_Vault.thy ===== *)
theory Cli_Vault
  imports Host_Client
begin

unbundle bit_operations_syntax

text \<open>
  \<^verbatim>\<open>runtime/cli_vault.go\<close>: the vault access of the command line mode.  The key files are read from the
  model of the operating system; the HTTP exchange, RSA and AES, PEM and PKCS 1 parsing and the decoding
  of the JSON replies are fields of \<open>vault_env\<close>, a parameter.  A call of the API is a function of the URL
  and the token: the server's answers do not change during one command.
\<close>

record item_response =
  irOK :: bool
  irError :: string
  irData :: string
  irIV :: string

record 'k vault_env =
  getenv :: "string \<Rightarrow> string"
  on_windows :: bool
  home_dir :: string                                      \<comment> \<open>os.UserHomeDir, empty when it fails\<close>
  file_join :: "string list \<Rightarrow> string"                    \<comment> \<open>filepath.Join of the platform\<close>
  read_dir :: "string \<Rightarrow> (string \<times> bool) list res"        \<comment> \<open>os.ReadDir: names, and whether a directory\<close>
  pem_block :: "bytes \<Rightarrow> bytes option"
  pkcs1_key :: "bytes \<Rightarrow> 'k res"
  rsa_oaep :: "'k \<Rightarrow> bytes \<Rightarrow> bytes res"                   \<comment> \<open>rsa.DecryptOAEP with SHA-256\<close>
  cbc_blocks :: "bytes \<Rightarrow> bytes \<Rightarrow> bytes \<Rightarrow> bytes"         \<comment> \<open>AES-CBC decryption of whole blocks: key, IV, data\<close>
  http_get :: "string \<Rightarrow> string \<Rightarrow> (nat \<times> bytes res) res"  \<comment> \<open>URL and token to status and body\<close>
  dec_item :: "bytes \<Rightarrow> item_response res"
  dec_vaults :: "bytes \<Rightarrow> bytes list res"
  dec_items :: "bytes \<Rightarrow> bytes list res"
  dec_vault :: "bytes \<Rightarrow> (string \<times> string) res"           \<comment> \<open>id and encrypted vault key\<close>
  dec_entry :: "bytes \<Rightarrow> (string \<times> string) res"           \<comment> \<open>id and name\<close>
  dec_creds :: "bytes \<Rightarrow> gmap option res"            \<comment> \<open>\<^verbatim>\<open>null\<close> gives the nil map\<close>

record 'k vault_client =
  apiBaseURL :: string
  accessToken :: string
  robotID :: string
  robotPrivateKey :: "'k option"
  vaultSecrets :: "(string \<times> bytes) list"

section \<open>Keys on disk\<close>

definition configDir :: "'k vault_env \<Rightarrow> string" where
  "configDir V =
     (if on_windows V then
        (let home0 = getenv V ''HOMEDRIVE'' @ getenv V ''HOMEPATH'';
             home = (if home0 = [] then getenv V ''USERPROFILE'' else home0)
         in file_join V [home, ''AppData'', ''Local'', ''Robomotion''])
      else file_join V [home_dir V, ''.config'', ''robomotion''])"

definition defaultKeysDir :: "'k vault_env \<Rightarrow> string" where
  "defaultKeysDir V = file_join V [configDir V, ''keys'']"

definition loadRobotPrivateKey :: "'k vault_env \<Rightarrow> string \<Rightarrow> os \<Rightarrow> 'k res \<times> os" where
  "loadRobotPrivateKey V robot w =
     (let privPath = file_join V [defaultKeysDir V, robot] in
      case os_read_file privPath w of
        (Inl e, w') \<Rightarrow> (Inl (Wrap (''cannot read '' @ privPath) e), w')
      | (Inr pemData, w') \<Rightarrow> (case pem_block V pemData of
          None \<Rightarrow> (Inl (Errorf (''no PEM block found in '' @ privPath)), w')
        | Some block \<Rightarrow> (pkcs1_key V block, w')))"

text \<open>
  The lines of a vaults file.  \<open>inVaults\<close> says that the line \<^verbatim>\<open>vaults:\<close> was seen; the first line after it
  that is not indented ends the section.  A line without a colon and a blank, or whose value is no
  base64 text, is skipped.
\<close>

fun vault_lines :: "bool \<Rightarrow> string list \<Rightarrow> (string \<times> bytes) list \<Rightarrow> (string \<times> bytes) list" where
  "vault_lines inVaults [] secrets = secrets"
| "vault_lines inVaults (line # lines) secrets =
     (let trimmed = trim_space line in
      if trimmed = [] \<or> trimmed = ''---'' then vault_lines inVaults lines secrets
      else if trimmed = ''vaults:'' then vault_lines True lines secrets
      else if \<not> inVaults then vault_lines inVaults lines secrets
      else if \<not> has_prefix line '' '' \<and> \<not> has_prefix line [CHR 0x09] then secrets
      else case index_str trimmed '': '' of
        None \<Rightarrow> vault_lines inVaults lines secrets
      | Some idx \<Rightarrow> (case b64_decode (drop (idx + 2) trimmed) of
          Inl e \<Rightarrow> vault_lines inVaults lines secrets
        | Inr decoded \<Rightarrow> vault_lines inVaults lines (AList.update (take idx trimmed) decoded secrets)))"

definition parseVaultsFile :: "bytes \<Rightarrow> (string \<times> bytes) list \<Rightarrow> (string \<times> bytes) list" where
  "parseVaultsFile d secrets = vault_lines False (split_on (CHR 0x0A) d) secrets"

fun read_vaults_files :: "'k vault_env \<Rightarrow> (string \<times> bool) list \<Rightarrow> (string \<times> bytes) list \<Rightarrow> os \<Rightarrow> (string \<times> bytes) list \<times> os" where
  "read_vaults_files V [] secrets w = (secrets, w)"
| "read_vaults_files V ((name, isDir) # es) secrets w =
     (if isDir \<or> \<not> has_suffix name ''.vaults'' then read_vaults_files V es secrets w
      else case os_read_file (file_join V [defaultKeysDir V, name]) w of
        (Inl e, w') \<Rightarrow> read_vaults_files V es secrets w'
      | (Inr d, w') \<Rightarrow> read_vaults_files V es (parseVaultsFile d secrets) w')"

definition loadVaultSecrets :: "'k vault_env \<Rightarrow> string \<Rightarrow> os \<Rightarrow> (string \<times> bytes) list \<times> os" where
  "loadVaultSecrets V robot w =
     (case os_read_file (file_join V [defaultKeysDir V, robot @ ''.vaults'']) w of
        (Inr d, w') \<Rightarrow> (parseVaultsFile d [], w')
      | (Inl e, w') \<Rightarrow> (case read_dir V (defaultKeysDir V) of
          Inl e \<Rightarrow> ([], w') | Inr entries \<Rightarrow> read_vaults_files V entries [] w'))"

definition newCLIVaultClientFromEnv :: "'k vault_env \<Rightarrow> string \<Rightarrow> os \<Rightarrow> 'k vault_client res \<times> os" where
  "newCLIVaultClientFromEnv V token w =
     (let robot = getenv V ''ROBOMOTION_ROBOT_ID'';
          url = getenv V ''ROBOMOTION_API_URL''
      in if robot = [] then (Inl (Errorf ''ROBOMOTION_API_TOKEN set but ROBOMOTION_ROBOT_ID is missing''), w)
         else case loadRobotPrivateKey V robot w of
           (Inl e, w1) \<Rightarrow> (Inl (Wrap ''robot private key'' e), w1)
         | (Inr key, w1) \<Rightarrow> (case loadVaultSecrets V robot w1 of (secrets, w2) \<Rightarrow>
             (Inr \<lparr>apiBaseURL = (if url = [] then ''https://api.robomotion.io'' else url), accessToken = token,
                   robotID = robot, robotPrivateKey = Some key, vaultSecrets = secrets\<rparr>, w2)))"

definition NewCLIVaultClient :: "'k vault_env \<Rightarrow> os \<Rightarrow> 'k vault_client res \<times> os" where
  "NewCLIVaultClient V w =
     (let token = getenv V ''ROBOMOTION_API_TOKEN'' in
      if token = [] then (Inl (Errorf ''ROBOMOTION_API_TOKEN env var is required''), w)
      else newCLIVaultClientFromEnv V token w)"

section \<open>The API\<close>

definition apiGet :: "'k vault_env \<Rightarrow> 'k vault_client \<Rightarrow> string \<Rightarrow> bytes res" where
  "apiGet V c endpoint =
     (let url = trim_right_of (\<lambda>x. x = CHR ''/'') (apiBaseURL c) @ endpoint in
      case http_get V url (accessToken c) of
        Inl e \<Rightarrow> Inl e
      | Inr (status, Inl e) \<Rightarrow> Inl e
      | Inr (status, Inr body) \<Rightarrow>
          if status = 401 then Inl (Errorf ''authentication expired; run 'robomotion login' again'')
          else if status \<noteq> 200 then Inl (Errorf (''API error '' @ show_nat status @ '': '' @ body))
          else Inr body)"

definition list_endpoint :: "'k vault_client \<Rightarrow> string" where
  "list_endpoint c = (if robotID c \<noteq> [] then ''/v1/vaults.list?robot_id='' @ robotID c else ''/v1/vaults.list'')"

text \<open>The first vault with the id; entries that do not decode are skipped.\<close>

fun find_vault :: "'k vault_env \<Rightarrow> string \<Rightarrow> bytes list \<Rightarrow> string res" where
  "find_vault V vaultID [] = Inl (Errorf (''vault '' @ vaultID @ '' not found''))"
| "find_vault V vaultID (raw # raws) = (case dec_vault V raw of
     Inl e \<Rightarrow> find_vault V vaultID raws
   | Inr (i, enc) \<Rightarrow> if i = vaultID then Inr enc else find_vault V vaultID raws)"

definition fetchVault :: "'k vault_env \<Rightarrow> 'k vault_client \<Rightarrow> string \<Rightarrow> string res" where
  "fetchVault V c vaultID = (case apiGet V c (list_endpoint c) of
     Inl e \<Rightarrow> Inl e
   | Inr body \<Rightarrow> (case dec_vaults V body of Inl e \<Rightarrow> Inl e | Inr raws \<Rightarrow> find_vault V vaultID raws))"

definition getPrivateKey :: "'k vault_client \<Rightarrow> 'k res" where
  "getPrivateKey c = (case robotPrivateKey c of None \<Rightarrow> Inl (Errorf ''no private key loaded'') | Some k \<Rightarrow> Inr k)"

definition getSecretKey :: "'k vault_client \<Rightarrow> string \<Rightarrow> bytes res" where
  "getSecretKey c vaultID = (case map_of (vaultSecrets c) vaultID of
     Some secret \<Rightarrow> Inr secret
   | None \<Rightarrow> Inl (Errorf (''no vault secret for '' @ vaultID @ '' in .vaults files'')))"

definition xor_byte :: "char \<Rightarrow> char \<Rightarrow> char" where
  "xor_byte a b = char_of ((of_char a :: nat) XOR of_char b)"

definition getVaultKey :: "'k vault_env \<Rightarrow> 'k vault_client \<Rightarrow> string \<Rightarrow> bytes res" where
  "getVaultKey V c vaultID = (case getPrivateKey c of
     Inl e \<Rightarrow> Inl e
   | Inr privKey \<Rightarrow> (case fetchVault V c vaultID of
       Inl e \<Rightarrow> Inl e
     | Inr encKey \<Rightarrow> (case b64_decode encKey of
         Inl e \<Rightarrow> Inl (Wrap ''invalid vault key encoding'' e)
       | Inr encVaultKey \<Rightarrow> (case rsa_oaep V privKey encVaultKey of
           Inl e \<Rightarrow> Inl (Wrap ''RSA decrypt vault key failed'' e)
         | Inr vaultKey \<Rightarrow> (case getSecretKey c vaultID of
             Inl e \<Rightarrow> Inl e
           | Inr encSecretKey \<Rightarrow> (case rsa_oaep V privKey encSecretKey of
               Inl e \<Rightarrow> Inl (Wrap ''RSA decrypt secret key failed'' e)
             | Inr secretKey \<Rightarrow>
                 if length secretKey \<noteq> length vaultKey then Inl (Errorf ''key length mismatch'')
                 else Inr (map2 xor_byte secretKey vaultKey)))))))"

section \<open>Decryption\<close>

definition pkcs7Unpad :: "bytes \<Rightarrow> bytes" where
  "pkcs7Unpad d =
     (if d = [] then d
      else let padding = of_char (last d) :: nat in
           if padding > length d \<or> padding = 0 then d else take (length d - padding) d)"

text \<open>\<^verbatim>\<open>NewCBCDecrypter\<close> and \<^verbatim>\<open>CryptBlocks\<close> of \<^verbatim>\<open>crypto/cipher\<close> panic on a short IV and on a partial block.\<close>

definition decryptAESCBC :: "'k vault_env \<Rightarrow> bytes \<Rightarrow> bytes \<Rightarrow> string \<Rightarrow> bytes res outcome" where
  "decryptAESCBC V key d ivHex =
     (if length key \<notin> {16, 24, 32} then Return (Inl (Errorf (''crypto/aes: invalid key size '' @ show_nat (length key))))
      else if length d < 16 then Return (Inl (Errorf ''ciphertext too short''))
      else case hex_decode ivHex of
        Inl e \<Rightarrow> Return (Inl (Wrap ''invalid IV'' e))
      | Inr iv \<Rightarrow>
          if length iv \<noteq> 16 then Panic ''cipher.NewCBCDecrypter: IV length must equal block size''
          else if length d mod 16 \<noteq> 0 then Panic ''crypto/cipher: input not full blocks''
          else Return (Inr (pkcs7Unpad (cbc_blocks V key iv d))))"

definition FetchVaultItem :: "'k vault_env \<Rightarrow> 'k vault_client \<Rightarrow> string \<Rightarrow> string \<Rightarrow> gmap option res outcome" where
  "FetchVaultItem V c vaultID itemID =
     (case apiGet V c (''/v1/vaults.items.get?vault_id='' @ vaultID @ ''&item_id='' @ itemID) of
        Inl e \<Rightarrow> Return (Inl (Wrap ''vault API error'' e))
      | Inr body \<Rightarrow> (case dec_item V body of
          Inl e \<Rightarrow> Return (Inl (Wrap ''invalid vault response'' e))
        | Inr resp \<Rightarrow>
            if \<not> irOK resp then
              Return (Inl (Errorf
                (if irError resp \<noteq> []
                 then ''vault error: '' @ irError resp @ '' (vault='' @ vaultID @ '' item='' @ itemID @ '')''
                 else ''vault item not found: vault='' @ vaultID @ '' item='' @ itemID)))
            else case hex_decode (irData resp) of
              Inl e \<Rightarrow> Return (Inl (Wrap ''invalid encrypted data'' e))
            | Inr encData \<Rightarrow> (case getVaultKey V c vaultID of
                Inl e \<Rightarrow> Return (Inl (Wrap ''vault key error'' e))
              | Inr vaultKey \<Rightarrow>
                  outcome_bind (decryptAESCBC V vaultKey encData (irIV resp)) (\<lambda>r.
                    Return (case r of
                      Inl e \<Rightarrow> Inl (Wrap ''decryption error'' e)
                    | Inr plaintext \<Rightarrow> (case dec_creds V plaintext of
                        Inl e \<Rightarrow> Inl (Wrap ''invalid credential data'' e)
                      | Inr result \<Rightarrow> Inr result))))))"

section \<open>Names\<close>

text \<open>The entries whose name is the given one up to case; those that do not decode are skipped.\<close>

fun name_matches :: "'k vault_env \<Rightarrow> string \<Rightarrow> bytes list \<Rightarrow> (string \<times> string) list" where
  "name_matches V name [] = []"
| "name_matches V name (raw # raws) = (case dec_entry V raw of
     Inl e \<Rightarrow> name_matches V name raws
   | Inr (i, n) \<Rightarrow> if equal_fold n name then (i, n) # name_matches V name raws else name_matches V name raws)"

definition flag_lines :: "string \<Rightarrow> (string \<times> string) list \<Rightarrow> string list" where
  "flag_lines flag ms = map (\<lambda>(i, n). ''  --'' @ flag @ ''='' @ i @ ''  ('' @ n @ '')'') ms"

definition ResolveVaultByName :: "'k vault_env \<Rightarrow> 'k vault_client \<Rightarrow> string \<Rightarrow> string res" where
  "ResolveVaultByName V c name = (case apiGet V c (list_endpoint c) of
     Inl e \<Rightarrow> Inl (Wrap ''failed to list vaults'' e)
   | Inr body \<Rightarrow> (case dec_vaults V body of
       Inl e \<Rightarrow> Inl e
     | Inr raws \<Rightarrow> (case name_matches V name raws of
         [] \<Rightarrow> Inl (Errorf (''no vault found with name '' @ name))
       | [(i, n)] \<Rightarrow> Inr i
       | ms \<Rightarrow> Inl (Errorf (join_with [CHR 0x0A]
             ((''ambiguous vault name '' @ name @ '' matches '' @ show_nat (length ms) @ '' vaults:'')
              # flag_lines ''vault-id'' ms))))))"

definition ResolveItemByName :: "'k vault_env \<Rightarrow> 'k vault_client \<Rightarrow> string \<Rightarrow> string \<Rightarrow> string res" where
  "ResolveItemByName V c vaultID name = (case apiGet V c (''/v1/vaults.items.list?vault_id='' @ vaultID) of
     Inl e \<Rightarrow> Inl (Wrap ''failed to list vault items'' e)
   | Inr body \<Rightarrow> (case dec_items V body of
       Inl e \<Rightarrow> Inl e
     | Inr raws \<Rightarrow> (case name_matches V name raws of
         [] \<Rightarrow> Inl (Errorf (''no item found with name '' @ name @ '' in vault '' @ vaultID))
       | [(i, n)] \<Rightarrow> Inr i
       | ms \<Rightarrow> Inl (Errorf (join_with [CHR 0x0A]
             ((''ambiguous item name '' @ name @ '' matches '' @ show_nat (length ms) @ '' items:'')
              # flag_lines ''item-id'' ms))))))"

section \<open>Reading the key files\<close>

definition b64_text_char :: "char \<Rightarrow> bool" where
  "b64_text_char c \<longleftrightarrow> c \<in> set b64_alphabet \<or> c = CHR ''=''"

lemma b64_text_chars: "list_all b64_text_char (b64_encode b)"
proof -
  have "b64_text_char (b64_char n)" if "n < 64" for n using that by (simp add: b64_text_char_def b64_char_in)
  note nc = this
  show ?thesis
    by (induction b rule: b64_encode.induct) (simp_all add: Let_def nc b64_arith b64_text_char_def [of "CHR ''=''"])
qed

lemma b64_text_char_plain: "b64_text_char c \<Longrightarrow> \<not> is_space c \<and> c \<noteq> CHR 0x0A"
  by (auto simp: b64_text_char_def b64_alphabet_def is_space_def)

lemma trim_space_padded:
  assumes "list_all is_space sp" "s \<noteq> []" "\<not> is_space (hd s)" "\<not> is_space (last s)"
  shows "trim_space (sp @ s) = s"
proof -
  have "dropWhile is_space (sp @ s) = s"
    using assms(1-3) by (cases s) (auto simp: dropWhile_append2 list_all_iff)
  moreover have "dropWhile is_space (rev s) = rev s" using assms(2,4) by (cases s rule: rev_cases) auto
  ultimately show ?thesis by (simp add: trim_space_def trim_right_of_def)
qed

lemma index_str_colon: "CHR '':'' \<notin> set k \<Longrightarrow> index_str (k @ '': '' @ v) '': '' = Some (length k)"
  by (induction k) (auto simp: has_prefix_def)

text \<open>An id as the file may hold it, and the file that holds the given secrets.\<close>

definition plain_id :: "string \<Rightarrow> bool" where
  "plain_id k \<longleftrightarrow> k \<noteq> [] \<and> list_all (\<lambda>c. \<not> is_space c \<and> c \<noteq> CHR '':'') k"

definition vault_line :: "string \<times> bytes \<Rightarrow> string" where
  "vault_line = (\<lambda>(k, b). ''  '' @ k @ '': '' @ b64_encode b)"

definition render_vaults :: "(string \<times> bytes) list \<Rightarrow> string" where
  "render_vaults m = join_with [CHR 0x0A] (''---'' # ''vaults:'' # map vault_line m)"

lemma newline_space: "is_space (CHR 0x0A)" "is_space (CHR '' '')"
  by (simp_all add: is_space_def)

lemma vault_line_plain: "plain_id k \<Longrightarrow> CHR 0x0A \<notin> set (vault_line (k, b))"
  using b64_text_chars [of b] b64_text_char_plain newline_space
  by (auto simp: vault_line_def plain_id_def list_all_iff)

lemma vault_line_step:
  assumes "plain_id k" "b \<noteq> []"
  shows "vault_lines True (vault_line (k, b) # lines) secrets = vault_lines True lines (AList.update k b secrets)"
proof -
  have b: "b64_encode b \<noteq> []" using assms(2) by (cases b rule: b64_encode.cases) (simp_all add: Let_def)
  have "\<not> is_space (last (b64_encode b))"
    using b64_text_chars [of b] b64_text_char_plain last_in_set [OF b] by (auto simp: list_all_iff)
  then have t: "trim_space (''  '' @ (k @ '': '' @ b64_encode b)) = k @ '': '' @ b64_encode b"
    using assms(1) b by (intro trim_space_padded) (auto simp: plain_id_def newline_space list_all_iff)
  have c: "CHR '':'' \<notin> set k" using assms(1) by (auto simp: plain_id_def list_all_iff)
  have "x \<noteq> ''---'' \<and> x \<noteq> ''vaults:''" if "CHR '' '' \<in> set x" for x :: string using that by auto
  then have n: "k @ '': '' @ b64_encode b \<noteq> ''---''" "k @ '': '' @ b64_encode b \<noteq> ''vaults:''" by simp_all
  show ?thesis
    using t n index_str_colon [OF c, of "b64_encode b"] assms(1)
    by (simp add: vault_line_def Let_def has_prefix_def b64_roundtrip plain_id_def)
qed

text \<open>
  A vaults file that lists ids and base64-encoded secrets is read back: every id gets its secret,
  and ids it does not list keep what was known before.
\<close>

theorem parseVaultsFile_render:
  assumes "\<forall>(k, b) \<in> set m. plain_id k \<and> b \<noteq> []" "distinct (map fst m)"
  shows "map_of (parseVaultsFile (render_vaults m) secrets) k = (case map_of m k of Some b \<Rightarrow> Some b | None \<Rightarrow> map_of secrets k)"
proof -
  have "vault_lines True (map vault_line m) s = fold (\<lambda>(k, b). AList.update k b) m s" for s
    using assms(1) by (induction m arbitrary: s) (auto simp: vault_line_step simp del: vault_lines.simps(2))
  moreover have "split_on (CHR 0x0A) (render_vaults m) = ''---'' # ''vaults:'' # map vault_line m"
    unfolding render_vaults_def using assms(1) by (intro split_join) (auto simp: vault_line_plain)
  moreover have "trim_space ''---'' = ''---''" "trim_space ''vaults:'' = ''vaults:''"
    using trim_space_padded [of "[]" "''---''"] trim_space_padded [of "[]" "''vaults:''"] by (simp_all add: is_space_def)
  ultimately have "parseVaultsFile (render_vaults m) secrets = fold (\<lambda>(k, b). AList.update k b) m secrets"
    by (simp add: parseVaultsFile_def)
  then show ?thesis using assms(2) by (simp add: fold_update_map_of split: option.split)
qed

theorem parseVaultsFile_render_witness:
  "map_of (parseVaultsFile (render_vaults [(''v1'', ''secret'')]) []) ''v1'' = Some ''secret''"
  by (subst parseVaultsFile_render) (simp_all add: plain_id_def is_space_def)

section \<open>Items\<close>

lemma xor_byte_cancel: "xor_byte a (xor_byte b a) = b"
proof -
  have "(of_char (xor_byte b a) :: nat) = take_bit 8 (of_char b XOR of_char a)"
    by (simp add: xor_byte_def take_bit_eq_mod)
  also have "\<dots> = of_char b XOR of_char a"
    by (simp add: take_bit_eq_mod [of 8 "of_char _"] take_bit_xor)
  finally show ?thesis by (simp add: xor_byte_def xor.assoc [symmetric] xor.commute)
qed

lemma map2_xor_cancel: "length s = length k \<Longrightarrow> map2 xor_byte s (map2 xor_byte k s) = k"
  by (induction s k rule: list_induct2) (simp_all add: xor_byte_cancel)

definition pkcs7_pad :: "bytes \<Rightarrow> bytes" where
  "pkcs7_pad d = (let n = 16 - length d mod 16 in d @ replicate n (char_of n))"

lemma pkcs7_length: "length (pkcs7_pad d) mod 16 = 0 \<and> 16 \<le> length (pkcs7_pad d)"
proof -
  have "length d mod 16 < 16" by simp
  then have "(length d + (16 - length d mod 16)) mod 16 = 0" "16 \<le> length d + (16 - length d mod 16)" by presburger+
  then show ?thesis by (simp add: pkcs7_pad_def Let_def)
qed

lemma unpad_append: "0 < n \<Longrightarrow> n \<le> 16 \<Longrightarrow> pkcs7Unpad (d @ replicate n (char_of n)) = d"
  by (simp add: pkcs7Unpad_def last_append)

lemma pkcs7_roundtrip: "pkcs7Unpad (pkcs7_pad d) = d"
  unfolding pkcs7_pad_def Let_def by (rule unpad_append) simp_all

lemma find_vault_first:
  assumes "map (dec_vault V) raws = pre @ Inr (vid, enc) # post" "\<forall>x. Inr (vid, x) \<notin> set pre"
  shows "find_vault V vid raws = Inr enc"
  using assms
proof (induction raws arbitrary: pre)
  case (Cons r rs)
  then show ?case by (cases pre) (fastforce split: sum.splits prod.splits)+
qed simp

text \<open>
  C24. Fetching an item undoes how it is stored: the item key is split into a part held by the server
  and a part in the robot's key file, both encrypted for the robot's RSA key; the padded credentials
  are encrypted with the key.  When the server sends the matching vault and item, \<^verbatim>\<open>FetchVaultItem\<close> yields
  the credentials.
\<close>

theorem vault_item_roundtrip:
  assumes "apiGet V c (''/v1/vaults.items.get?vault_id='' @ vid @ ''&item_id='' @ iid) = Inr body"
    and "dec_item V body = Inr \<lparr>irOK = True, irError = err, irData = hex_encode enc, irIV = hex_encode iv\<rparr>"
    and "apiGet V c (list_endpoint c) = Inr vaults" "dec_vaults V vaults = Inr raws"
    and "map (dec_vault V) raws = pre @ Inr (vid, b64_encode encVaultKey) # post" "\<forall>x. Inr (vid, x) \<notin> set pre"
    and "robotPrivateKey c = Some k" "map_of (vaultSecrets c) vid = Some encSecret"
    and "rsa_oaep V k encSecret = Inr secret" "rsa_oaep V k encVaultKey = Inr (map2 xor_byte key secret)"
    and "length secret = length key" "length key \<in> {16, 24, 32}" "length iv = 16"
    and "length enc = length (pkcs7_pad msg)" "cbc_blocks V key iv enc = pkcs7_pad msg"
    and "dec_creds V msg = Inr creds"
  shows "FetchVaultItem V c vid iid = Return (Inr creds)"
proof -
  have "getVaultKey V c vid = Inr key"
    using assms(3,4,7-11) find_vault_first [OF assms(5,6)]
    by (simp add: getVaultKey_def getPrivateKey_def fetchVault_def getSecretKey_def b64_roundtrip map2_xor_cancel)
  moreover have "decryptAESCBC V key enc (hex_encode iv) = Return (Inr msg)"
    using assms(12-15) pkcs7_length [of msg] by (simp add: decryptAESCBC_def hex_roundtrip pkcs7_roundtrip)
  ultimately show ?thesis using assms(1,2,16) by (simp add: FetchVaultItem_def hex_roundtrip)
qed

definition demo_key :: bytes where
  "demo_key = replicate 16 (CHR ''k'')"

definition demo_vault :: "unit vault_env" where
  "demo_vault = \<lparr>getenv = (\<lambda>_. []), on_windows = False, home_dir = ''/home/r'', file_join = path_join,
     read_dir = (\<lambda>_. Inr []), pem_block = Some, pkcs1_key = (\<lambda>_. Inr ()), rsa_oaep = (\<lambda>_ b. Inr b),
     cbc_blocks = (\<lambda>key iv d. d),
     http_get = (\<lambda>url tok. Inr (200, Inr (if url = ''h/v1/vaults.list?robot_id=r'' then ''vaults'' else ''item''))),
     dec_item = (\<lambda>_. Inr \<lparr>irOK = True, irError = [], irData = hex_encode (pkcs7_pad ''pw''),
        irIV = hex_encode (replicate 16 (CHR ''i''))\<rparr>),
     dec_vaults = (\<lambda>_. Inr [''raw'']), dec_items = (\<lambda>_. Inr []),
     dec_vault = (\<lambda>_. Inr (''v'', b64_encode (map2 xor_byte demo_key (replicate 16 (CHR ''s''))))),
     dec_entry = (\<lambda>_. Inr (''v'', ''Main'')), dec_creds = (\<lambda>p. Inr (Some [(''password'', GStr p)]))\<rparr>"

definition demo_client :: "unit vault_client" where
  "demo_client = \<lparr>apiBaseURL = ''h'', accessToken = ''t'', robotID = ''r'', robotPrivateKey = Some (),
     vaultSecrets = [(''v'', replicate 16 (CHR ''s''))]\<rparr>"

theorem vault_item_roundtrip_witness:
  "FetchVaultItem demo_vault demo_client ''v'' ''i'' = Return (Inr (Some [(''password'', GStr ''pw'')]))"
  by (rule vault_item_roundtrip [where pre = "[]" and post = "[]" and msg = "''pw''" and key = demo_key
        and secret = "replicate 16 (CHR ''s'')" and k = "()" and iv = "replicate 16 (CHR ''i'')" and enc = "pkcs7_pad ''pw''"
        and body = "''item''" and vaults = "''vaults''" and raws = "[''raw'']" and err = "[]"
        and encVaultKey = "map2 xor_byte demo_key (replicate 16 (CHR ''s''))" and encSecret = "replicate 16 (CHR ''s'')"])
    (simp_all add: demo_vault_def demo_client_def apiGet_def list_endpoint_def trim_right_of_def demo_key_def)

text \<open>
  C25. Decryption panics, instead of returning an error, exactly when the key and the data are long
  enough and the server sent an IV that is hexadecimal but not 16 bytes long, or data that is no whole
  number of blocks.
\<close>

theorem decrypt_panics_exactly:
  "(\<exists>m. decryptAESCBC V key d ivHex = Panic m) \<longleftrightarrow>
     length key \<in> {16, 24, 32} \<and> 16 \<le> length d
     \<and> (\<exists>iv. hex_decode ivHex = Inr iv \<and> (length iv \<noteq> 16 \<or> length d mod 16 \<noteq> 0))"
proof (cases "hex_decode ivHex")
  case (Inl e)
  then show ?thesis by (simp add: decryptAESCBC_def)
next
  case (Inr iv)
  then show ?thesis by (auto simp: decryptAESCBC_def)
qed

theorem decrypt_panics_exactly_witness:
  "\<exists>m. decryptAESCBC demo_vault demo_key (replicate 16 (CHR ''d'')) [] = Panic m"
  by (simp add: decrypt_panics_exactly demo_key_def)

text \<open>The entries of a listing that decode.\<close>

definition decoded :: "'k vault_env \<Rightarrow> bytes list \<Rightarrow> (string \<times> string) list" where
  "decoded V raws = concat (map (\<lambda>raw. case dec_entry V raw of Inl e \<Rightarrow> [] | Inr x \<Rightarrow> [x]) raws)"

lemma name_matches_filter: "name_matches V name raws = filter (\<lambda>x. equal_fold (snd x) name) (decoded V raws)"
  by (induction raws) (auto simp: decoded_def split: sum.split)

text \<open>
  A vault name resolves to an id exactly when one listed vault, and only one, has that name up to
  case; with none or several the result is an error, whatever their order.
\<close>

theorem resolve_vault_unique:
  assumes "apiGet V c (list_endpoint c) = Inr body" "dec_vaults V body = Inr raws"
  shows "ResolveVaultByName V c name = Inr i
    \<longleftrightarrow> (\<exists>n. filter (\<lambda>x. equal_fold (snd x) name) (decoded V raws) = [(i, n)])"
  using assms
  by (auto simp: ResolveVaultByName_def name_matches_filter split: list.splits prod.splits)

theorem resolve_vault_unique_witness:
  "ResolveVaultByName demo_vault demo_client ''MAIN'' = Inr ''v''"
proof -
  have "apiGet demo_vault demo_client (list_endpoint demo_client) = Inr ''vaults''" "dec_vaults demo_vault ''vaults'' = Inr [''raw'']"
    "decoded demo_vault [''raw''] = [(''v'', ''Main'')]"
    by (simp_all add: demo_vault_def demo_client_def apiGet_def list_endpoint_def trim_right_of_def decoded_def)
  moreover have "equal_fold ''Main'' ''MAIN''" by code_simp
  ultimately show ?thesis using resolve_vault_unique [of demo_vault demo_client _ _ "''MAIN''" "''v''"] by simp
qed

end
