(* ===== verification/Cli.thy ===== *)
theory Cli
  imports Node_Server Spec_Gen Cli_Vault
begin

text \<open>
  The command line mode: \<^verbatim>\<open>runtime/cli.go\<close> and the registration of node types in \<^verbatim>\<open>runtime/registry.go\<close>.
  A registered node type is its name and its fields with their tags.  The case conversions of the
  package \<^verbatim>\<open>strcase\<close>, \<^verbatim>\<open>encoding/json\<close> and the node types' own code are parameters.  A Go map whose
  entries the code visits is an association list, whose order stands for the order of the visit.  The
  texts of error messages leave out the quotation marks that \<^verbatim>\<open>%q\<close> adds.
\<close>

section \<open>Registries\<close>

text \<open>
  A store that maps the key of what is added to a value made from it.  The tables of the package that
  are filled entry by entry are of this kind: the latest entry of a key wins.
\<close>

locale registry =
  fixes lookup :: "'k \<Rightarrow> 's \<Rightarrow> 'v option"
    and add :: "'a \<Rightarrow> 's \<Rightarrow> 's"
    and key_of :: "'a \<Rightarrow> 'k"
    and val_of :: "'a \<Rightarrow> 'v"
  assumes lookup_add: "lookup k (add a s) = (if k = key_of a then Some (val_of a) else lookup k s)"
begin

lemma lookup_fold:
  "lookup k (fold add xs s) = (case map_of (rev (map (\<lambda>a. (key_of a, val_of a)) xs)) k of
     Some v \<Rightarrow> Some v | None \<Rightarrow> lookup k s)"
proof (induction xs arbitrary: s)
  case (Cons a xs)
  then show ?case by (auto simp: lookup_add map_add_def split: option.splits)
qed simp

lemma lookup_fold_distinct:
  assumes "distinct (map key_of xs)" "a \<in> set xs"
  shows "lookup (key_of a) (fold add xs s) = Some (val_of a)"
proof -
  let ?ps = "rev (map (\<lambda>a. (key_of a, val_of a)) xs)"
  have "map fst ?ps = rev (map key_of xs)" by (simp add: rev_map [symmetric] comp_def)
  then have "map_of ?ps (key_of a) = Some (val_of a)"
    using assms by (intro map_of_is_SomeI) auto
  then show ?thesis by (simp add: lookup_fold)
qed

lemma lookup_fold_other: "k \<notin> key_of ` set xs \<Longrightarrow> lookup k (fold add xs s) = lookup k s"
  by (induction xs arbitrary: s) (auto simp: lookup_add)

lemma lookup_fold_dom: "lookup k (fold add xs s) \<noteq> None \<longleftrightarrow> k \<in> key_of ` set xs \<or> lookup k s \<noteq> None"
  by (induction xs arbitrary: s) (auto simp: lookup_add)

end

text \<open>A registry from which entries are removed.\<close>

locale removable_registry = registry +
  fixes remove :: "'k \<Rightarrow> 's \<Rightarrow> 's"
  assumes lookup_remove: "lookup k (remove k' s) = (if k = k' then None else lookup k s)"
begin

lemma remove_add: "lookup k (remove (key_of a) (add a s)) = lookup k (remove (key_of a) s)"
  by (simp add: lookup_remove lookup_add)

end

interpretation factories: registry GetNodeFactory "\<lambda>(name, ty). RegisterNodeFactory name ty" fst snd
  by unfold_locales (auto simp: GetNodeFactory_def RegisterNodeFactory_def)

interpretation nodes: removable_registry GetNodeHandler "\<lambda>(n, h). AddNodeHandler C n h" "\<lambda>(n, h). GUID n"
  "\<lambda>(n, h). \<lparr>nhNode = n, originalHandler = h, hasTool = tool_field C h\<rparr>" RemoveNodeHandler for C
  by unfold_locales (auto simp: GetNodeHandler_def AddNodeHandler_def RemoveNodeHandler_def)

interpretation alist: registry "\<lambda>k m. map_of m k" "\<lambda>(k, v). AList.update k v" fst snd
  by unfold_locales (auto simp: update_conv')

section \<open>Node types\<close>

record reg_type =
  rtName :: string
  rtFields :: node_type

definition RegisterFactories :: "reg_type list \<Rightarrow> 'e server \<Rightarrow> 'e server" where
  "RegisterFactories types s =
     fold (\<lambda>t. RegisterNodeFactory (tm_get (node_tag (rtFields t)) ''id'') (rtName t)) types s"

record command_entry =
  ceType :: reg_type
  ceNodeID :: string
  ceToolName :: string
  ceDescription :: string

definition command_of :: "reg_type \<Rightarrow> command_entry option" where
  "command_of t = (case field_by_name (rtFields t) ''Tool'' of
     None \<Rightarrow> None
   | Some f \<Rightarrow>
       (let parts = parseSpec (tag_get f ''tool''); toolName = tm_get parts ''name'' in
        if toolName = [] then None
        else Some \<lparr>ceType = t, ceNodeID = tm_get (node_tag (rtFields t)) ''id'', ceToolName = toolName,
                   ceDescription = tm_get parts ''description''\<rparr>))"

definition buildCommandMap :: "reg_type list \<Rightarrow> (string \<times> command_entry) list" where
  "buildCommandMap types =
     fold (\<lambda>t m. case command_of t of None \<Rightarrow> m | Some e \<Rightarrow> AList.update (ceToolName e) e m) types []"

section \<open>Flags\<close>

type_synonym flags = "(string \<times> string) list"

definition flag_get :: "flags \<Rightarrow> string \<Rightarrow> string" where
  "flag_get m k = (case map_of m k of None \<Rightarrow> [] | Some v \<Rightarrow> v)"

text \<open>One flag, its leading dashes stripped: key, value, and the arguments that follow.\<close>

definition split_flag :: "string \<Rightarrow> string list \<Rightarrow> string \<times> string \<times> string list" where
  "split_flag arg rest = (case index_byte arg (CHR ''='') of
     Some idx \<Rightarrow> (take idx arg, drop (Suc idx) arg, rest)
   | None \<Rightarrow> (case rest of
       [] \<Rightarrow> (arg, ''true'', [])
     | v # rest' \<Rightarrow> if \<not> has_prefix v ''--'' then (arg, v, rest') else (arg, ''true'', rest)))"

lemma split_flag_shorter: "split_flag arg rest = (k, v, rest') \<Longrightarrow> length rest' \<le> length rest"
  by (auto simp: split_flag_def split: option.splits list.splits if_splits)

definition add_flag :: "string \<Rightarrow> string \<Rightarrow> flags \<times> (string \<times> string list) list \<Rightarrow> flags \<times> (string \<times> string list) list" where
  "add_flag key value = (\<lambda>(flags, multi).
     (case map_of flags key of
        None \<Rightarrow> (AList.update key value flags, multi)
      | Some first \<Rightarrow>
          (flags, AList.update key ((case map_of multi key of None \<Rightarrow> [first] | Some vs \<Rightarrow> vs) @ [value]) multi)))"

function parse_args :: "string list \<Rightarrow> flags \<times> (string \<times> string list) list \<Rightarrow> (flags \<times> (string \<times> string list) list) res" where
  "parse_args [] acc = Inr acc"
| "parse_args (arg # rest) acc =
     (if \<not> has_prefix arg ''--'' then Inl (Errorf (''unexpected argument '' @ arg @ '' (expected --flag=value)''))
      else (case split_flag (drop 2 arg) rest of (key, value, rest') \<Rightarrow> parse_args rest' (add_flag key value acc)))"
  by pat_completeness auto
termination
  by (relation "measure (\<lambda>(args, acc). length args)")
    (auto dest: split_flag_shorter [OF sym] simp: less_Suc_eq_le)

text \<open>\<open>enc\<close> is \<^verbatim>\<open>json.Marshal\<close> of a list of strings.\<close>

definition parseFlags :: "(string list \<Rightarrow> string) \<Rightarrow> string list \<Rightarrow> flags res" where
  "parseFlags enc args = (case parse_args args ([], []) of
     Inl e \<Rightarrow> Inl e
   | Inr (flags, multi) \<Rightarrow> Inr (fold (\<lambda>(key, values). AList.update key (enc values)) multi flags))"

section \<open>The flags of a node type\<close>

text \<open>The conversions of \<^verbatim>\<open>strcase\<close>.\<close>

record strcase =
  ToKebab :: "string \<Rightarrow> string"
  ToLowerCamel :: "string \<Rightarrow> string"

record flag_entry =
  feSpecName :: string
  feFieldName :: string
  feScope :: string
  feIsOption :: bool

definition scope_of :: "tag_map \<Rightarrow> string" where
  "scope_of m = (if tm_get m ''scope'' = [] then ''Custom'' else tm_get m ''scope'')"

definition flag_of_field :: "strcase \<Rightarrow> field \<Rightarrow> (string \<times> flag_entry) option" where
  "flag_of_field K f =
     (let m = parseSpec (tag_get f ''spec''); nm = tm_get m ''name''; title = tm_get m ''title'' in
      if isVariable (ftype f) then
        (if nm \<noteq> [] then Some (ToKebab K nm, \<lparr>feSpecName = nm, feFieldName = lowerFirstLetter (fname f),
             feScope = scope_of m, feIsOption = False\<rparr>)
         else if title = [] then None
         else Some (ToKebab K title, \<lparr>feSpecName = [], feFieldName = lowerFirstLetter (fname f),
             feScope = ''Custom'', feIsOption = False\<rparr>))
      else if tm_get m ''enum'' \<noteq> [] then
        Some (ToKebab K (if title = [] then fname f else title),
          \<lparr>feSpecName = [], feFieldName = lowerFirstLetter (fname f), feScope = [], feIsOption = True\<rparr>)
      else None)"

definition buildFlagMap :: "strcase \<Rightarrow> node_type \<Rightarrow> (string \<times> flag_entry) list" where
  "buildFlagMap K t =
     fold (\<lambda>f mapping. case flag_of_field K f of None \<Rightarrow> mapping | Some (k, e) \<Rightarrow> AList.update k e mapping) t []"

text \<open>Message data and config patches: where the value of one flag goes.\<close>

definition place_flag :: "strcase \<Rightarrow> (string \<times> flag_entry) list \<Rightarrow> string \<times> string \<Rightarrow> gmap \<times> gmap \<Rightarrow> gmap \<times> gmap" where
  "place_flag K flagMap = (\<lambda>(flagName, value) (msgData, configPatches).
     (case map_of flagMap flagName of
        None \<Rightarrow> (AList.update (ToLowerCamel K (replace_all flagName (CHR ''-'') ''_'')) (GStr value) msgData, configPatches)
      | Some entry \<Rightarrow>
          if feIsOption entry then (msgData, AList.update (feFieldName entry) (GStr value) configPatches)
          else if feScope entry = ''Custom'' then
            (msgData, AList.update (feFieldName entry) (GMap [(''scope'', GStr ''Custom''), (''name'', GStr value)]) configPatches)
          else (AList.update (feSpecName entry) (GStr value) msgData, configPatches)))"

definition buildCLIContext :: "strcase \<Rightarrow> node_type \<Rightarrow> flags \<Rightarrow> gmap \<times> gmap" where
  "buildCLIContext K t flags = fold (place_flag K (buildFlagMap K t)) flags ([], [])"

section \<open>The config of the node\<close>

definition injectCredentialConfig :: "node_type \<Rightarrow> string \<Rightarrow> string \<Rightarrow> gmap \<Rightarrow> gmap" where
  "injectCredentialConfig t vaultID itemID config =
     fold (\<lambda>f c. if ftype f \<noteq> TCredential then c
        else AList.update (lowerFirstLetter (fname f))
          (GMap [(''scope'', GStr ''Custom''),
                 (''name'', GMap [(''vaultId'', GStr vaultID), (''itemId'', GStr itemID)])]) c) t config"

definition injectVariableConfig :: "node_type \<Rightarrow> gmap \<Rightarrow> gmap" where
  "injectVariableConfig t config =
     fold (\<lambda>f c.
       (let m = parseSpec (tag_get f ''spec''); k = lowerFirstLetter (fname f) in
        if \<not> isVariable (ftype f) \<or> map_of c k \<noteq> None then c
        else if scope_of m = ''Message'' \<and> tm_get m ''name'' \<noteq> [] then
          AList.update k (GMap [(''scope'', GStr ''Message''), (''name'', GStr (tm_get m ''name''))]) c
        else c)) t config"

text \<open>The outputs the node left in the message, for its output variables with a name.\<close>

fun cli_outputs :: "nat \<Rightarrow> lib \<Rightarrow> platform \<Rightarrow> node_type \<Rightarrow> message \<Rightarrow> gmap \<Rightarrow> 'e server \<Rightarrow> (gmap \<times> 'e server) option" where
  "cli_outputs n L pf [] msg out s = Some (out, s)"
| "cli_outputs n L pf (f # t) msg out s =
     (let name = tm_get (parseSpec (tag_get f ''spec'')) ''name'' in
      if \<not> isOutVariable (ftype f) \<or> name = [] then cli_outputs n L pf t msg out s
      else (case ctx_get n L pf name msg s of
          None \<Rightarrow> None
        | Some (v, s') \<Rightarrow> cli_outputs n L pf t msg (if v \<noteq> GNil then AList.update name v out else out) s'))"

definition collectCLIOutput :: "nat \<Rightarrow> lib \<Rightarrow> platform \<Rightarrow> node_type \<Rightarrow> message \<Rightarrow> 'e server \<Rightarrow> (gmap \<times> 'e server) option" where
  "collectCLIOutput n L pf t msg s =
     map_option (\<lambda>(out, s'). (if out = [] then [(''status'', GStr ''completed'')] else out, s')) (cli_outputs n L pf t msg [] s)"

section \<open>The list of commands\<close>

record cli_param =
  cpName :: string
  cpType :: string
  cpRequired :: bool
  cpDescription :: string
  cpDefault :: string
  cpChoices :: "string list"

record cli_command =
  ccName :: string
  ccDescription :: string
  ccNodeID :: string
  ccParameters :: "cli_param list"
  ccOutputs :: "(string \<times> string) list"

definition type_of_tag :: "tag_map \<Rightarrow> string" where
  "type_of_tag m = (if tm_get m ''type'' = [] then ''string'' else tm_get m ''type'')"

definition choices_of :: "tag_map \<Rightarrow> string list" where
  "choices_of m = (if tm_get m ''enum'' \<noteq> [] then split_on (CHR ''|'') (tm_get m ''enum'') else [])"

definition param_of_field :: "strcase \<Rightarrow> field \<Rightarrow> cli_param option" where
  "param_of_field K f =
     (let m = parseSpec (tag_get f ''spec''); nm = tm_get m ''name''; title = tm_get m ''title'';
          param = (\<lambda>flagName required. \<lparr>cpName = flagName, cpType = type_of_tag m, cpRequired = required,
             cpDescription = tm_get m ''description'', cpDefault = tm_get m ''value'', cpChoices = choices_of m\<rparr>)
      in if isInVariable (ftype f) \<or> isOptVariable (ftype f) then
           (let flagName = (if nm \<noteq> [] then ToKebab K nm else if title \<noteq> [] then ToKebab K title else []) in
            if flagName = [] then None
            else Some (param flagName (isInVariable (ftype f) \<and> \<not> tm_has m ''optional'')))
         else if isOutVariable (ftype f) then None
         else if tm_get m ''enum'' \<noteq> [] then
           Some (param (if title \<noteq> [] then ToKebab K title else ToKebab K (fname f)) False)
         else None)"

definition output_of_field :: "field \<Rightarrow> (string \<times> string) option" where
  "output_of_field f =
     (let m = parseSpec (tag_get f ''spec'') in
      if \<not> isInVariable (ftype f) \<and> \<not> isOptVariable (ftype f) \<and> isOutVariable (ftype f) \<and> tm_get m ''name'' \<noteq> []
      then Some (tm_get m ''name'', type_of_tag m) else None)"

definition command_info :: "strcase \<Rightarrow> reg_type \<Rightarrow> cli_command option" where
  "command_info K t = map_option (\<lambda>e.
     \<lparr>ccName = ceToolName e, ccDescription = ceDescription e, ccNodeID = ceNodeID e,
      ccParameters = List.map_filter (param_of_field K) (rtFields t),
      ccOutputs = List.map_filter output_of_field (rtFields t)\<rparr>) (command_of t)"

definition gatherCommands :: "strcase \<Rightarrow> reg_type list \<Rightarrow> 'e server \<Rightarrow> cli_command list \<times> 'e server" where
  "gatherCommands K types s = (List.map_filter (command_info K) types, RegisterFactories types s)"

text \<open>Whether JSON output is asked for, among the arguments after the command.\<close>

fun wants_json :: "string list \<Rightarrow> bool" where
  "wants_json [] = False"
| "wants_json (a # rest) \<longleftrightarrow>
     (a = ''--output'' \<and> rest \<noteq> [] \<and> hd rest = ''json'') \<or> a = ''--output=json'' \<or> wants_json rest"

definition newline :: string where
  "newline = [CHR 0x0A]"

text \<open>The verb \<^verbatim>\<open>%-32s\<close>.\<close>

definition pad_to :: "nat \<Rightarrow> string \<Rightarrow> string" where
  "pad_to n s = s @ replicate (n - length s) (CHR '' '')"

definition row :: "nat \<Rightarrow> string \<Rightarrow> string \<Rightarrow> string" where
  "row n a b = ''  '' @ pad_to n a @ '' '' @ b @ newline"

definition param_row :: "cli_param \<Rightarrow> string" where
  "param_row p =
     row 32 (''--'' @ cpName p @ '' '' @ cpType p)
       (cpDescription p
        @ (if cpRequired p then '' (required)'' else [])
        @ (if cpDefault p \<noteq> [] then '' (default: '' @ cpDefault p @ '')'' else [])
        @ (if cpChoices p \<noteq> [] then '' ['' @ join_with ''|'' (cpChoices p) @ '']'' else []))"

definition detail_text :: "string \<Rightarrow> cli_command \<Rightarrow> string" where
  "detail_text binName c =
     ''Usage: '' @ to_lower binName @ '' '' @ ccName c @ '' [flags]'' @ newline @ newline @ ccDescription c @ newline
     @ (if ccParameters c \<noteq> [] then newline @ ''Flags:'' @ newline @ concat (map param_row (ccParameters c)) else [])
     @ (if ccOutputs c \<noteq> [] then newline @ ''Output:'' @ newline @ concat (map (\<lambda>(n, t). row 32 n t) (ccOutputs c)) else [])
     @ newline @ ''Session Flags:'' @ newline
     @ row 32 ''--session'' ''Start a new session (keeps process alive)''
     @ row 32 ''--session-id ID'' ''Reuse an existing session''
     @ row 32 ''--session-close ID'' ''Close a session''
     @ row 32 ''--session-timeout DURATION'' ''Inactivity timeout (default: 30m)''"

text \<open>\<open>None\<close> is the exit with status 1 after the message about the unknown command.\<close>

definition listCommandDetail :: "strcase \<Rightarrow> reg_type list \<Rightarrow> string \<Rightarrow> string \<Rightarrow> string option" where
  "listCommandDetail K types binName cmdName =
     map_option (detail_text binName) (find (\<lambda>c. ccName c = cmdName) (List.map_filter (command_info K) types))"

text \<open>The list of all commands and the usage text, for the name and version of the config file.\<close>

definition command_rows :: "cli_command list \<Rightarrow> string" where
  "command_rows cs = concat (map (\<lambda>c. row 24 (ccName c) (ccDescription c)) cs)"

definition detail_hint :: string where
  "detail_hint = ''Use --list-commands <command> for details on a specific command.'' @ newline"

definition list_text :: "string \<Rightarrow> string \<Rightarrow> cli_command list \<Rightarrow> string" where
  "list_text name version cs =
     name @ '' v'' @ version @ newline @ newline @ ''Available commands:'' @ newline @ newline
     @ command_rows cs @ newline @ detail_hint
     @ ''Use --list-commands --output json for machine-readable output.'' @ newline"

text \<open>\<open>enc\<close> is \<^verbatim>\<open>json.MarshalIndent\<close>; the JSON goes to standard output (\<open>Inl\<close>), the text to standard error.\<close>

definition listCommands :: "(cli_command list \<Rightarrow> string) \<Rightarrow> strcase \<Rightarrow> reg_type list \<Rightarrow> string \<Rightarrow> string \<Rightarrow> string list \<Rightarrow> string + string" where
  "listCommands enc K types name version args =
     (let commands = List.map_filter (command_info K) types in
      if wants_json args then Inl (enc commands @ newline) else Inr (list_text name version commands))"

definition printCLIUsage :: "strcase \<Rightarrow> reg_type list \<Rightarrow> string \<Rightarrow> string \<Rightarrow> string" where
  "printCLIUsage K types name version =
     name @ '' v'' @ version @ newline @ newline
     @ ''Usage: '' @ to_lower name @ '' <command> [flags]'' @ newline @ newline
     @ ''Commands:'' @ newline @ command_rows (List.map_filter (command_info K) types)
     @ newline @ ''Global Flags:'' @ newline
     @ row 32 ''--output json'' ''Output in JSON format''
     @ row 32 ''--vault-id ID'' ''Robomotion vault ID for credentials''
     @ row 32 ''--item-id ID'' ''Robomotion vault item ID for credentials''
     @ row 32 ''--vault NAME'' ''Vault name (resolved to ID via API)''
     @ row 32 ''--item NAME'' ''Item name (resolved to ID via API)''
     @ newline @ ''Session Flags:'' @ newline
     @ row 32 ''--session'' ''Start a new session (keeps process alive)''
     @ row 32 ''--session-id ID'' ''Reuse an existing session''
     @ row 32 ''--session-close ID'' ''Close a session and stop the daemon''
     @ row 32 ''--session-timeout DURATION'' ''Inactivity timeout (default: 30m)''
     @ newline @ ''Environment:'' @ newline
     @ row 32 ''ROBOMOTION_API_TOKEN'' ''API bearer token (from runner, skips robomotion login)''
     @ row 32 ''ROBOMOTION_ROBOT_ID'' ''Robot UUID (for private key lookup in keys dir)''
     @ row 32 ''ROBOMOTION_API_URL'' ''API base URL (default: https://api.robomotion.io)''
     @ newline @ detail_hint @ ''Use --help or -h to show this help.'' @ newline"

section \<open>Running a command\<close>

text \<open>
  What \<^verbatim>\<open>RunCLI\<close> decides before it touches a node: an error on standard error with exit status 1, one of
  the informational commands, a session operation, or a run with the flags that are left.
\<close>

datatype cli_plan =
    PlanError string
  | PlanList
  | PlanDetail string
  | PlanSkill
  | PlanUsage
  | PlanClose string
  | PlanClient string string flags
  | PlanStart string string string string flags
  | PlanRun command_entry string flags string string

definition drop_flags :: "string list \<Rightarrow> flags \<Rightarrow> flags" where
  "drop_flags ks m = filter (\<lambda>(k, v). k \<notin> set ks) m"

text \<open>The ids behind \<^verbatim>\<open>--vault\<close> and \<^verbatim>\<open>--item\<close>, or the given ones when no name is used.\<close>

definition resolve_names :: "'k vault_env \<Rightarrow> string \<Rightarrow> string \<Rightarrow> string \<Rightarrow> string \<Rightarrow> os \<Rightarrow> (string + string \<times> string) \<times> os" where
  "resolve_names V vaultName itemName vaultID itemID w =
     (if vaultName = [] \<and> itemName = [] then (Inr (vaultID, itemID), w)
      else if vaultID \<noteq> [] \<or> itemID \<noteq> [] then (Inl ''cannot use --vault/--item together with --vault-id/--item-id'', w)
      else if vaultName = [] \<or> itemName = [] then (Inl ''--vault and --item must both be provided'', w)
      else case NewCLIVaultClient V w of
        (Inl e, w') \<Rightarrow> (Inl (''vault auth error: '' @ err_text e), w')
      | (Inr vc, w') \<Rightarrow> (case ResolveVaultByName V vc vaultName of
          Inl e \<Rightarrow> (Inl (err_text e), w')
        | Inr vid \<Rightarrow> (case ResolveItemByName V vc vid itemName of
            Inl e \<Rightarrow> (Inl (err_text e), w')
          | Inr iid \<Rightarrow> (Inr (vid, iid), w'))))"

definition with_ids :: "string \<Rightarrow> string \<Rightarrow> flags \<Rightarrow> flags" where
  "with_ids vaultID itemID flags =
     (let f1 = (if vaultID \<noteq> [] then AList.update ''vault-id'' vaultID flags else flags)
      in if itemID \<noteq> [] then AList.update ''item-id'' itemID f1 else f1)"

definition plan_session :: "command_entry \<Rightarrow> string \<Rightarrow> flags \<Rightarrow> string \<Rightarrow> string \<Rightarrow> cli_plan" where
  "plan_session cmd commandName flags vaultID itemID =
     (let rest = drop_flags [''session'', ''session-id'', ''session-close'', ''session-timeout''] flags in
      if flag_get flags ''session-close'' \<noteq> [] then PlanClose (flag_get flags ''session-close'')
      else if flag_get flags ''session-id'' \<noteq> [] then
        PlanClient (flag_get flags ''session-id'') commandName (with_ids vaultID itemID rest)
      else if flag_get flags ''session'' = ''true'' then
        PlanStart (flag_get flags ''session-timeout'') vaultID itemID commandName (with_ids vaultID itemID rest)
      else PlanRun cmd commandName rest vaultID itemID)"

definition RunCLI :: "(string list \<Rightarrow> string) \<Rightarrow> 'k vault_env \<Rightarrow> reg_type list \<Rightarrow> string list \<Rightarrow> os \<Rightarrow> cli_plan \<times> os" where
  "RunCLI enc V types args w = (case args of
     [] \<Rightarrow> (PlanError ''no command specified; use --list-commands to see available commands'', w)
   | commandName # rest \<Rightarrow>
       if commandName = ''--list-commands'' then
         (case rest of a # _ \<Rightarrow> if \<not> has_prefix a ''-'' then (PlanDetail a, w) else (PlanList, w) | [] \<Rightarrow> (PlanList, w))
       else if commandName = ''--skill-md'' then (PlanSkill, w)
       else if commandName = ''--help'' \<or> commandName = ''-h'' then (PlanUsage, w)
       else (case map_of (buildCommandMap types) commandName of
         None \<Rightarrow> (PlanError (''unknown command '' @ commandName @ ''; available commands: ''
                    @ join_with '', '' (map fst (buildCommandMap types))), w)
       | Some cmd \<Rightarrow> (case parseFlags enc rest of
           Inl e \<Rightarrow> (PlanError (err_text e), w)
         | Inr flags \<Rightarrow> (case resolve_names V (flag_get flags ''vault'') (flag_get flags ''item'')
               (flag_get flags ''vault-id'') (flag_get flags ''item-id'') w of
             (Inl m, w') \<Rightarrow> (PlanError m, w')
           | (Inr (vaultID, itemID), w') \<Rightarrow>
               (plan_session cmd commandName (drop_flags [''vault-id'', ''item-id'', ''vault'', ''item''] flags) vaultID itemID, w')))))"

text \<open>
  The run itself.  The environment of the node's code holds the state of the client, which is the
  global \<^verbatim>\<open>client\<close> while the node runs.
\<close>

datatype cli_result = CliError string | CliPrint gmap

definition fetch_credentials :: "'k vault_env \<Rightarrow> string \<Rightarrow> string \<Rightarrow> os \<Rightarrow> (string + cli_state) outcome \<times> os" where
  "fetch_credentials V vaultID itemID w =
     (if vaultID = [] \<or> itemID = [] then (Return (Inr NewCLIRuntimeHelper), w)
      else case NewCLIVaultClient V w of
        (Inl e, w') \<Rightarrow> (Return (Inl (''vault auth error: '' @ err_text e)), w')
      | (Inr vc, w') \<Rightarrow> (case FetchVaultItem V vc vaultID itemID of
          Panic m \<Rightarrow> (Panic m, w')
        | Return (Inl e) \<Rightarrow> (Return (Inl (''vault fetch error: '' @ err_text e)), w')
        | Return (Inr creds) \<Rightarrow> (Return (Inr (SetCredentials creds NewCLIRuntimeHelper)), w')))"

definition cli_config :: "node_type \<Rightarrow> string \<Rightarrow> string \<Rightarrow> string \<Rightarrow> string \<Rightarrow> gmap \<Rightarrow> gmap" where
  "cli_config t guid commandName vaultID itemID configPatches =
     (let c1 = injectVariableConfig t [(''guid'', GStr guid), (''name'', GStr commandName)];
          c2 = (if vaultID \<noteq> [] \<and> itemID \<noteq> [] then injectCredentialConfig t vaultID itemID c1 else c1)
      in fold (\<lambda>(k, v). AList.update k v) configPatches c2)"

text \<open>The text of a value; an error of \<^verbatim>\<open>json.Marshal\<close> is dropped.\<close>

definition json_text :: "json_lib \<Rightarrow> goval \<Rightarrow> bytes" where
  "json_text J v = (case marshal J v of Inr b \<Rightarrow> b | Inl e \<Rightarrow> [])"

text \<open>OnCreate, OnMessage, OnClose: an error of OnCreate ends the run, one of OnMessage is reported after OnClose.\<close>

definition run_node :: "nat \<Rightarrow> lib \<Rightarrow> platform \<Rightarrow> 'e node_code \<Rightarrow> node_type \<Rightarrow> hid \<Rightarrow> bytes \<Rightarrow> 'e server
    \<Rightarrow> (cli_result \<times> 'e server) option" where
  "run_node n L pf C t h msgJSON s =
     (case on_create C h (ext s) of
        (Some e, x) \<Rightarrow> Some (CliError (''OnCreate failed: '' @ err_text e), s\<lparr>ext := x\<rparr>)
      | (None, x) \<Rightarrow> (case run_handler C h (NewContext L msgJSON) (s\<lparr>ext := x\<rparr>) of
          (err, msg, s1) \<Rightarrow> (case on_close C h (ext s1) of
            (closeErr, x2) \<Rightarrow>
              (let s2 = s1\<lparr>ext := x2\<rparr> in
               case err of
                 Some e \<Rightarrow> Some (CliError (err_text e), s2)
               | None \<Rightarrow> (case closeErr of
                   Some e \<Rightarrow> Some (CliError (''OnClose failed: '' @ err_text e), s2)
                 | None \<Rightarrow> map_option (\<lambda>(out, s3). (CliPrint out, s3)) (collectCLIOutput n L pf t msg s2))))))"

definition run_command :: "nat \<Rightarrow> lib \<Rightarrow> json_lib \<Rightarrow> platform \<Rightarrow> (cli_state \<times> 'x) node_code \<Rightarrow> 'k vault_env \<Rightarrow> strcase
    \<Rightarrow> command_entry \<Rightarrow> string \<Rightarrow> flags \<Rightarrow> string \<Rightarrow> string \<Rightarrow> (cli_state \<times> 'x) server
    \<Rightarrow> (cli_result \<times> (cli_state \<times> 'x) server) outcome option" where
  "run_command n L J pf C V K cmd commandName flags vaultID itemID s =
     (case fetch_credentials V vaultID itemID (fs s) of
        (Panic m, w) \<Rightarrow> Some (Panic m)
      | (Return (Inl m), w) \<Rightarrow> Some (Return (CliError m, s\<lparr>fs := w\<rparr>))
      | (Return (Inr c), w) \<Rightarrow>
          (let s1 = s\<lparr>fs := w, hasClient := True, ext := (c, snd (ext s))\<rparr>;
               t = rtFields (ceType cmd);
               (msgData, patches) = buildCLIContext K t flags
           in case unmarshal_node C (rtName (ceType cmd))
                (json_text J (GMap (cli_config t ''cli-node'' commandName vaultID itemID patches))) of
                Inl e \<Rightarrow> Some (Return (CliError (''failed to initialize node: '' @ err_text e), s1))
              | Inr h \<Rightarrow> map_option Return (run_node n L pf C t h (json_text J (GMap msgData)) s1)))"

section \<open>Properties\<close>

lemma fold_option: "fold (\<lambda>x s. case f x of None \<Rightarrow> s | Some y \<Rightarrow> g y s) xs s = fold g (List.map_filter f xs) s"
  by (induction xs arbitrary: s) (auto simp: List.map_filter_simps split: option.splits)

lemma buildCommandMap_fold:
  "buildCommandMap types = fold (\<lambda>(k, e). AList.update k e) (map (\<lambda>e. (ceToolName e, e)) (List.map_filter command_of types)) []"
  by (simp add: buildCommandMap_def fold_option fold_map comp_def)

lemma buildFlagMap_fold: "buildFlagMap K t = fold (\<lambda>(k, e). AList.update k e) (List.map_filter (flag_of_field K) t) []"
  by (simp add: buildFlagMap_def split_def cong: option.case_cong flip: fold_option)

text \<open>
  Registration: after \<^verbatim>\<open>RegisterFactories\<close> every id makes the last type registered under it and no
  other id changes; when the ids differ, \<^verbatim>\<open>OnCreate\<close> finds for each type its own factory.
\<close>

theorem RegisterFactories_lookup:
  fixes types :: "reg_type list"
  defines "ident \<equiv> \<lambda>t. tm_get (node_tag (rtFields t)) ''id''"
  shows "GetNodeFactory k (RegisterFactories types s)
      = (case map_of (rev (map (\<lambda>t. (ident t, rtName t)) types)) k of Some ty \<Rightarrow> Some ty | None \<Rightarrow> GetNodeFactory k s)
    \<and> (distinct (map ident types) \<longrightarrow> (\<forall>t \<in> set types. GetNodeFactory (ident t) (RegisterFactories types s) = Some (rtName t)))"
proof -
  have f: "RegisterFactories types s = fold (\<lambda>(name, ty). RegisterNodeFactory name ty) (map (\<lambda>t. (ident t, rtName t)) types) s"
    by (simp add: RegisterFactories_def ident_def fold_map comp_def)
  have "GetNodeFactory (ident t) (RegisterFactories types s) = Some (rtName t)"
    if "distinct (map ident types)" "t \<in> set types" for t
    using factories.lookup_fold_distinct [of "map (\<lambda>t. (ident t, rtName t)) types" "(ident t, rtName t)" s] that
    by (simp add: f comp_def)
  then show ?thesis
    using factories.lookup_fold [of k "map (\<lambda>t. (ident t, rtName t)) types" s] by (simp add: f comp_def)
qed

definition demo_types :: "reg_type list" where
  "demo_types = [\<lparr>rtName = ''A'', rtFields = [\<lparr>fname = ''Node'', ftype = TNamed ''Node'', ftags = [(''spec'', ''id=a'')]\<rparr>]\<rparr>,
     \<lparr>rtName = ''B'', rtFields = [\<lparr>fname = ''Node'', ftype = TNamed ''Node'', ftags = [(''spec'', ''id=b'')]\<rparr>]\<rparr>]"

theorem RegisterFactories_lookup_witness:
  "\<forall>s :: unit server. GetNodeFactory ''b'' (RegisterFactories demo_types s) = Some ''B''"
proof
  fix s :: "unit server"
  have i: "distinct (map (\<lambda>t. tm_get (node_tag (rtFields t)) ''id'') demo_types)"
    "tm_get (node_tag (rtFields (demo_types ! 1))) ''id'' = ''b''" "rtName (demo_types ! 1) = ''B''"
    by code_simp+
  have "demo_types ! 1 \<in> set demo_types" by (simp add: demo_types_def)
  then show "GetNodeFactory ''b'' (RegisterFactories demo_types s) = Some ''B''"
    using RegisterFactories_lookup [of "''b''" demo_types s] i by auto
qed

text \<open>Every parameter of the listing is a flag of the node type.\<close>

lemma param_is_flag: "param_of_field K f = Some p \<Longrightarrow> \<exists>e. flag_of_field K f = Some (cpName p, e)"
  by (auto simp: param_of_field_def flag_of_field_def Let_def isVariable_def split: if_splits)

lemma flag_map_get:
  assumes "f \<in> set t" "flag_of_field K f = Some (k, e)" "distinct (map fst (List.map_filter (flag_of_field K) t))"
  shows "map_of (buildFlagMap K t) k = Some e"
proof -
  have "(k, e) \<in> set (List.map_filter (flag_of_field K) t)" using assms(1,2) by (auto simp: List.map_filter_def intro!: image_eqI)
  from alist.lookup_fold_distinct [OF _ this, of "[]"] assms(3) show ?thesis by (simp add: buildFlagMap_fold)
qed

text \<open>The flags after the pairs of a command line: the first value of each key, and all values of a repeated one.\<close>

definition values_of :: "string \<Rightarrow> flags \<Rightarrow> string list" where
  "values_of k kvs = map snd (filter (\<lambda>x. fst x = k) kvs)"

definition collected :: "flags \<Rightarrow> flags \<times> (string \<times> string list) list \<Rightarrow> bool" where
  "collected kvs = (\<lambda>(F, M). distinct (map fst M)
     \<and> (\<forall>k. map_of F k = (case values_of k kvs of [] \<Rightarrow> None | v # _ \<Rightarrow> Some v)
          \<and> map_of M k = (if 2 \<le> length (values_of k kvs) then Some (values_of k kvs) else None)))"

lemma values_of_snoc: "values_of k (kvs @ [(k', v)]) = (if k' = k then values_of k kvs @ [v] else values_of k kvs)"
  by (simp add: values_of_def)

lemma collected_step:
  assumes "collected kvs acc"
  shows "collected (kvs @ [(k, v)]) (add_flag k v acc)"
proof -
  obtain F M where acc: "acc = (F, M)" by fastforce
  note c = assms [unfolded acc collected_def, simplified]
  show ?thesis
  proof (cases "values_of k kvs")
    case Nil
    then show ?thesis using c by (auto simp: acc add_flag_def collected_def values_of_snoc update_conv')
  next
    case (Cons a vs)
    then show ?thesis using c
      by (cases vs) (auto simp: acc add_flag_def collected_def values_of_snoc update_conv' distinct_update split: list.splits)
  qed
qed

lemma collected_fold: "collected kvs (fold (\<lambda>(k, v). add_flag k v) kvs ([], []))"
proof (induction kvs rule: rev_induct)
  case Nil
  then show ?case by (simp add: collected_def values_of_def)
next
  case (snoc kv kvs)
  then show ?case by (cases kv) (simp add: collected_step)
qed

definition render_flag :: "string \<times> string \<Rightarrow> string" where
  "render_flag = (\<lambda>(k, v). ''--'' @ k @ ''='' @ v)"

lemma parse_args_render:
  "\<forall>kv \<in> set kvs. CHR ''='' \<notin> set (fst kv) \<Longrightarrow> parse_args (map render_flag kvs) acc = Inr (fold (\<lambda>(k, v). add_flag k v) kvs acc)"
proof (induction kvs arbitrary: acc)
  case (Cons kv kvs)
  then show ?case by (cases kv) (simp add: render_flag_def split_flag_def has_prefix_def)
qed simp

text \<open>
  Where the value of a flag goes: into the config under the name of the field, or into the message
  under the spec name.
\<close>

definition flag_target :: "flag_entry \<Rightarrow> bool \<times> string" where
  "flag_target e = (if feIsOption e \<or> feScope e = ''Custom'' then (True, feFieldName e) else (False, feSpecName e))"

definition flag_value :: "flag_entry \<Rightarrow> string \<Rightarrow> goval" where
  "flag_value e v =
     (if \<not> feIsOption e \<and> feScope e = ''Custom'' then GMap [(''scope'', GStr ''Custom''), (''name'', GStr v)] else GStr v)"

definition placed :: "bool \<times> string \<Rightarrow> gmap \<times> gmap \<Rightarrow> goval option" where
  "placed = (\<lambda>(patch, k) (msg, patches). map_of (if patch then patches else msg) k)"

lemma place_flag_placed:
  "map_of fm k = Some e \<Longrightarrow> placed tgt (place_flag K fm (k, v) acc)
     = (if tgt = flag_target e then Some (flag_value e v) else placed tgt acc)"
  by (cases acc; cases tgt) (auto simp: place_flag_def placed_def flag_target_def flag_value_def update_conv')

lemma place_flags_other:
  "\<forall>(k, v) \<in> set kvs. \<exists>e. map_of fm k = Some e \<and> flag_target e \<noteq> tgt \<Longrightarrow>
    placed tgt (fold (place_flag K fm) kvs acc) = placed tgt acc"
proof (induction kvs arbitrary: acc)
  case (Cons kv kvs)
  obtain k v where kv: "kv = (k, v)" by (cases kv)
  obtain e where e: "map_of fm k = Some e" "flag_target e \<noteq> tgt" using Cons.prems kv by auto
  then have "placed tgt (place_flag K fm (k, v) acc) = placed tgt acc" by (simp add: place_flag_placed)
  then show ?case using Cons.IH [of "place_flag K fm (k, v) acc"] Cons.prems kv by simp
qed simp

text \<open>Different flags have different places.\<close>

lemma flag_targets_differ:
  assumes "f1 \<in> set t" "f2 \<in> set t" "distinct (map (lowerFirstLetter \<circ> fname) t)"
    and "flag_of_field K f1 = Some (k1, e1)" "flag_of_field K f2 = Some (k2, e2)" "k1 \<noteq> k2"
  shows "flag_target e1 \<noteq> flag_target e2"
proof
  assume eq: "flag_target e1 = flag_target e2"
  have patch: "feFieldName e = lowerFirstLetter (fname f)" if "flag_of_field K f = Some (k, e)" for f k e
    using that by (auto simp: flag_of_field_def Let_def split: if_splits)
  have msg: "k = ToKebab K (feSpecName e)" if "flag_of_field K f = Some (k, e)" "\<not> fst (flag_target e)" for f k e
    using that by (auto simp: flag_of_field_def flag_target_def Let_def split: if_splits)
  show False
  proof (cases "fst (flag_target e1)")
    case True
    then have "feFieldName e1 = feFieldName e2" using eq by (auto simp: flag_target_def split: if_splits)
    then have "lowerFirstLetter (fname f1) = lowerFirstLetter (fname f2)" using patch assms(4,5) by simp
    then have "f1 = f2" using assms(1-3) by (simp add: distinct_map inj_on_def)
    then show False using assms(4-6) by simp
  next
    case False
    then have "feSpecName e1 = feSpecName e2" "\<not> fst (flag_target e2)" using eq by (auto simp: flag_target_def split: if_splits)
    then show False using msg [OF assms(4) False] msg [OF assms(5)] assms(6) by simp
  qed
qed

lemma known_flag:
  assumes "k \<in> fst ` set (List.map_filter (flag_of_field K) t)" "distinct (map fst (List.map_filter (flag_of_field K) t))"
  obtains f e where "f \<in> set t" "flag_of_field K f = Some (k, e)" "map_of (buildFlagMap K t) k = Some e"
proof -
  from assms(1) obtain f e where "f \<in> set t" "flag_of_field K f = Some (k, e)"
    by (auto simp: List.map_filter_def)
  then show thesis using that flag_map_get [OF _ _ assms(2)] by blast
qed

lemma context_places_flag:
  assumes d: "distinct (map fst (List.map_filter (flag_of_field K) t))" "distinct (map (lowerFirstLetter \<circ> fname) t)"
    and kvs: "distinct (map fst kvs)" "fst ` set kvs \<subseteq> fst ` set (List.map_filter (flag_of_field K) t)"
    and f: "f \<in> set t" "flag_of_field K f = Some (k, e)" "(k, v) \<in> set kvs"
  shows "placed (flag_target e) (buildCLIContext K t kvs) = Some (flag_value e v)"
proof -
  obtain xs ys where split: "kvs = xs @ (k, v) # ys" using split_list [OF f(3)] by blast
  have "\<exists>e'. map_of (buildFlagMap K t) k' = Some e' \<and> flag_target e' \<noteq> flag_target e" if "(k', v') \<in> set ys" for k' v'
  proof -
    have "k' \<in> fst ` set (List.map_filter (flag_of_field K) t)" "k' \<noteq> k"
      using that kvs split by (auto simp: rev_image_eqI)
    then show ?thesis using known_flag [OF _ d(1)] flag_targets_differ [OF _ f(1) d(2) _ f(2)] by metis
  qed
  then have o: "\<forall>(k', v') \<in> set ys. \<exists>e'. map_of (buildFlagMap K t) k' = Some e' \<and> flag_target e' \<noteq> flag_target e" by blast
  have "placed (flag_target e) (buildCLIContext K t kvs)
      = placed (flag_target e) (place_flag K (buildFlagMap K t) (k, v) (fold (place_flag K (buildFlagMap K t)) xs ([], [])))"
    unfolding buildCLIContext_def split by (simp add: place_flags_other [OF o])
  then show ?thesis by (simp add: place_flag_placed [OF flag_map_get [OF f(1,2) d(1)]])
qed

text \<open>The flags that \<^verbatim>\<open>RunCLI\<close> keeps for itself, and those that a plan passes on to the node.\<close>

definition reserved_flags :: "string list" where
  "reserved_flags = [''vault-id'', ''item-id'', ''vault'', ''item'', ''session'', ''session-id'', ''session-close'', ''session-timeout'']"

fun plan_flags :: "cli_plan \<Rightarrow> flags" where
  "plan_flags (PlanClient sid name flags) = flags"
| "plan_flags (PlanStart timeout vaultID itemID name flags) = flags"
| "plan_flags (PlanRun cmd name flags vaultID itemID) = flags"
| "plan_flags p = []"

lemma parseFlags_distinct:
  assumes "\<forall>kv \<in> set kvs. CHR ''='' \<notin> set (fst kv)" "distinct (map fst kvs)"
  shows "parseFlags enc (map render_flag kvs) = Inr kvs"
proof -
  have "fold (\<lambda>(k, v). add_flag k v) kvs (acc, []) = (acc @ kvs, [])" if "distinct (map fst (acc @ kvs))" for acc
    using that
  proof (induction kvs arbitrary: acc)
    case (Cons kv kvs)
    obtain k v where kv: "kv = (k, v)" by (cases kv)
    have "map_of acc k = None" using Cons.prems kv by (auto simp: map_of_eq_None_iff)
    moreover from this have "AList.update k v acc = acc @ [(k, v)]"
      by (induction acc) (auto split: if_splits)
    ultimately show ?case using Cons.IH [of "acc @ [(k, v)]"] Cons.prems kv by (simp add: add_flag_def)
  qed simp
  from this [of "[]"] assms show ?thesis by (simp add: parseFlags_def parse_args_render)
qed

lemma RunCLI_unreserved:
  assumes "map_of (buildCommandMap types) name = Some cmd" "name \<notin> {''--list-commands'', ''--skill-md'', ''--help'', ''-h''}"
    and "\<forall>kv \<in> set kvs. CHR ''='' \<notin> set (fst kv)" "distinct (map fst kvs)" "fst ` set kvs \<inter> set reserved_flags = {}"
  shows "RunCLI enc V types (name # map render_flag kvs) w = (PlanRun cmd name kvs [] [], w)"
proof -
  have none: "flag_get kvs k = []" if "k \<in> set reserved_flags" for k
  proof -
    have "map_of kvs k = None" using that assms(5) by (auto simp: map_of_eq_None_iff)
    then show ?thesis by (simp add: flag_get_def)
  qed
  have keep: "drop_flags ks kvs = kvs" if "set ks \<subseteq> set reserved_flags" for ks
    using that assms(5) by (force simp: drop_flags_def filter_id_conv)
  show ?thesis
    using assms(1,2) parseFlags_distinct [OF assms(3,4)] none keep
    by (simp add: RunCLI_def resolve_names_def plan_session_def reserved_flags_def)
qed

lemma RunCLI_reserved:
  assumes "map_of (buildCommandMap types) name = Some cmd" "name \<notin> {''--list-commands'', ''--skill-md'', ''--help'', ''-h''}"
    and "k \<in> set reserved_flags"
  shows "plan_flags (fst (RunCLI enc V types [name, render_flag (k, v)] w)) = []"
proof -
  have "CHR ''='' \<notin> set k" using assms(3) by (auto simp: reserved_flags_def)
  then have "parseFlags enc [render_flag (k, v)] = Inr [(k, v)]" using parseFlags_distinct [of "[(k, v)]"] by simp
  then show ?thesis
    using assms by (auto simp: RunCLI_def resolve_names_def plan_session_def reserved_flags_def flag_get_def drop_flags_def with_ids_def)
qed


definition demo_case :: strcase where
  "demo_case = \<lparr>ToKebab = to_lower, ToLowerCamel = id\<rparr>"

definition demo_type :: node_type where
  "demo_type = [\<lparr>fname = ''InPath'', ftype = TVar VIn TString, ftags = [(''spec'', ''name=path,scope=Message'')]\<rparr>,
     \<lparr>fname = ''OptMode'', ftype = TString, ftags = [(''spec'', ''title=Mode,enum=a|b'')]\<rparr>]"

definition path_type :: reg_type where
  "path_type = \<lparr>rtName = ''T'', rtFields =
     [\<lparr>fname = ''Node'', ftype = TNamed ''Node'', ftags = [(''spec'', ''id=N'')]\<rparr>,
      \<lparr>fname = ''Tool'', ftype = TNamed ''Tool'', ftags = [(''tool'', ''name=read'')]\<rparr>] @ demo_type\<rparr>"


text \<open>
  C27. Parsing a command line of flags written as \<^verbatim>\<open>--key=value\<close> loses nothing: a key given once has its
  value, a key given several times has the JSON array of all its values in order, no other key appears.
\<close>

theorem parseFlags_collects:
  assumes "\<forall>kv \<in> set kvs. CHR ''='' \<notin> set (fst kv)"
  shows "\<exists>m. parseFlags enc (map render_flag kvs) = Inr m
    \<and> (\<forall>k. map_of m k = (case values_of k kvs of [] \<Rightarrow> None | [v] \<Rightarrow> Some v | vs \<Rightarrow> Some (enc vs)))"
proof -
  obtain F M where fm: "fold (\<lambda>(k, v). add_flag k v) kvs ([], []) = (F, M)" by fastforce
  have c: "collected kvs (F, M)" using collected_fold [of kvs] fm by simp
  let ?m = "fold (\<lambda>(key, values). AList.update key (enc values)) M F"
  have "?m = fold (\<lambda>(k, v). AList.update k v) (map (\<lambda>(k, vs). (k, enc vs)) M) F"
    by (simp add: fold_map comp_def split_def)
  moreover have "distinct (map fst (map (\<lambda>(k, vs). (k, enc vs)) M))"
    using c by (simp add: collected_def comp_def split_def)
  ultimately have "map_of ?m k = (case map_of M k of None \<Rightarrow> map_of F k | Some vs \<Rightarrow> Some (enc vs))" for k
    by (simp only: fold_update_map_of) (simp add: map_of_map split: option.split)
  then have "map_of ?m k = (case values_of k kvs of [] \<Rightarrow> None | [v] \<Rightarrow> Some v | vs \<Rightarrow> Some (enc vs))" for k
    using c by (auto simp: collected_def split: list.splits)
  then show ?thesis using parse_args_render [OF assms, of "([], [])"] fm by (simp add: parseFlags_def)
qed

theorem parseFlags_collects_witness:
  "\<exists>m. parseFlags concat [''--a=1'', ''--b=2'', ''--a=3''] = Inr m \<and> map_of m ''a'' = Some ''13'' \<and> map_of m ''b'' = Some ''2''"
  using parseFlags_collects [of "[(''a'', ''1''), (''b'', ''2''), (''a'', ''3'')]" concat]
  by (auto simp: render_flag_def values_of_def)

text \<open>The fields whose values the tool interceptor collects: of a struct type whose name contains the marker.\<close>

definition tool_output_type :: "gotype \<Rightarrow> bool" where
  "tool_output_type ty \<longleftrightarrow> (case ty of TVar k t \<Rightarrow> True | TNamed n \<Rightarrow> True | TCredential \<Rightarrow> True | _ \<Rightarrow> False)
     \<and> contains_str (type_string ty) ''OutVariable[''"

definition out_tags :: "node_type \<Rightarrow> string list" where
  "out_tags t = map (\<lambda>f. tag_get f ''spec'') (filter (\<lambda>f. tool_output_type (ftype f)) t)"

text \<open>The types fields commonly have: basic ones, variables of them, and structs that are not generic.\<close>

definition basics :: "gotype list" where
  "basics = [TBool, TFloat32, TFloat64, TString, TAny, TMap, TCredential, TPort]
     @ map TInt enum_class.enum @ map TUint enum_class.enum
     @ map TSlice [TBool, TInt I, TInt I64, TFloat64, TString, TAny, TMap]"

fun ordinary :: "gotype \<Rightarrow> bool" where
  "ordinary (TVar k t) = (t \<in> set basics)"
| "ordinary (TNamed n) = (CHR ''['' \<notin> set n \<and> n \<noteq> ''runtime.OutVariable'')"
| "ordinary t = (t \<in> set basics)"

lemma has_prefix_set: "has_prefix s p \<Longrightarrow> set p \<subseteq> set s"
  by (metis has_prefix_def set_take_subset)

lemma index_str_set: "index_str s p = Some i \<Longrightarrow> set p \<subseteq> set s"
proof (induction s p arbitrary: i rule: index_str.induct)
  case (2 x xs p)
  then show ?case by (fastforce split: if_splits dest: has_prefix_set)
qed (simp split: if_splits)

lemma before_brackets_none: "CHR ''['' \<notin> set s \<Longrightarrow> before_brackets s = s"
proof -
  have "c \<notin> set s \<Longrightarrow> index_byte s c = None" for c by (induction s) auto
  then show "CHR ''['' \<notin> set s \<Longrightarrow> before_brackets s = s" by (simp add: before_brackets_def)
qed

lemma out_brackets: "before_brackets (type_string (TVar VOut TAny)) = ''runtime.OutVariable''"
  by code_simp

lemma basics_output: "list_all (\<lambda>t. tool_output_type t = isOutVariable t
    \<and> (\<forall>k. tool_output_type (TVar k t) = isOutVariable (TVar k t))) basics"
  by code_simp

lemma ordinary_output: "ordinary ty \<Longrightarrow> tool_output_type ty \<longleftrightarrow> isOutVariable ty"
proof (cases ty rule: ordinary.cases)
  case (1 k t)
  moreover assume "ordinary ty"
  ultimately show ?thesis using basics_output by (auto simp: list_all_iff)
next
  case (2 n)
  moreover assume "ordinary ty"
  ultimately have n: "CHR ''['' \<notin> set n" "n \<noteq> ''runtime.OutVariable''" by auto
  then have "\<not> contains_str n ''OutVariable[''"
    using index_str_set [of n "''OutVariable[''"] by (cases "index_str n ''OutVariable[''") (auto simp: contains_str_def)
  then show ?thesis using 2 n
    by (simp add: tool_output_type_def isOutVariable_def isGenericType_def out_brackets before_brackets_none del: type_string.simps(20,21,22))
qed (use basics_output in \<open>auto simp: list_all_iff\<close>)

lemma cli_outputs_eq:
  "\<forall>f \<in> set t. ordinary (ftype f) \<Longrightarrow> cli_outputs n L pf t msg out s = collect_outputs n L pf (out_tags t) msg out s"
proof (induction t arbitrary: out s)
  case (Cons f t)
  then show ?case
    by (auto simp: out_tags_def extractNameFromSpec_def ordinary_output Let_def split: option.splits)
qed (simp add: out_tags_def)

text \<open>
  C29. The command line and the agent see the same outputs: for a node type whose fields have ordinary types,
  what \<^verbatim>\<open>collectCLIOutput\<close> prints is what the tool interceptor would answer for the same message.
\<close>

theorem cli_output_equals_tool_output:
  assumes "\<forall>f \<in> set t. ordinary (ftype f)"
  shows "map_option (\<lambda>(out, s'). (GMap out, s')) (collectCLIOutput n L pf t msg s) = collectOutputVariables n L pf (out_tags t) msg s"
  by (cases "collect_outputs n L pf (out_tags t) msg [] s")
    (auto simp: collectCLIOutput_def collectOutputVariables_def cli_outputs_eq [OF assms])

theorem cli_output_equals_tool_output_witness:
  "\<forall>s :: unit server. map_option (\<lambda>(out, s'). (GMap out, s')) (collectCLIOutput 1 text_lib Posix demo_type (NewContext text_lib ''{}'') s)
     = collectOutputVariables 1 text_lib Posix (out_tags demo_type) (NewContext text_lib ''{}'') s"
  by (intro allI cli_output_equals_tool_output) (simp add: demo_type_def basics_def)

text \<open>A node whose environment also records which of its callbacks ran.\<close>

datatype phase = Created | Handled | Closed

definition logged :: "'e node_code \<Rightarrow> ('e \<times> phase list) node_code" where
  "logged C = \<lparr>unmarshal_node = unmarshal_node C, node_field = node_field C, tool_field = tool_field C,
     out_specs = out_specs C,
     on_create = (\<lambda>h (e, l). case on_create C h e of (r, e') \<Rightarrow> (r, e', l @ [Created])),
     on_message = (\<lambda>h msg w (e, l). case on_message C h msg w e of (r, msg', w', e') \<Rightarrow> (r, msg', w', e', l @ [Handled])),
     on_close = (\<lambda>h (e, l). case on_close C h e of (r, e') \<Rightarrow> (r, e', l @ [Closed])),
     on_setup = (\<lambda>h. None)\<rparr>"

lemma cli_outputs_ext: "cli_outputs n L pf t msg out s = Some (out', s') \<Longrightarrow> ext s' = ext s"
  by (induction t arbitrary: out s) (auto simp: Let_def ctx_get_def split: if_splits option.splits)

lemma collectCLIOutput_ext: "collectCLIOutput n L pf t msg s = Some (out', s') \<Longrightarrow> ext s' = ext s"
  by (auto simp: collectCLIOutput_def dest: cli_outputs_ext)

text \<open>
  C28. The life of a node in a command line run: \<^verbatim>\<open>OnCreate\<close> runs first, and when it fails nothing else
  does; otherwise \<^verbatim>\<open>OnMessage\<close> and then \<^verbatim>\<open>OnClose\<close> run, once each, also when \<^verbatim>\<open>OnMessage\<close> fails.
\<close>

theorem run_node_lifecycle:
  assumes "run_node n L pf (logged C) t h msg s = Some (r, s')"
  shows "case fst (on_create C h (fst (ext s))) of
      Some e \<Rightarrow> r = CliError (''OnCreate failed: '' @ err_text e) \<and> snd (ext s') = snd (ext s) @ [Created]
    | None \<Rightarrow> snd (ext s') = snd (ext s) @ [Created, Handled, Closed]"
  using assms
  by (auto simp: run_node_def logged_def run_handler_def Let_def dest!: collectCLIOutput_ext
      split: prod.splits option.splits)

definition failing_code :: "unit node_code" where
  "failing_code = \<lparr>unmarshal_node = (\<lambda>_ _. Inr 3), node_field = (\<lambda>_. None), tool_field = (\<lambda>_. False), out_specs = (\<lambda>_. []),
     on_create = (\<lambda>h x. (None, x)), on_message = (\<lambda>h m w x. (Some (Errorf ''boom''), m, w, x)),
     on_close = (\<lambda>h x. (None, x)), on_setup = (\<lambda>_. None)\<rparr>"

definition cli_server :: "(unit \<times> phase list) server" where
  "cli_server = \<lparr>factories = Map.empty, handlers = Map.empty, nc = 0, sessionMode = False, lmoStore = None,
     capsOf = initial_caps, hasClient = True, robotInfo = [], fs = demo_os, doneSignals = 0, inbox = [], ext = ((), [])\<rparr>"

theorem run_node_lifecycle_witness:
  "\<exists>s'. run_node 0 text_lib Posix (logged failing_code) [] 3 ''{}'' cli_server = Some (CliError ''boom'', s')
     \<and> snd (ext s') = [Created, Handled, Closed]"
proof -
  have e: "ext cli_server = ((), [])" by (simp add: cli_server_def)
  have "\<exists>s'. run_node 0 text_lib Posix (logged failing_code) [] 3 ''{}'' cli_server = Some (CliError ''boom'', s')"
    by (simp add: run_node_def logged_def run_handler_def failing_code_def Let_def e)
  then obtain s' where s: "run_node 0 text_lib Posix (logged failing_code) [] 3 ''{}'' cli_server = Some (CliError ''boom'', s')" ..
  from run_node_lifecycle [OF this] have "snd (ext s') = [Created, Handled, Closed]" by (simp add: failing_code_def e)
  with s show ?thesis by blast
qed

text \<open>Variables the configuration of a command line run leaves out.\<close>

lemma injectVariableConfig_none:
  "map_of c k = None \<Longrightarrow>
   \<forall>g \<in> set t. lowerFirstLetter (fname g) = k \<longrightarrow> scope_of (parseSpec (tag_get g ''spec'')) \<noteq> ''Message'' \<Longrightarrow>
   map_of (injectVariableConfig t c) k = None"
  by (induction t arbitrary: c) (auto simp: injectVariableConfig_def Let_def update_conv')

lemma injectCredentialConfig_none:
  "map_of c k = None \<Longrightarrow> \<forall>g \<in> set t. lowerFirstLetter (fname g) = k \<longrightarrow> ftype g \<noteq> TCredential \<Longrightarrow>
   map_of (injectCredentialConfig t vid iid c) k = None"
  by (induction t arbitrary: c) (auto simp: injectCredentialConfig_def update_conv')

lemma credential_no_variable: "\<not> isVariable TCredential"
  by code_simp

text \<open>
  A command line run configures only variables with Message scope and a name (and what flags patch): an
  output variable with any other scope is left without a name, and writing it panics.
\<close>

theorem cli_unscoped_output_panics:
  assumes "\<forall>g \<in> set t. lowerFirstLetter (fname g) = lowerFirstLetter (fname f) \<longrightarrow> g = f" "isVariable (ftype f)"
    and "scope_of (parseSpec (tag_get f ''spec'')) \<noteq> ''Message''" "lowerFirstLetter (fname f) \<notin> {''guid'', ''name''}"
    and "host_set E \<noteq> None" "vstore s = None"
  shows "map_of (cli_config t guid cmd vid iid []) (lowerFirstLetter (fname f)) = None
    \<and> (\<exists>m. OutVariable_Set n E lmo \<lparr>vScope = [], vName = GNil\<rparr> value msg s = Some (Panic m))"
proof -
  let ?k = "lowerFirstLetter (fname f)"
  have "map_of (injectVariableConfig t [(''guid'', GStr guid), (''name'', GStr cmd)]) ?k = None"
    using assms(1,3,4) by (intro injectVariableConfig_none) auto
  then have "map_of (cli_config t guid cmd vid iid []) ?k = None"
    using assms(1,2) credential_no_variable by (auto simp: cli_config_def Let_def intro!: injectCredentialConfig_none)
  then show ?thesis using assms(5,6) by (auto simp: OutVariable_Set_def PackValue_def)
qed

theorem cli_unscoped_output_panics_witness:
  "\<exists>m. OutVariable_Set 0 (demo_env\<lparr>host_set := Some (\<lambda>_ _ _. None)\<rparr>) True \<lparr>vScope = [], vName = GNil\<rparr> (GInt 3)
     \<lparr>ID = [], data = None\<rparr> demo_state = Some (Panic m)"
proof -
  define f :: field where "f = \<lparr>fname = ''OutSum'', ftype = TVar VOut TString, ftags = [(''spec'', ''name=sum,scope=Flow'')]\<rparr>"
  have "isVariable (ftype f)" "scope_of (parseSpec (tag_get f ''spec'')) \<noteq> ''Message''"
    "lowerFirstLetter (fname f) \<notin> {''guid'', ''name''}"
    unfolding f_def by code_simp+
  from cli_unscoped_output_panics [OF _ this, of "[f]" "demo_env\<lparr>host_set := Some (\<lambda>_ _ _. None)\<rparr>" demo_state]
  show ?thesis by (simp add: demo_state_def)
qed

end
