(* ===== verification/Cli_Session.thy ===== *)
theory Cli_Session
  imports Cli Node_Server_Props "HOL-Library.Word"
begin

unbundle bit_operations_syntax

text \<open>
  Sessions of the command line mode: \<^verbatim>\<open>runtime/cli_session.go\<close> with the platform parts
  \<^verbatim>\<open>cli_session_unix.go\<close> and \<^verbatim>\<open>cli_session_windows.go\<close>.  A session is a daemon that serves the node protocol;
  client processes find it through files in the session directory.  Client and daemon share the file
  system, which is the field \<open>fs\<close> of the daemon's server state.  Listening, forking, clocks and the
  coding of the metadata are parameters (\<open>session_env\<close>).
\<close>

record metadata =
  mdSession :: string
  mdPID :: nat
  mdNamespace :: string
  mdCreated :: string
  mdActivity :: string
  mdNodes :: "string list"

record session_env =
  seGetenv :: "string \<Rightarrow> string"
  on_darwin :: bool
  temp_dir :: string
  join_path :: "string list \<Rightarrow> string"
  enc_meta :: "metadata \<Rightarrow> bytes"
  dec_meta :: "bytes \<Rightarrow> metadata res"
  now_text :: string                                 \<comment> \<open>the time of the call, in RFC 3339\<close>
  self_pid :: nat
  namespace :: string                                \<comment> \<open>from the config file\<close>
  net_listen :: "string \<Rightarrow> string res"                \<comment> \<open>the port of a TCP listener, or an empty text\<close>
  transport_text :: string                           \<comment> \<open>what gRPC says of a connection that fails\<close>
  grpc_status :: "error \<Rightarrow> string \<times> string"            \<comment> \<open>the code and the message gRPC sends for an error\<close>

section \<open>Files\<close>

text \<open>Each file for one system has its own version of these functions.\<close>

definition sessionDir_unix :: "session_env \<Rightarrow> string" where
  "sessionDir_unix S =
     (let tmp = seGetenv S (if on_darwin S then ''TMPDIR'' else ''XDG_RUNTIME_DIR'') in
      if tmp \<noteq> [] then join_path S [tmp, ''robomotion-sessions''] else ''/tmp/robomotion-sessions'')"

definition sessionDir_windows :: "session_env \<Rightarrow> string" where
  "sessionDir_windows S =
     (let appData = seGetenv S ''LOCALAPPDATA'' in
      if appData \<noteq> [] then join_path S [appData, ''Robomotion'', ''sessions'']
      else join_path S [temp_dir S, ''robomotion-sessions''])"

definition sessionDir :: "session_env \<Rightarrow> platform \<Rightarrow> string" where
  "sessionDir S pf = (case pf of Posix \<Rightarrow> sessionDir_unix S | Windows \<Rightarrow> sessionDir_windows S)"

definition session_file :: "session_env \<Rightarrow> platform \<Rightarrow> string \<Rightarrow> string \<Rightarrow> string" where
  "session_file S pf sid ending = join_path S [sessionDir S pf, sid @ ending]"

definition addr_ending :: "platform \<Rightarrow> string" where
  "addr_ending pf = (case pf of Posix \<Rightarrow> ''.sock'' | Windows \<Rightarrow> ''.port'')"

text \<open>Binding a Unix socket creates its file; on Windows the port of the listener is written to one.\<close>

definition sessionListen_unix :: "session_env \<Rightarrow> string \<Rightarrow> os \<Rightarrow> error option \<times> os" where
  "sessionListen_unix S sid w = (case os_mkdir_all (sessionDir S Posix) w of
     (Some e, w1) \<Rightarrow> (Some (Wrap ''create session dir'' e), w1)
   | (None, w1) \<Rightarrow>
       (let p = session_file S Posix sid ''.sock''; w2 = snd (os_remove p w1) in
        case net_listen S p of Inl e \<Rightarrow> (Some e, w2) | Inr _ \<Rightarrow> (None, w2\<lparr>files := (files w2)(p \<mapsto> [])\<rparr>)))"

definition sessionListen_windows :: "session_env \<Rightarrow> string \<Rightarrow> os \<Rightarrow> error option \<times> os" where
  "sessionListen_windows S sid w = (case os_mkdir_all (sessionDir S Windows) w of
     (Some e, w1) \<Rightarrow> (Some (Wrap ''create session dir'' e), w1)
   | (None, w1) \<Rightarrow> (case net_listen S ''127.0.0.1:0'' of
       Inl e \<Rightarrow> (Some (Wrap ''tcp listen'' e), w1)
     | Inr port \<Rightarrow> (case os_write (session_file S Windows sid ''.port'') port w1 of
         (Some e, w2) \<Rightarrow> (Some (Wrap ''write port file'' e), w2) | (None, w2) \<Rightarrow> (None, w2))))"

definition sessionListen :: "session_env \<Rightarrow> platform \<Rightarrow> string \<Rightarrow> os \<Rightarrow> error option \<times> os" where
  "sessionListen S pf sid w = (case pf of Posix \<Rightarrow> sessionListen_unix S sid w | Windows \<Rightarrow> sessionListen_windows S sid w)"

definition sessionDialAddr_unix :: "session_env \<Rightarrow> string \<Rightarrow> os \<Rightarrow> string \<times> os" where
  "sessionDialAddr_unix S sid w =
     (let p = session_file S Posix sid ''.sock'' in
      case os_stat p w of (Inl e, w') \<Rightarrow> ([], w') | (Inr n, w') \<Rightarrow> (''unix://'' @ p, w'))"

definition sessionDialAddr_windows :: "session_env \<Rightarrow> string \<Rightarrow> os \<Rightarrow> string \<times> os" where
  "sessionDialAddr_windows S sid w = (case os_read_file (session_file S Windows sid ''.port'') w of
     (Inl e, w') \<Rightarrow> ([], w')
   | (Inr d, w') \<Rightarrow>
       (let port = trim_space d in
        case atoi port of Inl e \<Rightarrow> ([], w') | Inr i \<Rightarrow> (''127.0.0.1:'' @ port, w')))"

definition sessionDialAddr :: "session_env \<Rightarrow> platform \<Rightarrow> string \<Rightarrow> os \<Rightarrow> string \<times> os" where
  "sessionDialAddr S pf sid w =
     (case pf of Posix \<Rightarrow> sessionDialAddr_unix S sid w | Windows \<Rightarrow> sessionDialAddr_windows S sid w)"

definition sessionReady :: "session_env \<Rightarrow> platform \<Rightarrow> string \<Rightarrow> os \<Rightarrow> bool \<times> os" where
  "sessionReady S pf sid w = (case sessionDialAddr S pf sid w of (target, w') \<Rightarrow> (target \<noteq> [], w'))"

definition sessionCleanup :: "session_env \<Rightarrow> platform \<Rightarrow> string \<Rightarrow> os \<Rightarrow> os" where
  "sessionCleanup S pf sid w =
     snd (os_remove (session_file S pf sid ''.json'') (snd (os_remove (session_file S pf sid (addr_ending pf)) w)))"

section \<open>Metadata\<close>

definition saveSessionMetadata :: "session_env \<Rightarrow> platform \<Rightarrow> string \<Rightarrow> metadata \<Rightarrow> os \<Rightarrow> os" where
  "saveSessionMetadata S pf sid md w = snd (os_write (session_file S pf sid ''.json'') (enc_meta S md) w)"

definition writeSessionMetadata :: "session_env \<Rightarrow> platform \<Rightarrow> string \<Rightarrow> os \<Rightarrow> os" where
  "writeSessionMetadata S pf sid w =
     (let w1 = snd (os_mkdir_all (sessionDir S pf) w);
          md = \<lparr>mdSession = sid, mdPID = self_pid S, mdNamespace = namespace S, mdCreated = now_text S,
                mdActivity = now_text S, mdNodes = []\<rparr>
      in snd (os_write (session_file S pf sid ''.json'') (enc_meta S md) w1))"

definition readSessionMetadata :: "session_env \<Rightarrow> platform \<Rightarrow> string \<Rightarrow> os \<Rightarrow> metadata res \<times> os" where
  "readSessionMetadata S pf sid w = (case os_read_file (session_file S pf sid ''.json'') w of
     (Inl e, w') \<Rightarrow> (Inl e, w') | (Inr d, w') \<Rightarrow> (dec_meta S d, w'))"

section \<open>Small helpers\<close>

text \<open>
  \<^verbatim>\<open>%08x\<close> of a signed integer: its hexadecimal digits, behind a minus sign if it is negative, filled up with
  zeros to eight places; a larger number keeps all its digits.
\<close>

fun hex_of_nat :: "nat \<Rightarrow> string" where
  "hex_of_nat n = (if n < 16 then [hex_digit n] else hex_of_nat (n div 16) @ [hex_digit (n mod 16)])"

declare hex_of_nat.simps [simp del]

definition hex8 :: "int \<Rightarrow> string" where
  "hex8 i = (let d = hex_of_nat (nat \<bar>i\<bar>) in
     if i < 0 then ''-'' @ replicate (7 - length d) (CHR ''0'') @ d else replicate (8 - length d) (CHR ''0'') @ d)"

text \<open>\<open>rand k\<close> is the outcome of reading \<open>k\<close> random bytes, \<open>nanos\<close> the clock, an \<^verbatim>\<open>int64\<close>.\<close>

definition generateSessionID :: "(nat \<Rightarrow> bytes res) \<Rightarrow> 64 word \<Rightarrow> string" where
  "generateSessionID rand nanos = (case rand 4 of
     Inr b \<Rightarrow> hex_encode b
   | Inl e \<Rightarrow> hex8 (sint (nanos AND 0xFFFFFFFF)))"

text \<open>Durations in nanoseconds.\<close>

definition defaultSessionTimeout :: int where
  "defaultSessionTimeout = 30 * 60 * 1000000000"

definition parseSessionTimeout :: "(string \<Rightarrow> int res) \<Rightarrow> string \<Rightarrow> int" where
  "parseSessionTimeout parse_duration s =
     (if s = [] then defaultSessionTimeout
      else case parse_duration s of Inl e \<Rightarrow> defaultSessionTimeout | Inr d \<Rightarrow> d)"

text \<open>The arguments of the daemon process.\<close>

definition daemon_args :: "(int \<Rightarrow> string) \<Rightarrow> string \<Rightarrow> string \<Rightarrow> int \<Rightarrow> string \<Rightarrow> string \<Rightarrow> string list" where
  "daemon_args show_duration exe sid timeout vaultID itemID =
     [exe, ''--session-daemon'', sid]
     @ (if timeout \<noteq> defaultSessionTimeout then [''--session-timeout='' @ show_duration timeout] else [])
     @ (if vaultID \<noteq> [] then [''--vault-id='' @ vaultID] else [])
     @ (if itemID \<noteq> [] then [''--item-id='' @ itemID] else [])"

text \<open>
  Waiting for the daemon's file: \<open>probe t\<close> is the answer of \<^verbatim>\<open>sessionReady\<close> at time \<open>t\<close>, in milliseconds
  since the start.  Each round sleeps 100 ms until the deadline of 3 s.
\<close>

function wait_ready :: "(nat \<Rightarrow> bool) \<Rightarrow> nat \<Rightarrow> bool" where
  "wait_ready probe t = (if t < 3000 then probe t \<or> wait_ready probe (t + 100) else False)"
  by pat_completeness auto
termination
  by (relation "measure (\<lambda>(probe, t). 3000 - t)") auto

declare wait_ready.simps [simp del]

definition StartDaemonProcess :: "error option \<Rightarrow> (nat \<Rightarrow> bool) \<Rightarrow> string option" where
  "StartDaemonProcess start_err probe = (case start_err of
     Some e \<Rightarrow> Some (''failed to start session daemon: '' @ err_text e)
   | None \<Rightarrow> if wait_ready probe 0 then None else Some ''session daemon did not start within 3s'')"

section \<open>The daemon\<close>

text \<open>The handlers of \<^verbatim>\<open>guids\<close> are closed and uncounted; they stay registered.\<close>

fun close_nodes :: "'e node_code \<Rightarrow> string list \<Rightarrow> 'e server \<Rightarrow> 'e server" where
  "close_nodes C [] s = s"
| "close_nodes C (guid # guids) s = (case GetNodeHandler guid s of
     None \<Rightarrow> close_nodes C guids s
   | Some nh \<Rightarrow> close_nodes C guids (s\<lparr>ext := snd (on_close C (originalHandler nh) (ext s)), nc := nc s - 1\<rparr>))"

text \<open>\<open>guids\<close> is the order in which \<^verbatim>\<open>listNodeHandlerGUIDs\<close> visits the handlers.\<close>

definition closeAllSessionNodes :: "'e node_code \<Rightarrow> string list \<Rightarrow> 'e server \<Rightarrow> 'e server" where
  "closeAllSessionNodes C guids s = close_nodes C guids s"

record 'e daemon =
  srv :: "'e server"
  serving :: bool

definition cleaned :: "session_env \<Rightarrow> platform \<Rightarrow> string \<Rightarrow> 'e server \<Rightarrow> 'e server" where
  "cleaned S pf sid s = s\<lparr>fs := sessionCleanup S pf sid (fs s)\<rparr>"

text \<open>
  The goroutine that stops the server removes the files after \<^verbatim>\<open>GracefulStop\<close>, while \<^verbatim>\<open>Serve\<close> returns and the
  process ends: \<open>c\<close> tells whether it got to it.
\<close>

definition stopped :: "session_env \<Rightarrow> platform \<Rightarrow> string \<Rightarrow> bool \<Rightarrow> 'e server \<Rightarrow> 'e server" where
  "stopped S pf sid c s = (if c then cleaned S pf sid s else s)"

text \<open>
  The start of \<^verbatim>\<open>RunSessionDaemon\<close>, up to serving; \<open>Inl\<close> is the exit with status 1.  The session mode is
  set after the listener is there, and the metadata is written last.
\<close>

definition start_daemon :: "session_env \<Rightarrow> platform \<Rightarrow> 'k vault_env \<Rightarrow> reg_type list \<Rightarrow> string \<Rightarrow> string \<Rightarrow> string
    \<Rightarrow> (cli_state \<times> 'x) server \<Rightarrow> (string + (cli_state \<times> 'x) daemon) outcome" where
  "start_daemon S pf V types sid vaultID itemID s =
     (case fetch_credentials V vaultID itemID (fs s) of
        (Panic m, w) \<Rightarrow> Panic m
      | (Return (Inl m), w) \<Rightarrow> Return (Inl m)
      | (Return (Inr c), w) \<Rightarrow>
          (let s1 = RegisterFactories types (s\<lparr>fs := w, hasClient := True, ext := (c, snd (ext s))\<rparr>) in
           case sessionListen S pf sid (fs s1) of
             (Some e, w1) \<Rightarrow> Return (Inl (''listen: '' @ err_text e))
           | (None, w1) \<Rightarrow>
               Return (Inr \<lparr>srv = s1\<lparr>fs := writeSessionMetadata S pf sid w1, sessionMode := True\<rparr>, serving = True\<rparr>)))"

text \<open>
  What happens to a daemon: a call of the node protocol (each of which restarts the inactivity timer), a
  panic in a call, which ends the process, the end of the timer, the receipt of the signal \<^verbatim>\<open>done\<close>, and a change of
  the files by another process, a client.
\<close>

datatype session_event = Called | Crashed string | TimedOut | Signalled | FilesChanged

inductive session_step :: "session_env \<Rightarrow> string \<Rightarrow> lib \<Rightarrow> platform \<Rightarrow> 'e node_code \<Rightarrow> (bytes \<Rightarrow> bytes res)
    \<Rightarrow> session_event \<Rightarrow> 'e daemon \<Rightarrow> 'e daemon \<Rightarrow> bool"
  for S sid L pf C dec where
  call: "serving d \<Longrightarrow> rpc L pf C dec (srv d) s' \<Longrightarrow> session_step S sid L pf C dec Called d (d\<lparr>srv := s'\<rparr>)"
| crash: "serving d \<Longrightarrow> OnCreate L C name config (srv d) = Panic m \<Longrightarrow>
    session_step S sid L pf C dec (Crashed m) d (d\<lparr>serving := False\<rparr>)"
| inactive: "serving d \<Longrightarrow> set guids = dom (handlers (srv d)) \<Longrightarrow> distinct guids \<Longrightarrow>
    session_step S sid L pf C dec TimedOut d
      (d\<lparr>srv := stopped S pf sid c (closeAllSessionNodes C guids (srv d)), serving := False\<rparr>)"
| signalled: "serving d \<Longrightarrow> 0 < doneSignals (srv d) \<Longrightarrow>
    session_step S sid L pf C dec Signalled d
      (d\<lparr>srv := stopped S pf sid c ((srv d)\<lparr>doneSignals := doneSignals (srv d) - 1\<rparr>), serving := False\<rparr>)"
| changed: "session_step S sid L pf C dec FilesChanged d (d\<lparr>srv := (srv d)\<lparr>fs := w\<rparr>\<rparr>)"

inductive_cases session_stepE: "session_step S sid L pf C dec ev d d'"

inductive session_run :: "session_env \<Rightarrow> string \<Rightarrow> lib \<Rightarrow> platform \<Rightarrow> 'e node_code \<Rightarrow> (bytes \<Rightarrow> bytes res)
    \<Rightarrow> 'e daemon \<Rightarrow> session_event list \<Rightarrow> 'e daemon \<Rightarrow> bool"
  for S sid L pf C dec where
  start: "session_run S sid L pf C dec d [] d"
| step: "session_run S sid L pf C dec d evs d1 \<Longrightarrow> session_step S sid L pf C dec ev d1 d2 \<Longrightarrow>
    session_run S sid L pf C dec d (evs @ [ev]) d2"

section \<open>The client\<close>

text \<open>
  A call without an address, or of a daemon that does not serve, fails in the transport; one that panics
  ends the daemon.  An error of the server reaches the client as a status of gRPC, whose text names its
  code.  An empty message arrives as none.
\<close>

definition rpc_error :: "string \<Rightarrow> string \<Rightarrow> error" where
  "rpc_error code desc = Foreign (''rpc error: code = '' @ code @ '' desc = '' @ desc)"

definition sent_error :: "session_env \<Rightarrow> error \<Rightarrow> error" where
  "sent_error S e = (case grpc_status S e of (code, desc) \<Rightarrow> rpc_error code desc)"

definition unavailable :: "session_env \<Rightarrow> error" where
  "unavailable S = rpc_error ''Unavailable'' (transport_text S)"

definition reaches :: "string \<Rightarrow> 'e daemon \<Rightarrow> bool" where
  "reaches target d \<longleftrightarrow> target \<noteq> [] \<and> serving d"

definition call_create :: "session_env \<Rightarrow> string \<Rightarrow> lib \<Rightarrow> 'e node_code \<Rightarrow> string \<Rightarrow> bytes \<Rightarrow> 'e daemon
    \<Rightarrow> error option \<times> 'e daemon" where
  "call_create S target L C name config d =
     (if \<not> reaches target d then (Some (unavailable S), d)
      else case OnCreate L C name config (srv d) of
        Panic m \<Rightarrow> (Some (unavailable S), d\<lparr>serving := False\<rparr>)
      | Return (e, s) \<Rightarrow> (map_option (sent_error S) e, d\<lparr>srv := s\<rparr>))"

definition call_message :: "session_env \<Rightarrow> string \<Rightarrow> nat \<Rightarrow> lib \<Rightarrow> platform \<Rightarrow> 'e node_code \<Rightarrow> (bytes \<Rightarrow> bytes res)
    \<Rightarrow> string \<Rightarrow> bytes \<Rightarrow> 'e daemon \<Rightarrow> (bytes option res \<times> 'e daemon) option" where
  "call_message S target n L pf C dec guid msg d =
     (if \<not> reaches target d then Some (Inl (unavailable S), d)
      else map_option (\<lambda>((out, err), s).
          (case err of Some e \<Rightarrow> Inl (sent_error S e) | None \<Rightarrow> Inr (if out = Some [] then None else out), d\<lparr>srv := s\<rparr>))
        (OnMessage n L pf C dec guid msg (srv d)))"

definition call_close :: "session_env \<Rightarrow> string \<Rightarrow> 'e node_code \<Rightarrow> string \<Rightarrow> 'e daemon \<Rightarrow> error option \<times> 'e daemon" where
  "call_close S target C guid d =
     (if \<not> reaches target d then (Some (unavailable S), d)
      else case OnClose C guid (srv d) of (e, s) \<Rightarrow> (map_option (sent_error S) e, d\<lparr>srv := s\<rparr>))"

definition on_disk :: "(os \<Rightarrow> 'a \<times> os) \<Rightarrow> 'e daemon \<Rightarrow> 'a \<times> 'e daemon" where
  "on_disk f d = (case f (fs (srv d)) of (x, w) \<Rightarrow> (x, d\<lparr>srv := (srv d)\<lparr>fs := w\<rparr>\<rparr>))"

text \<open>
  The printed response: the output message as a map with the session id added.  Storing into the nil map
  that JSON \<^verbatim>\<open>null\<close> decodes to panics.
\<close>

definition session_result :: "json_lib \<Rightarrow> string \<Rightarrow> bytes option \<Rightarrow> gmap outcome" where
  "session_result J sid out = (case out of
     None \<Rightarrow> Return (AList.update ''session_id'' (GStr sid) [(''status'', GStr ''completed'')])
   | Some b \<Rightarrow> (case unmarshal J b of
       Inr (GMap m) \<Rightarrow> Return (AList.update ''session_id'' (GStr sid) m)
     | Inr GNil \<Rightarrow> Panic ''assignment to entry in nil map''
     | _ \<Rightarrow> Return (AList.update ''session_id'' (GStr sid) [(''result'', GStr b)])))"

text \<open>Creating the node of one invocation, and recording its guid when the metadata can be read.\<close>

definition session_create :: "string \<Rightarrow> lib \<Rightarrow> json_lib \<Rightarrow> platform \<Rightarrow> 'e node_code \<Rightarrow> session_env \<Rightarrow> string \<Rightarrow> command_entry \<Rightarrow> string
    \<Rightarrow> string \<Rightarrow> string \<Rightarrow> string \<Rightarrow> gmap \<Rightarrow> 'e daemon \<Rightarrow> error option \<times> 'e daemon" where
  "session_create target L J pf C S sid cmd commandName guid vaultID itemID patches d =
     (case on_disk (readSessionMetadata S pf sid) d of (md, d1) \<Rightarrow>
        (if (\<exists>m. md = Inr m \<and> guid \<in> set (mdNodes m)) then (None, d1)
         else (case call_create S target L C (ceNodeID cmd)
                 (json_text J (GMap (cli_config (rtFields (ceType cmd)) guid commandName vaultID itemID patches))) d1 of
             (Some e, d2) \<Rightarrow> (Some e, d2)
           | (None, d2) \<Rightarrow> (None, case md of
                 Inl e \<Rightarrow> d2
               | Inr m \<Rightarrow> snd (on_disk (\<lambda>w. ((), saveSessionMetadata S pf sid
                     (m\<lparr>mdNodes := mdNodes m @ [guid], mdActivity := now_text S\<rparr>) w)) d2)))))"

definition Compress :: "bool \<Rightarrow> (bytes \<Rightarrow> bytes res) \<Rightarrow> bytes \<Rightarrow> bytes res" where
  "Compress enabled gzip d = (if \<not> enabled then Inr d else gzip d)"

definition RunSessionClient :: "nat \<Rightarrow> lib \<Rightarrow> json_lib \<Rightarrow> platform \<Rightarrow> 'e node_code \<Rightarrow> session_env \<Rightarrow> strcase
    \<Rightarrow> (bytes \<Rightarrow> bytes res) \<Rightarrow> (bytes \<Rightarrow> bytes res) \<Rightarrow> reg_type list \<Rightarrow> string \<Rightarrow> string \<Rightarrow> string \<Rightarrow> flags \<Rightarrow> 'e daemon
    \<Rightarrow> (cli_result outcome \<times> 'e daemon) option" where
  "RunSessionClient n L J pf C S K compress dec types callID sid commandName flags d =
     (let guid = commandName @ ''-'' @ callID;
          vaultID = flag_get flags ''vault-id''; itemID = flag_get flags ''item-id'';
          rest = drop_flags [''vault-id'', ''item-id''] flags;
          (target, d) = on_disk (sessionDialAddr S pf sid) d
      in case map_of (buildCommandMap types) commandName of
           None \<Rightarrow> Some (Return (CliError (''unknown command '' @ commandName)), d)
         | Some cmd \<Rightarrow>
             (let (msgData, patches) = buildCLIContext K (rtFields (ceType cmd)) rest in
              case session_create target L J pf C S sid cmd commandName guid vaultID itemID patches d of
                (Some e, d1) \<Rightarrow> Some (Return (CliError (''session OnCreate failed: '' @ err_text e)), d1)
              | (None, d1) \<Rightarrow> (case compress (json_text J (GMap msgData)) of
                  Inl e \<Rightarrow> Some (Return (CliError (''compress failed: '' @ err_text e)), d1)
                | Inr compressed \<Rightarrow> (case call_message S target n L pf C dec guid compressed d1 of
                    None \<Rightarrow> None
                  | Some (Inl e, d2) \<Rightarrow> Some (Return (CliError (''session OnMessage failed: '' @ err_text e)), d2)
                  | Some (Inr out, d2) \<Rightarrow> Some (case session_result J sid out of
                        Panic m \<Rightarrow> Panic m | Return r \<Rightarrow> Return (CliPrint r), d2)))))"

fun close_guids :: "session_env \<Rightarrow> string \<Rightarrow> 'e node_code \<Rightarrow> string list \<Rightarrow> 'e daemon \<Rightarrow> string list \<times> 'e daemon" where
  "close_guids S target C [] d = ([], d)"
| "close_guids S target C (guid # guids) d = (case call_close S target C guid d of
     (None, d') \<Rightarrow> close_guids S target C guids d'
   | (Some e, d') \<Rightarrow> (case close_guids S target C guids d' of (warnings, d'') \<Rightarrow>
       ((''OnClose '' @ guid @ '': '' @ err_text e) # warnings, d'')))"

text \<open>Closing a session closes the nodes of the metadata; the errors are printed as warnings.\<close>

definition CloseSession :: "platform \<Rightarrow> 'e node_code \<Rightarrow> session_env \<Rightarrow> string \<Rightarrow> 'e daemon \<Rightarrow> (cli_result \<times> string list) \<times> 'e daemon" where
  "CloseSession pf C S sid d = (case on_disk (readSessionMetadata S pf sid) d of
     (Inl e, d1) \<Rightarrow> ((CliError (''cannot read session '' @ sid @ '': '' @ err_text e), []), d1)
   | (Inr md, d1) \<Rightarrow> (case on_disk (sessionDialAddr S pf sid) d1 of (target, d2) \<Rightarrow>
       (case close_guids S target C (mdNodes md) d2 of
          (warnings, d3) \<Rightarrow> ((CliPrint [(''status'', GStr ''closed'')], warnings), d3))))"

section \<open>Properties\<close>

text \<open>The helpers\<close>

lemma hex_digit_is_hex: "n < 16 \<Longrightarrow> is_hex (hex_digit n)"
  by (simp add: is_hex_def hex_val_digit)

lemma hex_of_nat_is_hex: "list_all is_hex (hex_of_nat n)"
proof (induction n rule: hex_of_nat.induct)
  case (1 n)
  then show ?case by (subst hex_of_nat.simps) (simp add: hex_digit_is_hex)
qed

lemma length_hex_of_nat: "n < 16 ^ Suc k \<Longrightarrow> length (hex_of_nat n) \<le> Suc k"
proof (induction k arbitrary: n)
  case (Suc k)
  then show ?case by (subst hex_of_nat.simps) (simp add: less_mult_imp_div_less)
qed (simp add: hex_of_nat.simps)

lemma hex8_shape:
  assumes "0 \<le> i" "i < 2 ^ 32"
  shows "length (hex8 i) = 8 \<and> list_all is_hex (hex8 i)"
proof -
  have "nat \<bar>i\<bar> < 16 ^ Suc 7" using assms by simp
  moreover have "is_hex (CHR ''0'')" by (simp add: is_hex_def hex_val_def)
  ultimately show ?thesis
    using assms(1) hex_of_nat_is_hex [of "nat \<bar>i\<bar>"] length_hex_of_nat [of "nat \<bar>i\<bar>" 7]
    by (auto simp: hex8_def Let_def list_all_iff)
qed

lemma low_word_bounds: "0 \<le> sint (w AND 0xFFFFFFFF :: 64 word) \<and> sint (w AND 0xFFFFFFFF :: 64 word) < 2 ^ 32"
proof -
  let ?v = "w AND 0xFFFFFFFF :: 64 word"
  have "?v = take_bit 32 w" using take_bit_eq_mask [of 32 w] by (simp add: mask_eq_exp_minus_1)
  then have u: "uint ?v < 2 ^ 32" using take_bit_int_less_exp [of 32 "uint w"] by (simp add: unsigned_take_bit_eq)
  have "- (2 ^ 63) \<le> uint ?v" by (rule order_trans [OF _ unsigned_greater_eq]) simp
  moreover have "uint ?v < 2 ^ 63" using u by simp
  ultimately have "sint ?v = uint ?v" by (simp add: sint_uint signed_take_bit_int_eq_self)
  with u show ?thesis by simp
qed



lemma wait_ready_iff: "wait_ready probe t \<longleftrightarrow> (\<exists>i. t + 100 * i < 3000 \<and> probe (t + 100 * i))"
proof (induction probe t rule: wait_ready.induct)
  case (1 probe t)
  have "(\<exists>i. t + 100 * i < 3000 \<and> probe (t + 100 * i))
      \<longleftrightarrow> t < 3000 \<and> (probe t \<or> (\<exists>i. t + 100 + 100 * i < 3000 \<and> probe (t + 100 + 100 * i)))" (is "?L \<longleftrightarrow> ?R")
  proof
    assume ?L
    then obtain i where i: "t + 100 * i < 3000" "probe (t + 100 * i)" by blast
    then show ?R by (cases i) (auto intro: exI [of _ "i - 1"] simp: algebra_simps)
  next
    assume ?R
    then show ?L
    proof (elim conjE disjE exE)
      assume "t < 3000" "probe t"
      then show ?L by (intro exI [of _ 0]) simp
    next
      fix i assume "t + 100 + 100 * i < 3000" "probe (t + 100 + 100 * i)"
      then show ?L by (intro exI [of _ "Suc i"]) (simp add: algebra_simps)
    qed
  qed
  with 1 show ?case by (subst wait_ready.simps) auto
qed

text \<open>
  C32. Starting a session always comes to an end, and finds the daemon exactly when its file is there at
  one of the thirty probes, every 100 ms from 0 to 2.9 s; a daemon that appears by then and stays is
  found.
\<close>

theorem session_start_finds_daemon:
  "(StartDaemonProcess None probe = None \<longleftrightarrow> (\<exists>i < 30. probe (100 * i)))
   \<and> (t0 \<le> 2900 \<longrightarrow> (\<forall>t \<ge> t0. probe t) \<longrightarrow> StartDaemonProcess None probe = None)"
proof -
  have e: "StartDaemonProcess None probe = None \<longleftrightarrow> (\<exists>i < 30. probe (100 * i))"
    by (simp add: StartDaemonProcess_def wait_ready_iff)
  moreover have "\<exists>i < 30. probe (100 * i)" if "t0 \<le> 2900" "\<forall>t \<ge> t0. probe t" using that by (intro exI [of _ 29]) auto
  ultimately show ?thesis by blast
qed

theorem session_start_finds_daemon_witness: "StartDaemonProcess None (\<lambda>t. 250 \<le> t) = None"
  using session_start_finds_daemon [of "\<lambda>t. 250 \<le> t" 250] by simp

text \<open>The session mode\<close>

lemma factory_mode:
  "factory_OnCreate C ty config s = (r, s1) \<Longrightarrow> sessionMode s1 = sessionMode s \<and> doneSignals s1 = doneSignals s"
  by (erule factory_cases) (auto simp: AddNodeHandler_def)

lemma rpc_mode: "rpc L pf C dec s s' \<Longrightarrow> sessionMode s \<Longrightarrow> sessionMode s' \<and> doneSignals s' = doneSignals s"
proof (induction rule: rpc.induct)
  case (create name config s r s')
  then show ?case by (auto simp: OnCreate_def dest!: factory_mode split: option.splits prod.splits)
next
  case (message n guid inMessage s r s')
  then show ?case using OnMessage_same [OF message(1)] by (auto simp: same_registry_def)
next
  case (close guid s r s')
  then show ?case by (auto simp: OnClose_def Let_def RemoveNodeHandler_def split: option.splits prod.splits)
next
  case (pairing name config sid s r s')
  then show ?case by (auto simp: OnSetup_def Let_def RemoveNodeHandler_def dest!: factory_mode split: option.splits prod.splits)
qed

lemma close_nodes_mode:
  "sessionMode (close_nodes C guids s) = sessionMode s \<and> doneSignals (close_nodes C guids s) = doneSignals s"
  by (induction guids arbitrary: s) (auto split: option.split)

definition quiet :: "'e daemon \<Rightarrow> bool" where
  "quiet d \<longleftrightarrow> sessionMode (srv d) \<and> doneSignals (srv d) = 0"

lemma session_step_quiet: "session_step S sid L pf C dec ev d d' \<Longrightarrow> quiet d \<Longrightarrow> quiet d' \<and> ev \<noteq> Signalled"
  by (induction rule: session_step.induct)
    (auto simp: quiet_def stopped_def cleaned_def closeAllSessionNodes_def close_nodes_mode dest: rpc_mode)

lemma session_run_quiet: "session_run S sid L pf C dec d evs d' \<Longrightarrow> quiet d \<Longrightarrow> quiet d' \<and> Signalled \<notin> set evs"
  by (induction rule: session_run.induct) (auto dest: session_step_quiet)

lemma session_run_serving:
  "session_run S sid L pf C dec d evs d' \<Longrightarrow> serving d \<Longrightarrow> \<not> serving d' \<Longrightarrow>
    Signalled \<in> set evs \<or> TimedOut \<in> set evs \<or> (\<exists>m. Crashed m \<in> set evs)"
proof (induction rule: session_run.induct)
  case (step d evs d1 ev d2)
  from step.hyps(2) step.IH step.prems show ?case by (cases rule: session_step.cases) auto
qed simp

lemma session_run_append:
  "session_run S sid L pf C dec d1 evs2 d2 \<Longrightarrow> session_run S sid L pf C dec d evs d1 \<Longrightarrow>
    session_run S sid L pf C dec d (evs @ evs2) d2"
  by (induction rule: session_run.induct) (auto intro: session_run.step simp flip: append_assoc)

text \<open>What a client does to the daemon are calls and changes of files.\<close>

definition client_run :: "session_env \<Rightarrow> string \<Rightarrow> lib \<Rightarrow> platform \<Rightarrow> 'e node_code \<Rightarrow> (bytes \<Rightarrow> bytes res)
    \<Rightarrow> 'e daemon \<Rightarrow> 'e daemon \<Rightarrow> bool" where
  "client_run S sid L pf C dec d d' \<longleftrightarrow>
     (\<exists>evs. session_run S sid L pf C dec d evs d' \<and> set evs \<subseteq> {Called, FilesChanged})"

lemma client_run_refl: "client_run S sid L pf C dec d d"
  unfolding client_run_def by (rule exI [of _ "[]"]) (simp add: session_run.start)

lemma client_run_trans:
  "client_run S sid L pf C dec d d1 \<Longrightarrow> client_run S sid L pf C dec d1 d2 \<Longrightarrow> client_run S sid L pf C dec d d2"
  unfolding client_run_def by (meson session_run_append le_sup_iff set_append [THEN equalityD1, THEN subset_trans])

lemma client_run_step:
  "session_step S sid L pf C dec ev d d' \<Longrightarrow> ev \<in> {Called, FilesChanged} \<Longrightarrow> client_run S sid L pf C dec d d'"
  unfolding client_run_def using session_run.step [OF session_run.start] by force

lemma client_run_serving: "client_run S sid L pf C dec d d' \<Longrightarrow> serving d \<Longrightarrow> serving d'"
  unfolding client_run_def using session_run_serving by blast

lemma on_disk_run: "on_disk f d = (x, d') \<Longrightarrow> client_run S sid L pf C dec d d'"
  by (rule client_run_step [of _ _ _ _ _ _ FilesChanged]) (auto simp: on_disk_def intro: session_step.changed split: prod.splits)

lemma call_close_run: "call_close S target C g d = (e, d') \<Longrightarrow> client_run S sid L pf C dec d d'"
  by (auto simp: call_close_def reaches_def intro: client_run_refl client_run_step [OF session_step.call] rpc.close
      split: if_splits prod.splits)

lemma close_guids_run: "close_guids S target C guids d = (ws, d') \<Longrightarrow> client_run S sid L pf C dec d d'"
proof (induction guids arbitrary: d ws d')
  case (Cons g guids)
  obtain e d1 where c: "call_close S target C g d = (e, d1)" by fastforce
  obtain ws1 d2 where r: "close_guids S target C guids d1 = (ws1, d2)" by fastforce
  have "d' = d2" using Cons.prems c r by (cases e) auto
  then show ?case using client_run_trans [OF call_close_run [OF c] Cons.IH [OF r]] by simp
qed (simp add: client_run_refl)

text \<open>Closing removes the nodes that are listed.\<close>

lemma OnClose_handlers: "OnClose C g s = (e, s') \<Longrightarrow> GetNodeHandler k s' = (if k = g then None else GetNodeHandler k s)"
  by (auto simp: OnClose_def Let_def RemoveNodeHandler_def GetNodeHandler_def split: option.splits prod.splits if_splits)

lemma close_guids_handlers:
  "close_guids S target C guids d = (ws, d') \<Longrightarrow> target \<noteq> [] \<Longrightarrow> serving d \<Longrightarrow>
    GetNodeHandler k (srv d') = (if k \<in> set guids then None else GetNodeHandler k (srv d))"
proof (induction guids arbitrary: d ws d')
  case (Cons g guids)
  obtain e s1 where c: "OnClose C g (srv d) = (e, s1)" by fastforce
  obtain ws1 d2 where r: "close_guids S target C guids (d\<lparr>srv := s1\<rparr>) = (ws1, d2)" by fastforce
  have "d' = d2" using Cons.prems c r by (cases e) (auto simp: call_close_def reaches_def)
  then show ?case using Cons.IH [OF r] Cons.prems(2,3) OnClose_handlers [OF c] by simp
qed simp

lemma CloseSession_closes:
  assumes "serving d" "readSessionMetadata S pf sid (fs (srv d)) = (Inr md, w)" "fst (sessionDialAddr S pf sid w) \<noteq> []"
  shows "\<exists>warnings d'. CloseSession pf C S sid d = ((CliPrint [(''status'', GStr ''closed'')], warnings), d')
    \<and> client_run S sid L pf C dec d d'
    \<and> (\<forall>k. GetNodeHandler k (srv d') = (if k \<in> set (mdNodes md) then None else GetNodeHandler k (srv d)))"
proof -
  obtain d1 where d1: "on_disk (readSessionMetadata S pf sid) d = (Inr md, d1)" "d1 = d\<lparr>srv := (srv d)\<lparr>fs := w\<rparr>\<rparr>"
    using assms(2) by (simp add: on_disk_def)
  obtain target w2 where t: "sessionDialAddr S pf sid w = (target, w2)" by fastforce
  let ?d2 = "d\<lparr>srv := (srv d)\<lparr>fs := w2\<rparr>\<rparr>"
  have d2: "on_disk (sessionDialAddr S pf sid) d1 = (target, ?d2)" using d1(2) t by (simp add: on_disk_def)
  obtain ws d3 where c: "close_guids S target C (mdNodes md) ?d2 = (ws, d3)" by fastforce
  have "client_run S sid L pf C dec d d3"
    using client_run_trans [OF client_run_trans [OF on_disk_run [OF d1(1)] on_disk_run [OF d2]] close_guids_run [OF c]] .
  moreover have "GetNodeHandler k (srv d3) = (if k \<in> set (mdNodes md) then None else GetNodeHandler k (srv d))" for k
    using close_guids_handlers [OF c, of k] assms(1,3) t by (simp add: GetNodeHandler_def)
  ultimately show ?thesis using d1(1) d2 c by (simp add: CloseSession_def)
qed

lemma RegisterFactories_signals: "doneSignals (RegisterFactories types s) = doneSignals s"
proof -
  have "doneSignals (fold (\<lambda>t. RegisterNodeFactory (f t) (g t)) types s) = doneSignals s" for f g :: "reg_type \<Rightarrow> string"
    by (induction types arbitrary: s) (simp_all add: RegisterNodeFactory_def)
  then show ?thesis by (simp add: RegisterFactories_def)
qed

lemma start_daemon_quiet:
  "start_daemon S pf V types sid vaultID itemID s = Return (Inr d) \<Longrightarrow> doneSignals s = 0 \<Longrightarrow> quiet d \<and> serving d"
  by (auto simp: start_daemon_def Let_def quiet_def RegisterFactories_signals split: prod.splits sum.splits outcome.splits option.splits)

text \<open>
  C33. A session daemon never gets the signal that its last node was closed: in session mode \<^verbatim>\<open>OnClose\<close> does
  not send it.  So from its start on, whatever calls come and whatever the clients do to the files, it
  stops serving only when its inactivity timer ends or a call panics.  \<^verbatim>\<open>CloseSession\<close>, which is said to make
  the daemon exit, is a series of such calls: it takes every node of the metadata away and leaves the
  daemon serving.
\<close>

theorem session_ends_only_by_inactivity:
  assumes "start_daemon S pf V types sid vaultID itemID s = Return (Inr d0)" "doneSignals s = 0"
    and "session_run S sid L pf C dec d0 evs d"
  shows "Signalled \<notin> set evs \<and> (\<not> serving d \<longrightarrow> TimedOut \<in> set evs \<or> (\<exists>m. Crashed m \<in> set evs))
    \<and> (\<forall>md w. serving d \<longrightarrow> readSessionMetadata S pf sid (fs (srv d)) = (Inr md, w) \<longrightarrow> fst (sessionDialAddr S pf sid w) \<noteq> [] \<longrightarrow>
        (\<exists>warnings d'. CloseSession pf C S sid d = ((CliPrint [(''status'', GStr ''closed'')], warnings), d')
          \<and> client_run S sid L pf C dec d d' \<and> serving d'
          \<and> (\<forall>k. GetNodeHandler k (srv d') = (if k \<in> set (mdNodes md) then None else GetNodeHandler k (srv d)))))"
proof -
  have q: "quiet d0" "serving d0" using start_daemon_quiet [OF assms(1,2)] by simp_all
  have n: "Signalled \<notin> set evs" using session_run_quiet [OF assms(3) q(1)] by simp
  moreover have "\<not> serving d \<longrightarrow> TimedOut \<in> set evs \<or> (\<exists>m. Crashed m \<in> set evs)"
    using session_run_serving [OF assms(3) q(2)] n by blast
  ultimately show ?thesis using CloseSession_closes [of d S pf sid _ _ C L dec] client_run_serving [of S sid L pf C dec d] by meson
qed

definition demo_session :: session_env where
  "demo_session = \<lparr>seGetenv = (\<lambda>k. []), on_darwin = False, temp_dir = ''/tmp'', join_path = concat, enc_meta = (\<lambda>m. mdSession m),
     dec_meta = (\<lambda>b. Inl (Errorf ''json'')), now_text = ''now'', self_pid = 7, namespace = ''ns'', net_listen = (\<lambda>a. Inr []),
     transport_text = ''connection error'', grpc_status = (\<lambda>e. (''Unknown'', err_text e))\<rparr>"

definition listed_session :: session_env where
  "listed_session = demo_session\<lparr>enc_meta := (\<lambda>m. concat (mdNodes m)),
     dec_meta := (\<lambda>b. Inr \<lparr>mdSession = ''ab'', mdPID = 7, mdNamespace = ''ns'', mdCreated = ''now'', mdActivity = ''now'', mdNodes = [b]\<rparr>)\<rparr>"

definition served_code :: "(cli_state \<times> unit) node_code" where
  "served_code = \<lparr>unmarshal_node = (\<lambda>ty c. Inr 3), node_field = (\<lambda>h. Some (demo_node ''a'')), tool_field = (\<lambda>h. False),
     out_specs = (\<lambda>h. []), on_create = (\<lambda>h x. (None, x)), on_message = (\<lambda>h m w x. (None, m, w, x)),
     on_close = (\<lambda>h x. (None, x)), on_setup = (\<lambda>h. None)\<rparr>"

definition fresh_server :: "(cli_state \<times> unit) server" where
  "fresh_server = \<lparr>factories = [''N'' \<mapsto> ''T''], handlers = Map.empty, nc = 0, sessionMode = False, lmoStore = None,
     capsOf = \<lparr>robotCapabilities = 0, packageCapabilities = 0\<rparr>, hasClient = False, robotInfo = [],
     fs = demo_os, doneSignals = 0, inbox = [], ext = (NewCLIRuntimeHelper, ())\<rparr>"

lemma fresh_daemon:
  "\<exists>w. start_daemon listed_session Posix demo_vault [] ''ab'' [] [] fresh_server
     = Return (Inr \<lparr>srv = fresh_server\<lparr>fs := w, sessionMode := True, hasClient := True\<rparr>, serving = True\<rparr>)"
  by (simp add: start_daemon_def fetch_credentials_def RegisterFactories_def sessionListen_def sessionListen_unix_def
      listed_session_def demo_session_def fresh_server_def demo_os_def os_defs split: option.split)

theorem session_ends_only_by_inactivity_witness:
  "\<exists>d0 d ws d'. start_daemon listed_session Posix demo_vault [] ''ab'' [] [] fresh_server = Return (Inr d0)
     \<and> session_run listed_session ''ab'' text_lib Posix served_code Inr d0 [Called, FilesChanged] d
     \<and> nc (srv d) = 1 \<and> GetNodeHandler ''a'' (srv d) \<noteq> None
     \<and> CloseSession Posix served_code listed_session ''ab'' d = ((CliPrint [(''status'', GStr ''closed'')], ws), d')
     \<and> GetNodeHandler ''a'' (srv d') = None \<and> serving d'"
proof -
  obtain w where st: "start_daemon listed_session Posix demo_vault [] ''ab'' [] [] fresh_server
      = Return (Inr \<lparr>srv = fresh_server\<lparr>fs := w, sessionMode := True, hasClient := True\<rparr>, serving = True\<rparr>)" (is "_ = Return (Inr ?e)")
    using fresh_daemon by blast
  have o: "\<exists>s. OnCreate text_lib served_code ''N'' (demo_cfg ''a'') (srv ?e) = Return (None, s) \<and> GetNodeHandler ''a'' s \<noteq> None \<and> nc s = 1"
    by (simp add: OnCreate_def fresh_server_def GetNodeFactory_def factory_OnCreate_def served_code_def AddNodeHandler_def
        GetNodeHandler_def demo_node_def)
  then obtain s where s: "OnCreate text_lib served_code ''N'' (demo_cfg ''a'') (srv ?e) = Return (None, s)"
    "GetNodeHandler ''a'' s \<noteq> None" "nc s = 1" by blast
  let ?w = "demo_os\<lparr>files := [''/tmp/robomotion-sessionsab.sock'' \<mapsto> [], ''/tmp/robomotion-sessionsab.json'' \<mapsto> ''a'']\<rparr>"
  let ?f = "?e\<lparr>srv := s\<rparr>" and ?d = "?e\<lparr>srv := s\<lparr>fs := ?w\<rparr>\<rparr>"
  have "session_step listed_session ''ab'' text_lib Posix served_code Inr Called ?e ?f"
    by (rule session_step.call) (simp, rule rpc.create [OF s(1)])
  then have "session_run listed_session ''ab'' text_lib Posix served_code Inr ?e ([] @ [Called]) ?f"
    by (rule session_run.step [OF session_run.start])
  moreover have "session_step listed_session ''ab'' text_lib Posix served_code Inr FilesChanged ?f ?d"
    using session_step.changed [of listed_session "''ab''" text_lib Posix served_code Inr ?f ?w] by simp
  ultimately have run: "session_run listed_session ''ab'' text_lib Posix served_code Inr ?e [Called, FilesChanged] ?d"
    using session_run.step by fastforce
  obtain md w1 where md: "readSessionMetadata listed_session Posix ''ab'' (fs (srv ?d)) = (Inr md, w1)" "''a'' \<in> set (mdNodes md)"
    "fst (sessionDialAddr listed_session Posix ''ab'' w1) \<noteq> []"
    by (simp add: readSessionMetadata_def session_file_def sessionDir_def sessionDir_unix_def listed_session_def demo_session_def
        demo_os_def os_defs sessionDialAddr_def sessionDialAddr_unix_def)
  from session_ends_only_by_inactivity [OF st _ run] md
  obtain ws d' where "CloseSession Posix served_code listed_session ''ab'' ?d = ((CliPrint [(''status'', GStr ''closed'')], ws), d')"
    "serving d'" "GetNodeHandler ''a'' (srv d') = None"
    by (fastforce simp: fresh_server_def)
  moreover have "nc (srv ?d) = 1" "GetNodeHandler ''a'' (srv ?d) \<noteq> None" using s(2,3) by (simp_all add: GetNodeHandler_def)
  ultimately show ?thesis using st run by blast
qed

end
