(* ===== verification/Startup.thy ===== *)
theory Startup
  imports Cli_Session
begin

text \<open>
  The entry point of a package: \<^verbatim>\<open>runtime/registry.go\<close>, \<^verbatim>\<open>Start\<close> and \<^verbatim>\<open>ReadConfigFile\<close>.  What \<^verbatim>\<open>Start\<close> does
  with the arguments is a value of \<open>start_mode\<close>; \<open>Fatal\<close> is \<^verbatim>\<open>log.Fatal\<close>, which exits with status 1.
\<close>

datatype start_mode =
    Fatal string
  | CloseMode string
  | SpecMode
  | SkillMode
  | DetailMode string
  | ListMode
  | UsageMode
  | DaemonMode string int string string         \<comment> \<open>session id, timeout, vault id, item id\<close>
  | CommandMode "string list"
  | ServeMode bool                              \<comment> \<open>whether a debugger is attached\<close>

definition ReadConfigFile :: "os \<Rightarrow> bytes res \<times> os" where
  "ReadConfigFile w = (case os_read_file ''config.json'' w of
     (Inr d, w') \<Rightarrow> (Inr d, w')
   | (Inl e, w') \<Rightarrow> os_read_file ''../config.json'' w')"

definition daemon_mode :: "(string list \<Rightarrow> string) \<Rightarrow> (string \<Rightarrow> int res) \<Rightarrow> string list \<Rightarrow> start_mode" where
  "daemon_mode enc parse_duration rest = (case rest of
     [] \<Rightarrow> Fatal ''--session-daemon requires a session ID''
   | sid # args \<Rightarrow>
       (let daemonFlags = (case parseFlags enc args of Inl e \<Rightarrow> [] | Inr flags \<Rightarrow> flags) in
        DaemonMode sid (parseSessionTimeout parse_duration (flag_get daemonFlags ''session-timeout''))
          (flag_get daemonFlags ''vault-id'') (flag_get daemonFlags ''item-id'')))"

definition close_mode :: "string \<Rightarrow> string list \<Rightarrow> start_mode" where
  "close_mode arg rest = (case index_byte arg (CHR ''='') of
     Some idx \<Rightarrow> CloseMode (drop (Suc idx) arg)
   | None \<Rightarrow> (case rest of sid # _ \<Rightarrow> CloseMode sid | [] \<Rightarrow> Fatal ''--session-close requires a session ID''))"

text \<open>\<open>args\<close> are the arguments after the name of the program.\<close>

definition Start :: "(string list \<Rightarrow> string) \<Rightarrow> (string \<Rightarrow> int res) \<Rightarrow> string list \<Rightarrow> os \<Rightarrow> start_mode \<times> os" where
  "Start enc parse_duration args w = (case args of
     [] \<Rightarrow> (ServeMode False, w)
   | arg # rest \<Rightarrow>
       if has_prefix arg ''--session-close'' then (close_mode arg rest, w)
       else (case ReadConfigFile w of
         (Inl e, w') \<Rightarrow> (Fatal (''Read config error: '' @ err_text e), w')
       | (Inr config, w') \<Rightarrow>
           (if arg = ''-a'' then ServeMode True
            else if arg = ''-s'' then SpecMode
            else if arg = ''--skill-md'' then SkillMode
            else if arg = ''--list-commands'' then
              (case rest of a # _ \<Rightarrow> if \<not> has_prefix a ''-'' then DetailMode a else ListMode | [] \<Rightarrow> ListMode)
            else if arg = ''--help'' \<or> arg = ''-h'' then UsageMode
            else if arg = ''--session-daemon'' then daemon_mode enc parse_duration rest
            else CommandMode args, w')))"

section \<open>Properties\<close>

text \<open>The arguments of the daemon, as flags.\<close>

definition daemon_pairs :: "(int \<Rightarrow> string) \<Rightarrow> int \<Rightarrow> string \<Rightarrow> string \<Rightarrow> (string \<times> string) list" where
  "daemon_pairs show_duration timeout vaultID itemID =
     (if timeout \<noteq> defaultSessionTimeout then [(''session-timeout'', show_duration timeout)] else [])
     @ (if vaultID \<noteq> [] then [(''vault-id'', vaultID)] else [])
     @ (if itemID \<noteq> [] then [(''item-id'', itemID)] else [])"

lemma daemon_args_pairs:
  "daemon_args show_duration exe sid timeout vaultID itemID
     = exe # ''--session-daemon'' # sid # map render_flag (daemon_pairs show_duration timeout vaultID itemID)"
  by (simp add: daemon_args_def daemon_pairs_def render_flag_def)

lemma daemon_flags:
  "parseFlags enc (map render_flag (daemon_pairs show_duration timeout vaultID itemID))
     = Inr (daemon_pairs show_duration timeout vaultID itemID)"
proof -
  let ?kvs = "daemon_pairs show_duration timeout vaultID itemID"
  have "\<forall>kv \<in> set ?kvs. CHR ''='' \<notin> set (fst kv)" by (auto simp: daemon_pairs_def)
  then have "parse_args (map render_flag ?kvs) ([], []) = Inr (fold (\<lambda>(k, v). add_flag k v) ?kvs ([], []))"
    by (rule parse_args_render)
  moreover have "fold (\<lambda>(k, v). add_flag k v) ?kvs ([], []) = (?kvs, [])"
    by (simp add: daemon_pairs_def add_flag_def)
  ultimately show ?thesis by (simp add: parseFlags_def)
qed

text \<open>
  C34. The arguments \<^verbatim>\<open>StartDaemonProcess\<close> gives the forked process are read back by its \<^verbatim>\<open>Start\<close> as the daemon of
  the same session, with the same timeout and vault item, whatever characters the ids have.
\<close>

theorem daemon_args_roundtrip:
  assumes "parse_duration (show_duration timeout) = Inr timeout" "show_duration timeout \<noteq> []"
    and "ReadConfigFile w = (Inr config, w')"
  shows "Start enc parse_duration (tl (daemon_args show_duration exe sid timeout vaultID itemID)) w
    = (DaemonMode sid timeout vaultID itemID, w')"
proof -
  have "daemon_mode enc parse_duration (sid # map render_flag (daemon_pairs show_duration timeout vaultID itemID))
      = DaemonMode sid timeout vaultID itemID"
    using assms(1,2) by (simp add: daemon_mode_def daemon_flags)
      (simp add: daemon_pairs_def flag_get_def parseSessionTimeout_def)
  then show ?thesis using assms(3) by (simp add: daemon_args_pairs Start_def has_prefix_def)
qed

theorem daemon_args_roundtrip_witness:
  "\<exists>w'. Start concat (\<lambda>s. Inr 7) (tl (daemon_args (\<lambda>d. ''7ns'') ''exe'' ''0a1b2c3d'' 7 ''--v=1'' [])) (demo_os\<lparr>files := [''config.json'' \<mapsto> ''{}'']\<rparr>)
     = (DaemonMode ''0a1b2c3d'' 7 ''--v=1'' [], w')"
proof -
  obtain w' where "ReadConfigFile (demo_os\<lparr>files := [''config.json'' \<mapsto> ''{}'']\<rparr>) = (Inr ''{}'', w')"
    by (auto simp: ReadConfigFile_def os_read_file_def demo_os_def next_fault_def)
  from daemon_args_roundtrip [OF _ _ this, of "\<lambda>s. Inr 7" "\<lambda>d. ''7ns''" 7 concat "''exe''" "''0a1b2c3d''" "''--v=1''" "[]"]
  show ?thesis by auto
qed

end
