(* ===== verification/Utils.thy ===== *)
theory Utils
  imports Os
begin

text \<open>
  The small packages the others rest on: \<^verbatim>\<open>utils/file.go\<close>, \<^verbatim>\<open>utils/version.go\<close> and \<^verbatim>\<open>runtime/error.go\<close>.  The
  operating system is a value of \<open>goos\<close>, the environment a function, the empty text for a name that is
  not set.  Parsed versions and their order are those of a library and parameters.
\<close>

datatype goos = Linux | Darwin | Windows_os

text \<open>\<^verbatim>\<open>os.Stat\<close> with the one bit of its answer that is used: whether the path is a directory.\<close>

definition os_stat_dir :: "string \<Rightarrow> os \<Rightarrow> bool res \<times> os" where
  "os_stat_dir p w = (case next_fault w of
     Some e \<Rightarrow> (Inl e, tick w)
   | None \<Rightarrow> (if p \<in> dirs w then Inr True else if files w p = None then Inl enoent else Inr False, tick w))"

definition DirExists :: "string \<Rightarrow> os \<Rightarrow> bool \<times> os" where
  "DirExists dir w = (case os_stat_dir dir w of (r, w') \<Rightarrow> (\<not> is_err r, w'))"

text \<open>An error other than a missing file leaves no answer to ask: the call on the nil interface panics.\<close>

definition FileExists :: "string \<Rightarrow> string \<Rightarrow> os \<Rightarrow> bool outcome \<times> os" where
  "FileExists dir fileName w = (case os_stat_dir (path_join [dir, fileName]) w of
     (Inl e, w') \<Rightarrow> (if errors_as_errno e = Some 2 then Return False
                    else Panic ''invalid memory address or nil pointer dereference'', w')
   | (Inr is_dir, w') \<Rightarrow> (Return (\<not> is_dir), w'))"

definition UserHomeDir :: "goos \<Rightarrow> (string \<Rightarrow> string) \<Rightarrow> string" where
  "UserHomeDir os env = (if os = Windows_os then
     (let home = env ''HOMEDRIVE'' @ env ''HOMEPATH'' in if home = [] then env ''USERPROFILE'' else home)
   else env ''HOME'')"

definition TempDir :: "goos \<Rightarrow> (string \<Rightarrow> string) \<Rightarrow> string" where
  "TempDir os env = (if os = Windows_os then UserHomeDir os env @ [CHR 0x5C] @ ''AppData'' @ [CHR 0x5C] @ ''Local'' @ [CHR 0x5C] @ ''Temp''
       @ [CHR 0x5C] @ ''Robomotion''
   else ''/tmp/robomotion'')"

definition ConfigDir :: "goos \<Rightarrow> (string \<Rightarrow> string) \<Rightarrow> string" where
  "ConfigDir os env = (if os = Windows_os then UserHomeDir os env @ [CHR 0x5C] @ ''AppData'' @ [CHR 0x5C] @ ''Local'' @ [CHR 0x5C] @ ''Robomotion''
   else UserHomeDir os env @ ''/.config/robomotion'')"

definition GetTempPath :: "goos \<Rightarrow> (string \<Rightarrow> string) \<Rightarrow> string" where
  "GetTempPath os env = (case os of
     Windows_os \<Rightarrow>
       (let home = env ''HOMEDRIVE'' @ env ''HOMEPATH''; home = (if home = [] then env ''USERPROFILE'' else home) in
        home @ [CHR 0x5C] @ ''AppData'' @ [CHR 0x5C] @ ''Local'' @ [CHR 0x5C] @ ''Robomotion'' @ [CHR 0x5C] @ ''temp'')
   | Linux \<Rightarrow> UserHomeDir os env @ ''/.config/robomotion/temp''
   | Darwin \<Rightarrow> UserHomeDir os env @ ''/.config/robomotion/temp'')"

definition IsVersionLessThan :: "(string \<Rightarrow> 'v res) \<Rightarrow> ('v \<Rightarrow> 'v \<Rightarrow> bool) \<Rightarrow> string \<Rightarrow> string \<Rightarrow> bool" where
  "IsVersionLessThan NewVersion LessThan ver other =
     (if ver = [] \<or> ver = ''0.0'' \<or> ver = ''0.0.0'' then True
      else (case (NewVersion ver, NewVersion other) of
          (Inr v, Inr v2) \<Rightarrow> LessThan v v2
        | _ \<Rightarrow> True))"

record runtime_error =
  reCode :: string
  reMessage :: string

definition NewError :: "string \<Rightarrow> string \<Rightarrow> runtime_error" where
  "NewError code message = \<lparr>reCode = code, reMessage = message\<rparr>"

definition Error_text :: "(runtime_error \<Rightarrow> bytes res) \<Rightarrow> runtime_error \<Rightarrow> string" where
  "Error_text marshal_error e = (case marshal_error e of Inr d \<Rightarrow> d | Inl err \<Rightarrow> [])"

text \<open>The temporary files of every system are under its configuration directory.\<close>

lemma temp_path_in_config_dir: "\<exists>rest. GetTempPath os env = ConfigDir os env @ rest"
  by (cases os) (simp_all add: GetTempPath_def ConfigDir_def UserHomeDir_def Let_def)

lemma FileExists_panics_iff:
  "(\<exists>m. fst (FileExists dir f w) = Panic m) \<longleftrightarrow> (\<exists>e. next_fault w = Some e \<and> errors_as_errno e \<noteq> Some 2)"
  by (auto simp: FileExists_def os_stat_dir_def enoent_def split: option.splits sum.splits if_splits prod.splits)

end
