(* ===== verification/Debug.thy ===== *)
theory Debug
  imports Utils
begin

text \<open>
  Attaching a package that runs under a debugger to a robot: the package \<^verbatim>\<open>debug\<close>.  \<^verbatim>\<open>Attach\<close> waits for the
  plugin listener, looks in the output of \<^verbatim>\<open>netstat\<close> for robots that listen on this machine, asks the user
  when there are several, and registers the package with the chosen one.  The output of \<^verbatim>\<open>netstat\<close>, the list
  of processes, the calls to a robot and what the user types are fields of \<open>debug_env\<close>, a parameter.
\<close>

section \<open>Lists and the sockets of a system\<close>

definition list_filter :: "('a \<Rightarrow> bool) \<Rightarrow> 'a list \<Rightarrow> 'a list" where
  "list_filter predicate arr = fold (\<lambda>e filtered. if predicate e then filtered @ [e] else filtered) arr []"

definition list_first :: "'a list \<Rightarrow> 'a option" where
  "list_first arr = (if 0 < length arr then Some (arr ! 0) else None)"

datatype socket_state = SS_UNKNOWN | SS_CLOSED | SS_LISTENING | SS_SYN_SENT | SS_SYN_RECV | SS_ESTABLISHED
  | SS_FIN_WAIT1 | SS_FIN_WAIT2 | SS_CLOSE_WAIT | SS_CLOSING | SS_LAST_ACK | SS_TIME_WAIT | SS_DELETE_TCB

fun state_text :: "goos \<Rightarrow> socket_state \<Rightarrow> string" where
  "state_text os SS_UNKNOWN = ''UNKNOWN''"
| "state_text os SS_CLOSED = (if os = Windows_os then [] else ''CLOSED'')"
| "state_text os SS_LISTENING = (if os = Windows_os then ''LISTENING'' else ''LISTEN'')"
| "state_text os SS_SYN_SENT = ''SYN_SENT''"
| "state_text os SS_SYN_RECV = ''SYN_RECV''"
| "state_text os SS_ESTABLISHED = ''ESTABLISHED''"
| "state_text os SS_FIN_WAIT1 = ''FIN_WAIT1''"
| "state_text os SS_FIN_WAIT2 = ''FIN_WAIT2''"
| "state_text os SS_CLOSE_WAIT = ''CLOSE_WAIT''"
| "state_text os SS_CLOSING = ''CLOSING''"
| "state_text os SS_LAST_ACK = ''LAST_ACK''"
| "state_text os SS_TIME_WAIT = ''TIME_WAIT''"
| "state_text os SS_DELETE_TCB = ''DELETE_TCB''"

record process =
  pPid :: int
  pExecutable :: string

record sock_tab =
  tProcess :: process
  LocalAddress :: string
  RobotName :: string

section \<open>The output of netstat\<close>

text \<open>\<^verbatim>\<open>regexp.MustCompile("\s+").Split(row, -1)\<close>: blanks in front make an empty first token.\<close>

definition re_space :: "char \<Rightarrow> bool" where
  "re_space c \<longleftrightarrow> c = CHR '' '' \<or> c = CHR 0x09 \<or> c = CHR 0x0A \<or> c = CHR 0x0C \<or> c = CHR 0x0D"

function split_spaces :: "string \<Rightarrow> string list" where
  "split_spaces s =
     (let t = takeWhile (\<lambda>c. \<not> re_space c) s; r = dropWhile (\<lambda>c. \<not> re_space c) s in
      if r = [] then [t] else t # split_spaces (dropWhile re_space r))"
  by pat_completeness auto
termination
proof (relation "measure length", goal_cases)
  case (2 s t r)
  have "re_space (hd r)" using 2(2,3) hd_dropWhile by blast
  then have "length (dropWhile re_space r) < length r"
    using 2(3) by (cases r) (auto simp: less_Suc_eq_le length_dropWhile_le)
  then show ?case using 2(2) length_dropWhile_le [of "\<lambda>c. \<not> re_space c" s] by simp
qed simp

declare split_spaces.simps [simp del]

text \<open>\<^verbatim>\<open>regexp.MustCompile("\r\n").Split(s, -1)\<close>.\<close>

fun split_crlf :: "string \<Rightarrow> string list" where
  "split_crlf [] = [[]]"
| "split_crlf (c # cs) =
     (if c = CHR 0x0D \<and> cs \<noteq> [] \<and> hd cs = CHR 0x0A then [] # split_crlf (tl cs)
      else (case split_crlf cs of [] \<Rightarrow> [[c]] | l # ls \<Rightarrow> (c # l) # ls))"

definition rows :: "goos \<Rightarrow> string \<Rightarrow> string list" where
  "rows os out = (if os = Windows_os then split_crlf out else split_on (CHR 0x0A) out)"

text \<open>The columns of a row by system: how many are needed, and where they are.\<close>

definition min_tokens :: "goos \<Rightarrow> nat" where
  "min_tokens os = (case os of Linux \<Rightarrow> 7 | Darwin \<Rightarrow> 10 | Windows_os \<Rightarrow> 5)"

definition pid_column :: "goos \<Rightarrow> string list \<Rightarrow> string" where
  "pid_column os tokens = (case os of
     Linux \<Rightarrow> split_on (CHR ''/'') (tokens ! 6) ! 0 | Darwin \<Rightarrow> tokens ! 8 | Windows_os \<Rightarrow> tokens ! 5)"

definition is_tcp :: "goos \<Rightarrow> string list \<Rightarrow> bool" where
  "is_tcp os tokens \<longleftrightarrow> (case os of
     Linux \<Rightarrow> tokens ! 0 = ''tcp'' | Darwin \<Rightarrow> tokens ! 0 = ''tcp4'' | Windows_os \<Rightarrow> tokens ! 1 = ''TCP'')"

definition state_column :: "goos \<Rightarrow> string list \<Rightarrow> string" where
  "state_column os tokens = (if os = Windows_os then tokens ! 4 else tokens ! 5)"

definition address_column :: "goos \<Rightarrow> string list \<Rightarrow> string" where
  "address_column os tokens = (if os = Windows_os then tokens ! 2 else tokens ! 3)"

definition process_matches :: "goos \<Rightarrow> string \<Rightarrow> process \<Rightarrow> bool" where
  "process_matches os processName p \<longleftrightarrow>
     (let a = to_lower (pExecutable p); b = to_lower processName in
      contains_str a b \<or> (os \<noteq> Windows_os \<and> contains_str b a))"

text \<open>One turn of the loop over the rows.\<close>

definition socket_row :: "goos \<Rightarrow> process list \<Rightarrow> socket_state \<Rightarrow> string \<Rightarrow> sock_tab list" where
  "socket_row os processList state row =
     (if row = [] then []
      else let tokens = split_spaces row in
        if length tokens \<le> min_tokens os then []
        else (case atoi (pid_column os tokens) of
            Inl e \<Rightarrow> []
          | Inr pid \<Rightarrow>
              (case list_first (list_filter (\<lambda>p. pPid p = pid) processList) of
                 Some proc \<Rightarrow>
                   (if is_tcp os tokens \<and> state_column os tokens = state_text os state
                    then [\<lparr>tProcess = proc, LocalAddress = address_column os tokens, RobotName = []\<rparr>] else [])
               | None \<Rightarrow> [])))"

definition GetNetStatPorts ::
    "goos \<Rightarrow> string res \<Rightarrow> process list res \<Rightarrow> socket_state \<Rightarrow> string \<Rightarrow> sock_tab list" where
  "GetNetStatPorts os netstat procs state processName = (case netstat of
     Inl e \<Rightarrow> []
   | Inr out \<Rightarrow> (case procs of
       Inl e \<Rightarrow> []
     | Inr ps \<Rightarrow>
         (let processList = list_filter (process_matches os processName) ps in
          concat (map (socket_row os processList state) (rows os out)))))"

section \<open>Attach and detach\<close>

record attach_config =
  acProtocol :: string
  acAddr :: string
  acPID :: int
  acNamespace :: string

text \<open>
  \<open>deListener\<close> is the address of the plugin listener after so many milliseconds, if there is one;
  \<open>deScans\<close> are the results of \<^verbatim>\<open>fmt.Scanf\<close> in turn, \<open>None\<close> when it reads no number.  After them the standard
  input is at its end.  \<open>deAttach\<close> and \<open>deDetach\<close> connect to the address and make the call.
\<close>

record debug_env =
  deOs :: goos
  deNetstat :: "string res"
  deProcesses :: "process list res"
  deRobotName :: "string \<Rightarrow> string res"
  deListener :: "nat \<Rightarrow> string option"
  deScans :: "int option list"
  dePid :: int
  deAttach :: "string \<Rightarrow> attach_config \<Rightarrow> error option"
  deDetach :: "string \<Rightarrow> string \<Rightarrow> error option"

fun filterTabs :: "(string \<Rightarrow> string res) \<Rightarrow> sock_tab list \<Rightarrow> sock_tab list" where
  "filterTabs getRobotName [] = []"
| "filterTabs getRobotName (tab # tabs) = (case getRobotName (LocalAddress tab) of
     Inl e \<Rightarrow> filterTabs getRobotName tabs
   | Inr name \<Rightarrow> tab\<lparr>RobotName := name\<rparr> # filterTabs getRobotName tabs)"

fun robot_menu :: "nat \<Rightarrow> sock_tab list \<Rightarrow> string" where
  "robot_menu i [] = []"
| "robot_menu i (tab # tabs) = show_nat (i + 1) @ '') '' @ RobotName tab @ [CHR 0x0A] @ robot_menu (i + 1) tabs"

text \<open>
  The loop of \<^verbatim>\<open>selectTab\<close>.  \<^verbatim>\<open>Scanf\<close> leaves the number as it is when it fails, and its error is not looked
  at: at the end of the input the loop turns for ever, which is \<open>None\<close>.
\<close>

fun select_loop :: "sock_tab list \<Rightarrow> int \<Rightarrow> int option list \<Rightarrow> string option" where
  "select_loop tabs selected [] = None"
| "select_loop tabs selected (scan # scans) =
     (let selected' = (case scan of None \<Rightarrow> selected | Some n \<Rightarrow> n) in
      if 0 < selected' \<and> selected' \<le> int (length tabs) then Some (LocalAddress (tabs ! nat (selected' - 1)))
      else select_loop tabs selected' scans)"

definition selectTab :: "sock_tab list \<Rightarrow> int option list \<Rightarrow> string option" where
  "selectTab tabs scans = select_loop tabs 0 scans"

definition getRPCAddr :: "debug_env \<Rightarrow> string option" where
  "getRPCAddr D =
     (let tabs = filterTabs (deRobotName D)
        (GetNetStatPorts (deOs D) (deNetstat D) (deProcesses D) SS_LISTENING ''robomotion-runner'') in
      case tabs of [] \<Rightarrow> Some [] | [tab] \<Rightarrow> Some (LocalAddress tab) | _ \<Rightarrow> selectTab tabs (deScans D))"

definition attach_timeout :: nat where
  "attach_timeout = 30000"

text \<open>The wait for the listener, in milliseconds; \<open>None\<close> is the fatal timeout.\<close>

function await_listener :: "(nat \<Rightarrow> string option) \<Rightarrow> nat \<Rightarrow> string option" where
  "await_listener listener t =
     (if attach_timeout \<le> t then None
      else (case listener t of
          None \<Rightarrow> await_listener listener (t + 1000)
        | Some addr \<Rightarrow> if addr = [] then await_listener listener (t + 1000) else Some addr))"
  by pat_completeness auto
termination by (relation "measure (\<lambda>(l, t). attach_timeout - t)") (auto simp: attach_timeout_def)

declare await_listener.simps [simp del]

text \<open>
  \<^verbatim>\<open>log.Fatalln\<close> ends the process with a message; the state is \<^verbatim>\<open>attachedTo\<close>.  \<open>None\<close>: the user never
  chooses a robot.
\<close>

definition Attach :: "debug_env \<Rightarrow> string \<Rightarrow> string \<Rightarrow> ((error + unit) \<times> string) option" where
  "Attach D ns attachedTo = (case await_listener (deListener D) 0 of
     None \<Rightarrow> Some (Inl (Errorf ''timeout: plugin listener is nil''), attachedTo)
   | Some gAddr \<Rightarrow>
       (let cfg = \<lparr>acProtocol = ''grpc'', acAddr = gAddr, acPID = dePid D, acNamespace = ns\<rparr> in
        (case getRPCAddr D of
          None \<Rightarrow> None
        | Some addr \<Rightarrow>
            (if addr = [] then Some (Inl (Errorf ''empty gRPC address''), addr)
             else (case deAttach D addr cfg of
                 Some e \<Rightarrow> Some (Inl e, addr)
               | None \<Rightarrow> Some (Inr (), addr))))))"

definition Detach :: "debug_env \<Rightarrow> string \<Rightarrow> string \<Rightarrow> error + unit" where
  "Detach D ns attachedTo =
     (if attachedTo = [] then Inl (Errorf ''empty gRPC address'')
      else (case deDetach D attachedTo ns of Some e \<Rightarrow> Inl e | None \<Rightarrow> Inr ()))"

section \<open>Properties\<close>

lemma list_filter_eq: "list_filter P xs = filter P xs"
proof -
  have "fold (\<lambda>e f. if P e then f @ [e] else f) xs acc = acc @ filter P xs" for acc
    by (induction xs arbitrary: acc) auto
  then show ?thesis by (simp add: list_filter_def)
qed

lemma list_first_eq: "list_first xs = (case xs of [] \<Rightarrow> None | x # _ \<Rightarrow> Some x)"
  by (cases xs) (simp_all add: list_first_def)

text \<open>
  A socket as the system prints it: the columns of its row, with blanks between them.  The sizes of the buffers are
  printed on macOS only.  A socket without a state, as of UDP, has no such column; one
  whose process the caller may not see has the owner \<open>-\<close> on Linux and 0 elsewhere.
\<close>

record socket =
  sProto :: string
  sQueues :: "nat \<times> nat"
  sLocal :: string
  sForeign :: string
  sState :: "socket_state option"
  sBuffers :: "nat \<times> nat"
  sOwner :: "(nat \<times> string) option"
  sExtra :: "string list"

definition owner_text :: "goos \<Rightarrow> socket \<Rightarrow> string" where
  "owner_text os s = (case sOwner s of
     None \<Rightarrow> (if os = Linux then ''-'' else ''0'')
   | Some (pid, program) \<Rightarrow> show_nat pid @ (if os = Linux then ''/'' @ program else []))"

definition state_columns :: "goos \<Rightarrow> socket \<Rightarrow> string list" where
  "state_columns os s = (case sState s of None \<Rightarrow> [] | Some st \<Rightarrow> [state_text os st])"

definition columns :: "goos \<Rightarrow> socket \<Rightarrow> string list" where
  "columns os s = (case os of
     Linux \<Rightarrow> [sProto s, show_nat (fst (sQueues s)), show_nat (snd (sQueues s)), sLocal s, sForeign s] @ state_columns Linux s @ [owner_text Linux s] @ sExtra s
   | Darwin \<Rightarrow> [sProto s, show_nat (fst (sQueues s)), show_nat (snd (sQueues s)), sLocal s, sForeign s] @ state_columns Darwin s
       @ [show_nat (fst (sBuffers s)), show_nat (snd (sBuffers s)), owner_text Darwin s] @ sExtra s
   | Windows_os \<Rightarrow> [[], sProto s, sLocal s, sForeign s] @ state_columns Windows_os s @ [owner_text Windows_os s])"

text \<open>The blanks after a column, by the number of the columns that still follow: at least one.\<close>

definition gap :: "nat \<Rightarrow> string" where
  "gap n = replicate (Suc n) (CHR '' '')"

fun render_columns :: "(nat \<Rightarrow> nat) \<Rightarrow> string list \<Rightarrow> string" where
  "render_columns width [] = []"
| "render_columns width [f] = f"
| "render_columns width (f # g # fs) = f @ gap (width (length fs)) @ render_columns width (g # fs)"

definition end_of_line :: "goos \<Rightarrow> string" where
  "end_of_line os = (if os = Windows_os then [CHR 0x0D, CHR 0x0A] else [CHR 0x0A])"

definition solid :: "string \<Rightarrow> bool" where
  "solid f \<longleftrightarrow> f \<noteq> [] \<and> (\<forall>c \<in> set f. \<not> re_space c)"

text \<open>The systems name the protocol and fill the columns after the owner: the timer on Linux, two numbers on macOS.\<close>

definition tcp_text :: "goos \<Rightarrow> string" where
  "tcp_text os = (case os of Linux \<Rightarrow> ''tcp'' | Darwin \<Rightarrow> ''tcp4'' | Windows_os \<Rightarrow> ''TCP'')"

definition printable :: "goos \<Rightarrow> socket \<Rightarrow> bool" where
  "printable os s \<longleftrightarrow> solid (sProto s) \<and> solid (sLocal s) \<and> solid (sForeign s)
     \<and> (case sState s of None \<Rightarrow> sProto s \<noteq> tcp_text os | Some st \<Rightarrow> state_text os st \<noteq> [])
     \<and> (case sOwner s of None \<Rightarrow> True | Some (pid, program) \<Rightarrow> pid < 2 ^ 63 \<and> (\<forall>c \<in> set program. \<not> re_space c))
     \<and> (\<forall>e \<in> set (sExtra s). solid e) \<and> (case os of Linux \<Rightarrow> 1 | Darwin \<Rightarrow> 2 | Windows_os \<Rightarrow> 0) \<le> length (sExtra s)"

lemma split_spaces_last: "\<forall>c \<in> set f. \<not> re_space c \<Longrightarrow> split_spaces f = [f]"
  by (subst split_spaces.simps) (simp add: takeWhile_eq_all_conv [THEN iffD2] dropWhile_eq_Nil_conv [THEN iffD2])

lemma split_spaces_step:
  assumes "\<forall>c \<in> set f. \<not> re_space c" "p \<noteq> []" "\<forall>c \<in> set p. re_space c" "g \<noteq> []" "\<not> re_space (hd g)"
  shows "split_spaces (f @ p @ g) = f # split_spaces g"
proof -
  have t: "takeWhile (\<lambda>c. \<not> re_space c) (f @ p @ g) = f" "dropWhile (\<lambda>c. \<not> re_space c) (f @ p @ g) = p @ g"
    using assms by (cases p; simp add: takeWhile_append2 dropWhile_append2)+
  have "dropWhile re_space (p @ g) = g" using assms by (cases g) (simp_all add: dropWhile_append2)
  then show ?thesis using assms(2) by (subst split_spaces.simps) (simp add: t)
qed

lemma render_columns_hd: "g \<noteq> [] \<Longrightarrow> hd (render_columns width (g # fs)) = hd g \<and> render_columns width (g # fs) \<noteq> []"
  by (cases fs) auto

lemma gap_space: "gap n \<noteq> []" "\<forall>c \<in> set (gap n). re_space c"
  by (simp_all add: gap_def re_space_def)

lemma split_render_columns:
  "\<forall>c \<in> set f. \<not> re_space c \<Longrightarrow> \<forall>g \<in> set fs. solid g \<Longrightarrow> split_spaces (render_columns width (f # fs)) = f # fs"
proof (induction fs arbitrary: f)
  case Nil
  then show ?case by (simp add: split_spaces_last)
next
  case (Cons g fs)
  have g: "g \<noteq> []" "\<not> re_space (hd g)" "\<forall>c \<in> set g. \<not> re_space c" using Cons.prems(2) by (auto simp: solid_def)
  have "split_spaces (f @ gap (width (length fs)) @ render_columns width (g # fs)) = f # split_spaces (render_columns width (g # fs))"
    using Cons.prems(1) gap_space render_columns_hd [OF g(1), of width fs] g(2) by (intro split_spaces_step) auto
  then show ?case using Cons.IH [OF g(3)] Cons.prems(2) by simp
qed

lemma digit_solid: "is_digit c \<Longrightarrow> \<not> re_space c \<and> c \<noteq> CHR ''/''"
  by (auto simp: is_digit_def re_space_def)

lemma show_nat_solid: "solid (show_nat n)" "CHR ''/'' \<notin> set (show_nat n)"
  using show_nat_digits [of n] digit_solid by (auto simp: solid_def list_all_iff)

lemma state_text_solid: "state_text os st \<noteq> [] \<Longrightarrow> solid (state_text os st)"
  by (cases st) (simp_all add: solid_def re_space_def)

lemma state_text_inject: "state_text os a = state_text os b \<longleftrightarrow> a = b"
  by (cases a; cases b) simp_all

lemma solid_append: "solid a \<Longrightarrow> \<forall>c \<in> set b. \<not> re_space c \<Longrightarrow> solid (a @ b)"
  by (auto simp: solid_def)

lemma owner_solid: "printable os s \<Longrightarrow> solid (owner_text os s)"
  using show_nat_solid(1)
  by (auto simp: owner_text_def printable_def split: option.splits intro!: solid_append) (auto simp: solid_def re_space_def)

lemma columns_solid:
  assumes "printable os s"
  shows "\<exists>f fs. columns os s = f # fs \<and> (\<forall>c \<in> set f. \<not> re_space c) \<and> (\<forall>g \<in> set fs. solid g)"
proof -
  note p = assms [unfolded printable_def]
  have "\<forall>g \<in> set (state_columns os s). solid g" using p by (auto simp: state_columns_def state_text_solid split: option.splits)
  moreover have "\<forall>c \<in> set (sProto s). \<not> re_space c" using p by (simp add: solid_def)
  ultimately show ?thesis using p owner_solid [OF assms] show_nat_solid(1) by (cases os) (simp_all add: columns_def ball_Un)
qed

lemma split_columns:
  "printable os s \<Longrightarrow> split_spaces (render_columns width (columns os s)) = columns os s"
  using columns_solid [of os s] split_render_columns by metis

lemma first_process:
  "list_first (list_filter Q (list_filter P procs)) = find (\<lambda>p. P p \<and> Q p) procs"
  by (induction procs) (simp_all add: list_filter_eq list_first_eq)

text \<open>What the search looks for in a row: an address on which a process listens.\<close>

definition listens :: "goos \<Rightarrow> string \<Rightarrow> int \<Rightarrow> string \<Rightarrow> bool" where
  "listens os row pid addr \<longleftrightarrow> (let t = split_spaces row in
     min_tokens os < length t \<and> (if os = Windows_os then t ! 1 else t ! 0) = tcp_text os
     \<and> (if os = Windows_os then t ! 4 else t ! 5) = state_text os SS_LISTENING
     \<and> atoi (pid_column os t) = Inr pid \<and> addr = (if os = Windows_os then t ! 2 else t ! 3))"

definition owner_pid :: "goos \<Rightarrow> socket \<Rightarrow> int option" where
  "owner_pid os s = (case sOwner s of None \<Rightarrow> if os = Linux then None else Some 0 | Some (pid, program) \<Rightarrow> Some (int pid))"

lemma owner_read:
  assumes "printable os s"
  shows "atoi (if os = Linux then split_on (CHR ''/'') (owner_text os s) ! 0 else owner_text os s)
      = (case owner_pid os s of None \<Rightarrow> atoi ''-'' | Some pid \<Rightarrow> Inr pid)"
proof (cases "sOwner s")
  case None
  moreover have "atoi ''0'' = Inr 0" by (simp add: atoi_def parse_int_def parse_digits_def is_digit_def digit_val_def)
  ultimately show ?thesis by (simp add: owner_text_def owner_pid_def)
next
  case (Some po)
  obtain pid program where po: "po = (pid, program)" by (cases po)
  have "pid < 2 ^ 63" using assms Some po by (simp add: printable_def)
  then have "atoi (show_nat pid) = Inr (int pid)" by (rule atoi_show_nat)
  moreover have "split_on (CHR ''/'') (show_nat pid @ ''/'' @ program) ! 0 = show_nat pid"
    using show_nat_solid(2) [of pid] by simp
  ultimately show ?thesis by (simp add: owner_text_def owner_pid_def Some po)
qed

lemma listens_columns:
  assumes "printable os s"
  shows "listens os (render_columns width (columns os s)) pid addr
    \<longleftrightarrow> sProto s = tcp_text os \<and> sState s = Some SS_LISTENING \<and> owner_pid os s = Some pid \<and> addr = sLocal s"
proof -
  have l: "listens os (render_columns width (columns os s)) pid addr \<longleftrightarrow> (let t = columns os s in
     min_tokens os < length t \<and> (if os = Windows_os then t ! 1 else t ! 0) = tcp_text os
     \<and> (if os = Windows_os then t ! 4 else t ! 5) = state_text os SS_LISTENING
     \<and> atoi (pid_column os t) = Inr pid \<and> addr = (if os = Windows_os then t ! 2 else t ! 3))"
    by (simp only: listens_def split_columns [OF assms])
  have dash: "atoi ''-'' \<noteq> Inr pid" by (simp add: atoi_def parse_int_def parse_digits_def)
  note o = owner_read [OF assms] and p = assms [unfolded printable_def]
  show ?thesis
  proof (cases "sState s")
    case None
    then show ?thesis unfolding l using p by (cases os; simp add: columns_def Let_def)
  next
    case (Some st)
    have "state_text os st = state_text os SS_LISTENING \<longleftrightarrow> st = SS_LISTENING" by (rule state_text_inject)
    then show ?thesis unfolding l using Some o p dash
      by (cases os; cases "owner_pid os s")
        (auto simp: Let_def columns_def state_columns_def min_tokens_def pid_column_def)
  qed
qed

lemma socket_row_listens:
  "LocalAddress ` set (socket_row os (list_filter (process_matches os name) procs) SS_LISTENING row)
     = {addr. \<exists>p \<in> set procs. process_matches os name p \<and> listens os row (pPid p) addr}"
proof -
  let ?t = "split_spaces row"
  have tcp: "is_tcp os ?t \<longleftrightarrow> (if os = Windows_os then ?t ! 1 else ?t ! 0) = tcp_text os"
    by (cases os) (simp_all add: is_tcp_def tcp_text_def)
  show ?thesis
  proof (cases "min_tokens os < length ?t \<and> is_tcp os ?t \<and> state_column os ?t = state_text os SS_LISTENING")
    case True
    then have row: "row \<noteq> []" by (cases os) (auto simp: split_spaces.simps [of "[]"] min_tokens_def)
    have l: "listens os row pid addr \<longleftrightarrow> atoi (pid_column os ?t) = Inr pid \<and> addr = address_column os ?t" for pid addr
      using True tcp by (simp add: listens_def Let_def state_column_def address_column_def)
    show ?thesis
    proof (cases "atoi (pid_column os ?t)")
      case (Inl e)
      then show ?thesis by (simp add: socket_row_def Let_def l)
    next
      case (Inr pid)
      then have "socket_row os (list_filter (process_matches os name) procs) SS_LISTENING row
          = (case find (\<lambda>p. process_matches os name p \<and> pPid p = pid) procs of None \<Rightarrow> []
             | Some p \<Rightarrow> [\<lparr>tProcess = p, LocalAddress = address_column os ?t, RobotName = []\<rparr>])"
        using True row by (simp add: socket_row_def Let_def first_process split: option.split)
      then show ?thesis
        using Inr by (cases "find (\<lambda>p. process_matches os name p \<and> pPid p = pid) procs")
          (auto simp: l find_None_iff find_Some_iff)
    qed
  next
    case False
    then show ?thesis using tcp
      by (auto simp: socket_row_def listens_def Let_def state_column_def split: sum.split option.split)
  qed
qed

lemma split_crlf_line: "CHR 0x0D \<notin> set l \<Longrightarrow> split_crlf (l @ [CHR 0x0D, CHR 0x0A] @ rest) = l # split_crlf rest"
  by (induction l) auto

lemma rows_lines:
  "\<forall>l \<in> set ls. CHR 0x0A \<notin> set l \<and> CHR 0x0D \<notin> set l \<Longrightarrow> rows os (concat (map (\<lambda>l. l @ end_of_line os) ls)) = ls @ [[]]"
proof (induction ls)
  case (Cons l ls)
  then show ?case
    using split_crlf_line [of l "concat (map (\<lambda>l. l @ end_of_line os) ls)"]
    by (cases "os = Windows_os") (simp_all add: rows_def end_of_line_def)
qed (simp add: rows_def)

lemma filterTabs_addresses:
  "map LocalAddress (filterTabs name tabs) = filter (\<lambda>a. \<not> is_err (name a)) (map LocalAddress tabs)"
  by (induction name tabs rule: filterTabs.induct) (simp_all split: sum.split)

lemma select_loop_None:
  "\<not> (0 < selected \<and> selected \<le> int (length tabs)) \<Longrightarrow>
    select_loop tabs selected scans = None
      \<longleftrightarrow> (\<forall>n. Some n \<in> set scans \<longrightarrow> \<not> (0 < n \<and> n \<le> int (length tabs)))"
proof (induction tabs selected scans rule: select_loop.induct)
  case (2 tabs selected scan scans)
  then show ?case by (cases scan) (auto simp: Let_def)
qed simp

lemma select_loop_Some: "select_loop tabs selected scans = Some a \<Longrightarrow> a \<in> LocalAddress ` set tabs"
proof (induction tabs selected scans rule: select_loop.induct)
  case (2 tabs selected scan scans)
  show ?case
  proof (cases "select_loop tabs (case scan of None \<Rightarrow> selected | Some n \<Rightarrow> n) scans = Some a")
    case False
    define m where "m = (case scan of None \<Rightarrow> selected | Some n \<Rightarrow> n)"
    have "0 < m \<and> m \<le> int (length tabs)" "a = LocalAddress (tabs ! nat (m - 1))"
      using False "2.prems" by (auto simp: m_def Let_def split: if_splits)
    moreover from this have "nat (m - 1) < length tabs" by linarith
    ultimately show ?thesis by simp
  qed (use 2 in \<open>auto simp: Let_def split: if_splits\<close>)
qed simp

lemma await_listener_Some:
  "await_listener listener t = Some g \<Longrightarrow> g \<noteq> [] \<and> (\<exists>u. t \<le> u \<and> u < attach_timeout \<and> listener u = Some g)"
proof (induction listener t rule: await_listener.induct)
  case (1 listener t)
  show ?case
  proof (cases "await_listener listener (t + 1000) = Some g \<and> \<not> attach_timeout \<le> t \<and> (listener t = None \<or> listener t = Some [])")
    case True
    then have "g \<noteq> [] \<and> (\<exists>u. t + 1000 \<le> u \<and> u < attach_timeout \<and> listener u = Some g)" using "1.IH" by auto
    then show ?thesis by (meson add_leD1)
  next
    case False
    then show ?thesis using "1.prems" by (subst (asm) (2) await_listener.simps) (auto split: if_splits option.splits)
  qed
qed

text \<open>The addresses of the robots that listen on this machine and answer.\<close>

definition robots :: "debug_env \<Rightarrow> string list" where
  "robots D = filter (\<lambda>a. \<not> is_err (deRobotName D a))
     (map LocalAddress (GetNetStatPorts (deOs D) (deNetstat D) (deProcesses D) SS_LISTENING ''robomotion-runner''))"

lemma GetNetStatPorts_listens:
  "LocalAddress ` set (GetNetStatPorts os out procs SS_LISTENING name)
    = {addr. \<exists>text ps row p. out = Inr text \<and> procs = Inr ps \<and> row \<in> set (rows os text) \<and> p \<in> set ps
        \<and> process_matches os name p \<and> listens os row (pPid p) addr}"
proof (cases out; cases procs)
  fix s ps
  assume o: "out = Inr s" "procs = Inr ps"
  have "LocalAddress ` set (GetNetStatPorts os out procs SS_LISTENING name)
    = (\<Union>row \<in> set (rows os s). LocalAddress ` set (socket_row os (list_filter (process_matches os name) ps) SS_LISTENING row))"
    by (simp add: GetNetStatPorts_def o Let_def image_UN)
  then show ?thesis by (simp only: socket_row_listens) (auto simp: o)
qed (simp_all add: GetNetStatPorts_def)

lemma robots_listen:
  "addr \<in> set (robots D) \<longleftrightarrow> (\<exists>text ps row p name. deNetstat D = Inr text \<and> deProcesses D = Inr ps
      \<and> row \<in> set (rows (deOs D) text) \<and> p \<in> set ps \<and> process_matches (deOs D) ''robomotion-runner'' p
      \<and> listens (deOs D) row (pPid p) addr \<and> deRobotName D addr = Inr name)"
proof -
  have "addr \<in> set (robots D) \<longleftrightarrow> \<not> is_err (deRobotName D addr)
      \<and> addr \<in> LocalAddress ` set (GetNetStatPorts (deOs D) (deNetstat D) (deProcesses D) SS_LISTENING ''robomotion-runner'')"
    by (auto simp: robots_def)
  then show ?thesis unfolding GetNetStatPorts_listens by (cases "deRobotName D addr") auto
qed

lemma getRPCAddr_robots:
  "getRPCAddr D = None \<longleftrightarrow> 2 \<le> length (robots D)
     \<and> (\<forall>n. Some n \<in> set (deScans D) \<longrightarrow> \<not> (0 < n \<and> n \<le> int (length (robots D))))"
  "getRPCAddr D = Some a \<Longrightarrow> if robots D = [] then a = [] else a \<in> set (robots D)"
proof -
  define tabs where "tabs = filterTabs (deRobotName D)
    (GetNetStatPorts (deOs D) (deNetstat D) (deProcesses D) SS_LISTENING ''robomotion-runner'')"
  have r: "robots D = map LocalAddress tabs" by (simp add: robots_def tabs_def filterTabs_addresses)
  have g: "getRPCAddr D = (case tabs of [] \<Rightarrow> Some [] | [tab] \<Rightarrow> Some (LocalAddress tab) | _ \<Rightarrow> selectTab tabs (deScans D))"
    by (simp only: getRPCAddr_def tabs_def Let_def)
  show "getRPCAddr D = None \<longleftrightarrow> 2 \<le> length (robots D)
     \<and> (\<forall>n. Some n \<in> set (deScans D) \<longrightarrow> \<not> (0 < n \<and> n \<le> int (length (robots D))))"
    using select_loop_None [of 0 tabs "deScans D"]
    by (cases tabs; cases "tl tabs") (auto simp: g r selectTab_def)
  show "if robots D = [] then a = [] else a \<in> set (robots D)" if "getRPCAddr D = Some a"
    using that select_loop_Some [of tabs 0 "deScans D" a]
    by (cases tabs; cases "tl tabs") (auto simp: g r selectTab_def)
qed

text \<open>
  C40. Whatever the system and whatever \<^verbatim>\<open>netstat\<close> prints, a package that attaches is registered
  with a robot, which is an address that answered with its name and that stands in a row of the output as a
  TCP socket in the listening state of a process named as the robot; every such address is a robot.  The
  package passes on the address of its own listener, found within 30 seconds, and detaches from the address
  it attached to.  It waits for ever exactly when several robots answer and the user never types the number
  of one.  A socket that the system prints in a row, with any blanks between the columns, counts by what it
  is: one of another protocol, without a state, in another state or of a process that the caller may not see
  is none.
\<close>

theorem attach_reaches_listening_robot:
  "(Attach D ns old = None \<longleftrightarrow> await_listener (deListener D) 0 \<noteq> None \<and> 2 \<le> length (robots D)
        \<and> (\<forall>n. Some n \<in> set (deScans D) \<longrightarrow> \<not> (0 < n \<and> n \<le> int (length (robots D)))))
    \<and> (\<forall>addr. Attach D ns old = Some (Inr (), addr) \<longrightarrow> addr \<in> set (robots D)
        \<and> (\<exists>t g. t < attach_timeout \<and> deListener D t = Some g \<and> g \<noteq> []
            \<and> deAttach D addr \<lparr>acProtocol = ''grpc'', acAddr = g, acPID = dePid D, acNamespace = ns\<rparr> = None)
        \<and> Detach D ns addr = (case deDetach D addr ns of Some e \<Rightarrow> Inl e | None \<Rightarrow> Inr ()))
    \<and> (\<forall>addr. addr \<in> set (robots D) \<longleftrightarrow> (\<exists>text ps row p name. deNetstat D = Inr text \<and> deProcesses D = Inr ps
        \<and> row \<in> set (rows (deOs D) text) \<and> p \<in> set ps \<and> process_matches (deOs D) ''robomotion-runner'' p
        \<and> listens (deOs D) row (pPid p) addr \<and> deRobotName D addr = Inr name))
    \<and> (\<forall>os s width pid addr. printable os s \<longrightarrow>
        (listens os (render_columns width (columns os s)) pid addr \<longleftrightarrow>
          sProto s = tcp_text os \<and> sState s = Some SS_LISTENING \<and> owner_pid os s = Some pid \<and> addr = sLocal s))"
proof (intro conjI allI impI)
  show "Attach D ns old = None \<longleftrightarrow> await_listener (deListener D) 0 \<noteq> None \<and> 2 \<le> length (robots D)
      \<and> (\<forall>n. Some n \<in> set (deScans D) \<longrightarrow> \<not> (0 < n \<and> n \<le> int (length (robots D))))"
    unfolding getRPCAddr_robots(1) [symmetric] by (auto simp: Attach_def Let_def split: option.splits)
next
  fix addr
  assume "Attach D ns old = Some (Inr (), addr)"
  then obtain g where g: "await_listener (deListener D) 0 = Some g" "getRPCAddr D = Some addr" "addr \<noteq> []"
      "deAttach D addr \<lparr>acProtocol = ''grpc'', acAddr = g, acPID = dePid D, acNamespace = ns\<rparr> = None"
    by (auto simp: Attach_def Let_def split: option.splits if_splits)
  show "addr \<in> set (robots D)" using getRPCAddr_robots(2) [OF g(2)] g(3) by (simp split: if_splits)
  show "\<exists>t g. t < attach_timeout \<and> deListener D t = Some g \<and> g \<noteq> []
      \<and> deAttach D addr \<lparr>acProtocol = ''grpc'', acAddr = g, acPID = dePid D, acNamespace = ns\<rparr> = None"
    using await_listener_Some [OF g(1)] g(4) by blast
  show "Detach D ns addr = (case deDetach D addr ns of Some e \<Rightarrow> Inl e | None \<Rightarrow> Inr ())"
    using g(3) by (simp add: Detach_def)
qed (rule robots_listen, rule listens_columns)

text \<open>The output of a Linux system, with sockets of every kind.\<close>

definition demo_netstat :: "string list" where
  "demo_netstat =
    [''Active Internet connections (servers and established)'',
     ''Proto Recv-Q Send-Q Local Address           Foreign Address         State       PID/Program name     Timer'',
     ''tcp        0      0 0.0.0.0:22              0.0.0.0:*               LISTEN      -                    off (0.00/0/0)'',
     ''tcp        0      0 127.0.0.1:9000          0.0.0.0:*               LISTEN      42/robomotion-run    off (0.00/0/0)'',
     ''tcp        0      0 127.0.0.1:9001          127.0.0.1:50000         ESTABLISHED 42/robomotion-run    off (0.00/0/0)'',
     ''tcp6       0      0 :::9002                 :::*                    LISTEN      42/robomotion-run    off (0.00/0/0)'',
     ''udp        0      0 127.0.0.53:53           0.0.0.0:*                           42/robomotion-run    off (0.00/0/0)'',
     ''Active UNIX domain sockets (servers and established)'',
     ''Proto RefCnt Flags       Type       State         I-Node   PID/Program name     Path'',
     ''unix  2      [ ACC ]     STREAM     LISTENING     19203    42/robomotion-run    /run/robot.sock'']"

definition demo_socket :: socket where
  "demo_socket = \<lparr>sProto = ''tcp'', sQueues = (0, 0), sLocal = ''127.0.0.1:9000'', sForeign = ''0.0.0.0:*'', sState = Some SS_LISTENING,
     sBuffers = (0, 0), sOwner = Some (42, ''robomotion-run''), sExtra = [''off'', ''(0.00/0/0)'']\<rparr>"

definition demo_procs :: "process list" where
  "demo_procs = [\<lparr>pPid = 7, pExecutable = ''sshd''\<rparr>, \<lparr>pPid = 42, pExecutable = ''robomotion-run''\<rparr>]"

definition demo_debug :: debug_env where
  "demo_debug = \<lparr>deOs = Linux,
     deNetstat = Inr (concat (map (\<lambda>l. l @ end_of_line Linux) demo_netstat)),
     deProcesses = Inr demo_procs,
     deRobotName = (\<lambda>a. if a = ''127.0.0.1:9000'' then Inr ''r1'' else Inl (Errorf ''refused'')),
     deListener = (\<lambda>t. if t < 2000 then None else Some ''127.0.0.1:5555''), deScans = [], dePid = 99,
     deAttach = (\<lambda>a c. None), deDetach = (\<lambda>a ns. None)\<rparr>"

lemma demo_robots: "robots demo_debug = [''127.0.0.1:9000'']"
proof -
  let ?robot = "\<lparr>pPid = 42, pExecutable = ''robomotion-run''\<rparr>"
  define listening where "listening = (\<lambda>l. let t = split_spaces l in
    if l \<noteq> [] \<and> 7 < length t \<and> t ! 0 = ''tcp'' \<and> t ! 5 = ''LISTEN'' then Some (split_on (CHR ''/'') (t ! 6) ! 0, t ! 3) else None)"
  have f: "list_filter (process_matches Linux ''robomotion-runner'') demo_procs = [?robot]" by code_simp
  have l: "\<forall>l \<in> set demo_netstat. CHR 0x0A \<notin> set l \<and> CHR 0x0D \<notin> set l" by code_simp
  have m: "map listening demo_netstat
    = [None, None, Some (''-'', ''0.0.0.0:22''), Some (''42'', ''127.0.0.1:9000'')] @ replicate 6 None"
    unfolding listening_def by code_simp
  have a: "is_err (atoi ''-'')" "atoi ''42'' = Inr 42"
    by (simp_all add: atoi_def parse_int_def parse_digits_def is_digit_def digit_val_def)
  have row: "socket_row Linux [?robot] SS_LISTENING l = (case listening l of None \<Rightarrow> [] | Some (pid, addr) \<Rightarrow>
      if atoi pid = Inr 42 then [\<lparr>tProcess = ?robot, LocalAddress = addr, RobotName = []\<rparr>] else [])" for l
    by (auto simp: socket_row_def listening_def Let_def min_tokens_def pid_column_def is_tcp_def state_column_def
      address_column_def list_filter_eq list_first_eq split: sum.split)
  have "concat (map (socket_row Linux [?robot] SS_LISTENING) demo_netstat)
      = concat (map (\<lambda>x. case x of None \<Rightarrow> [] | Some (pid, addr) \<Rightarrow>
          if atoi pid = Inr 42 then [\<lparr>tProcess = ?robot, LocalAddress = addr, RobotName = []\<rparr>] else []) (map listening demo_netstat))"
    by (rule arg_cong [where f = concat]) (simp add: row)
  also have "\<dots> = [\<lparr>tProcess = ?robot, LocalAddress = ''127.0.0.1:9000'', RobotName = []\<rparr>]"
    unfolding m using a by (cases "atoi ''-''") (simp_all add: numeral_eq_Suc)
  finally show ?thesis
    using rows_lines [OF l, of Linux] f socket_row_def [of Linux "[?robot]" SS_LISTENING "[]"]
    by (simp add: robots_def demo_debug_def GetNetStatPorts_def Let_def)
qed

lemma demo_row:
  "render_columns (nth [0, 3, 5, 14, 9, 0, 5, 7]) (columns Linux demo_socket) = demo_netstat ! 3"
  by code_simp

theorem attach_reaches_listening_robot_witness:
  "Attach demo_debug ''ns'' [] = Some (Inr (), ''127.0.0.1:9000'')
    \<and> Detach demo_debug ''ns'' ''127.0.0.1:9000'' = Inr ()
    \<and> (\<exists>row \<in> set (rows Linux (concat (map (\<lambda>l. l @ end_of_line Linux) demo_netstat))). listens Linux row 42 ''127.0.0.1:9000'')
    \<and> listens Linux (demo_netstat ! 3) 42 ''127.0.0.1:9000'' \<and> \<not> listens Linux (demo_netstat ! 3) 7 ''127.0.0.1:9000''"
proof -
  have "getRPCAddr demo_debug = Some ''127.0.0.1:9000''"
    using getRPCAddr_robots [of demo_debug] by (cases "getRPCAddr demo_debug") (auto simp: demo_robots)
  moreover have "await_listener (deListener demo_debug) 0 = Some ''127.0.0.1:5555''"
    by (simp add: demo_debug_def await_listener.simps attach_timeout_def)
  ultimately have a: "Attach demo_debug ''ns'' [] = Some (Inr (), ''127.0.0.1:9000'')"
    by (simp add: Attach_def) (simp add: demo_debug_def)
  note t = attach_reaches_listening_robot [of demo_debug "''ns''" "[]"]
  have d: "''127.0.0.1:9000'' \<in> set (robots demo_debug)"
    "Detach demo_debug ''ns'' ''127.0.0.1:9000'' = (case deDetach demo_debug ''127.0.0.1:9000'' ''ns'' of Some e \<Rightarrow> Inl e | None \<Rightarrow> Inr ())"
    using t a by blast+
  have s: "\<not> process_matches Linux ''robomotion-runner'' \<lparr>pPid = 7, pExecutable = ''sshd''\<rparr>" by code_simp
  have r: "\<exists>row \<in> set (rows Linux (concat (map (\<lambda>l. l @ end_of_line Linux) demo_netstat))). listens Linux row 42 ''127.0.0.1:9000''"
    using d(1) t s by (auto simp: demo_debug_def demo_procs_def)
  have "printable Linux demo_socket" by (simp add: printable_def demo_socket_def solid_def re_space_def)
  then have "listens Linux (demo_netstat ! 3) pid ''127.0.0.1:9000'' \<longleftrightarrow> pid = 42" for pid
    using t unfolding demo_row [symmetric] by (simp add: demo_socket_def tcp_text_def owner_pid_def)
  with a d(2) r show ?thesis by (simp add: demo_debug_def)
qed

end
