(* ===== verification/Lifecycle.thy ===== *)
theory Lifecycle
  imports Fair_Runs Handshake Startup Debug
begin

text \<open>
  The life of a plugin process: what \<^verbatim>\<open>Start\<close> (\<^verbatim>\<open>runtime/registry.go\<close>) does in the mode that serves the robot,
  and the goroutines beside it: the watch over the connection (\<^verbatim>\<open>checkConnState\<close>), the signal handler and
  \<^verbatim>\<open>debug.Attach\<close>.  They meet in the channel \<^verbatim>\<open>done\<close>, which holds one value: a sender waits while it is full,
  and \<^verbatim>\<open>Start\<close> takes the first value and goes on to its end.
\<close>

section \<open>The process\<close>

text \<open>\<^verbatim>\<open>connectivity.State\<close>, and where a goroutine is.\<close>

datatype link_state = Idle | Connecting | Ready | TransientFailure | Shutdown

datatype watcher = Looking | Telling | Pausing

datatype sig_handler = Listening | Signalled | Notified

datatype attacher = NoDebugger | Attaching | Calling "error + unit" | Attached

datatype main_pc = Registering | Waiting | Detaching | Sleeping | Exited

text \<open>
  \<open>link\<close> is the state of the global \<^verbatim>\<open>conn\<close>, \<open>None\<close> when it is nil; \<open>full\<close> whether \<^verbatim>\<open>done\<close> holds a value; \<open>closers\<close> counts the
  calls of \<^verbatim>\<open>OnClose\<close> that are about to send.
\<close>

record 'e process =
  host :: "'e conn"
  link :: "link_state option"
  watchers :: "watcher list"
  full :: bool
  closers :: nat
  sig :: sig_handler
  attached :: bool
  attacher :: attacher
  attachedTo :: string
  mainPc :: main_pc

definition new_process :: "bool \<Rightarrow> 'e server \<Rightarrow> 'e process" where
  "new_process att s = \<lparr>host = new_conn s, link = None, watchers = [], full = False, closers = 0, sig = Listening,
     attached = att, attacher = if att then Attaching else NoDebugger, attachedTo = [], mainPc = Registering\<rparr>"

definition gone :: "'e process \<Rightarrow> bool" where
  "gone p \<longleftrightarrow> mainPc p = Exited \<or> panic (host p) \<noteq> None"

text \<open>\<^verbatim>\<open>done <- true\<close>, which waits while the channel is full.\<close>

definition tell :: "'e process \<Rightarrow> 'e process option" where
  "tell p = (if full p then None else Some (p\<lparr>full := True\<rparr>))"

text \<open>What \<^verbatim>\<open>checkConnState\<close> does next, if it need not wait.\<close>

definition watcher_move :: "nat \<Rightarrow> 'e process \<Rightarrow> 'e process option" where
  "watcher_move i p = (case watchers p ! i of
     Looking \<Rightarrow> (case link p of
         None \<Rightarrow> Some (p\<lparr>host := (host p)\<lparr>panic := Some ''nil pointer dereference''\<rparr>\<rparr>)
       | Some k \<Rightarrow> Some (p\<lparr>watchers := (watchers p)[i := if k = Connecting \<or> k = Idle \<or> k = Ready then Pausing else Telling]\<rparr>))
   | Telling \<Rightarrow> map_option (\<lambda>p. p\<lparr>watchers := (watchers p)[i := Pausing]\<rparr>) (tell p)
   | Pausing \<Rightarrow> Some (p\<lparr>watchers := (watchers p)[i := Looking]\<rparr>))"

text \<open>What \<^verbatim>\<open>Start\<close> does next.\<close>

definition main_move :: "debug_env \<Rightarrow> string \<Rightarrow> reg_type list \<Rightarrow> 'e process \<Rightarrow> 'e process option" where
  "main_move D ns types p = (case mainPc p of
     Registering \<Rightarrow> Some (p\<lparr>host := (host p)\<lparr>node_srv := RegisterFactories types (node_srv (host p))\<rparr>, mainPc := Waiting\<rparr>)
   | Waiting \<Rightarrow> if full p then Some (p\<lparr>full := False, mainPc := if attached p then Detaching else Sleeping\<rparr>) else None
   | Detaching \<Rightarrow> Some (p\<lparr>mainPc := case Detach D ns (attachedTo p) of Inl e \<Rightarrow> Exited | Inr _ \<Rightarrow> Sleeping\<rparr>)
   | Sleeping \<Rightarrow> Some (p\<lparr>mainPc := Exited\<rparr>)
   | Exited \<Rightarrow> None)"

definition watch_act :: "nat \<Rightarrow> 'e process \<Rightarrow> 'e process \<Rightarrow> bool" where
  "watch_act i p p' \<longleftrightarrow> \<not> gone p \<and> i < length (watchers p) \<and> watcher_move i p = Some p'"

definition main_act :: "debug_env \<Rightarrow> string \<Rightarrow> reg_type list \<Rightarrow> 'e process \<Rightarrow> 'e process \<Rightarrow> bool" where
  "main_act D ns types p p' \<longleftrightarrow> \<not> gone p \<and> main_move D ns types p = Some p'"

text \<open>A goroutine that is at its send completes it.\<close>

definition tell_act :: "'e process \<Rightarrow> 'e process \<Rightarrow> bool" where
  "tell_act p p' \<longleftrightarrow> \<not> gone p \<and>
     ((\<exists>i < length (watchers p). watchers p ! i = Telling \<and> watcher_move i p = Some p')
      \<or> 0 < closers p \<and> map_option (\<lambda>q. q\<lparr>closers := closers p - 1\<rparr>) (tell p) = Some p'
      \<or> sig p = Signalled \<and> map_option (\<lambda>q. q\<lparr>sig := Notified\<rparr>) (tell p) = Some p')"

text \<open>
  \<^verbatim>\<open>Init\<close> overwrites the global \<^verbatim>\<open>conn\<close>, with nil when the connection fails, and starts a watch of its own when it
  does not; \<open>k\<close> is the state the new connection is in.
\<close>

definition link_Init :: "error option \<Rightarrow> link_state \<Rightarrow> 'e conn \<Rightarrow> 'e process \<Rightarrow> 'e process" where
  "link_Init dial_err k h p = (case dial_err of
     Some e \<Rightarrow> p\<lparr>host := h, link := None\<rparr>
   | None \<Rightarrow> p\<lparr>host := h, link := Some k, watchers := watchers p @ [Looking]\<rparr>)"

text \<open>A signal that comes before \<^verbatim>\<open>signal.Notify\<close> is not caught and ends the process at once; it is not a step here.\<close>

inductive process_step :: "lib \<Rightarrow> platform \<Rightarrow> 'e node_code \<Rightarrow> (bytes \<Rightarrow> bytes res) \<Rightarrow> debug_env \<Rightarrow> string \<Rightarrow> reg_type list
    \<Rightarrow> 'e process \<Rightarrow> 'e process \<Rightarrow> bool"
  for L pf C dec D ns types where
  init: "\<not> gone p \<Longrightarrow> conn_Init de ee ze cfg (host p) = (r, h) \<Longrightarrow> process_step L pf C dec D ns types p (link_Init de k h p)"
| routine: "\<not> gone p \<Longrightarrow> i < length (routines (host p)) \<Longrightarrow>
    process_step L pf C dec D ns types p (p\<lparr>host := routine_step fetch i (host p)\<rparr>)"
| call: "\<not> gone p \<Longrightarrow> conn_call L pf C dec (host p) h \<Longrightarrow> process_step L pf C dec D ns types p
    (p\<lparr>host := h, closers := closers p + (doneSignals (node_srv h) - doneSignals (node_srv (host p)))\<rparr>)"
| link: "\<not> gone p \<Longrightarrow> link p = Some k \<Longrightarrow> process_step L pf C dec D ns types p (p\<lparr>link := Some k'\<rparr>)"
| signal: "\<not> gone p \<Longrightarrow> mainPc p \<noteq> Registering \<Longrightarrow> sig p = Listening \<Longrightarrow> process_step L pf C dec D ns types p (p\<lparr>sig := Signalled\<rparr>)"
| attach: "\<not> gone p \<Longrightarrow> attacher p = Attaching \<Longrightarrow> Attach D ns (attachedTo p) = Some (r, a) \<Longrightarrow>
    process_step L pf C dec D ns types p (p\<lparr>attacher := Calling r, attachedTo := a\<rparr>)"
| attach_end: "\<not> gone p \<Longrightarrow> attacher p = Calling r \<Longrightarrow> process_step L pf C dec D ns types p
    (p\<lparr>attacher := Attached, mainPc := case r of Inl e \<Rightarrow> Exited | Inr _ \<Rightarrow> mainPc p\<rparr>)"
| watch: "watch_act i p p' \<Longrightarrow> process_step L pf C dec D ns types p p'"
| tell: "tell_act p p' \<Longrightarrow> process_step L pf C dec D ns types p p'"
| main: "main_act D ns types p p' \<Longrightarrow> process_step L pf C dec D ns types p p'"

section \<open>The end of the process\<close>

definition told :: "'e process \<Rightarrow> bool" where
  "told p \<longleftrightarrow> full p \<or> mainPc p = Detaching \<or> mainPc p = Sleeping"

definition telling :: "'e process \<Rightarrow> bool" where
  "telling p \<longleftrightarrow> 0 < closers p \<or> sig p = Signalled \<or> Telling \<in> set (watchers p)"

definition lost :: "'e process \<Rightarrow> bool" where
  "lost p \<longleftrightarrow> link p \<notin> Some ` {Connecting, Idle, Ready}"

text \<open>What a fair scheduler promises of the goroutines.\<close>

definition fair :: "debug_env \<Rightarrow> string \<Rightarrow> reg_type list \<Rightarrow> (nat \<Rightarrow> 'e process) \<Rightarrow> bool" where
  "fair D ns types r \<longleftrightarrow> weakly_fair (main_act D ns types) r \<and> weakly_fair tell_act r \<and> (\<forall>i. weakly_fair (watch_act i) r)"

fun pc_rank :: "main_pc \<Rightarrow> nat" where
  "pc_rank Registering = 4" | "pc_rank Waiting = 3" | "pc_rank Detaching = 2" | "pc_rank Sleeping = 1" | "pc_rank Exited = 0"

definition watch_rank :: "nat \<Rightarrow> 'e process \<Rightarrow> nat" where
  "watch_rank i p = (if watchers p ! i = Pausing then 1 else 0)"

lemma watcher_moveE:
  assumes "watcher_move i p = Some p'"
  obtains (nil) "watchers p ! i = Looking" "link p = None" "panic (host p') \<noteq> None"
  | (look) k where "watchers p ! i = Looking" "link p = Some k"
      "p' = p\<lparr>watchers := (watchers p)[i := if k = Connecting \<or> k = Idle \<or> k = Ready then Pausing else Telling]\<rparr>"
  | (tell) "watchers p ! i = Telling" "\<not> full p" "p' = p\<lparr>full := True, watchers := (watchers p)[i := Pausing]\<rparr>"
  | (pause) "watchers p ! i = Pausing" "p' = p\<lparr>watchers := (watchers p)[i := Looking]\<rparr>"
  using assms by (auto simp: watcher_move_def tell_def split: watcher.splits option.splits if_split_asm)

lemma main_moveE:
  assumes "main_move D ns types p = Some p'"
  obtains (register) "mainPc p = Registering" "p' = p\<lparr>host := (host p)\<lparr>node_srv := RegisterFactories types (node_srv (host p))\<rparr>, mainPc := Waiting\<rparr>"
  | (receive) "mainPc p = Waiting" "full p" "p' = p\<lparr>full := False, mainPc := if attached p then Detaching else Sleeping\<rparr>"
  | (detach) "mainPc p = Detaching" "p' = p\<lparr>mainPc := case Detach D ns (attachedTo p) of Inl e \<Rightarrow> Exited | Inr _ \<Rightarrow> Sleeping\<rparr>"
  | (sleep) "mainPc p = Sleeping" "p' = p\<lparr>mainPc := Exited\<rparr>"
proof (cases "mainPc p")
  case Registering
  show ?thesis by (rule register) (use assms Registering in \<open>simp_all add: main_move_def\<close>)
next
  case Waiting
  show ?thesis by (rule receive) (use assms Waiting in \<open>simp_all add: main_move_def split: if_split_asm\<close>)
next
  case Detaching
  show ?thesis by (rule detach) (use assms Detaching in \<open>simp_all add: main_move_def\<close>)
next
  case Sleeping
  show ?thesis by (rule sleep) (use assms Sleeping in \<open>simp_all add: main_move_def\<close>)
next
  case Exited
  then have "main_move D ns types p = None" by (simp add: main_move_def)
  with assms show ?thesis by simp
qed

text \<open>A completed send, whoever makes it.\<close>

lemma tell_actE:
  assumes "tell_act p p'"
  obtains "\<not> gone p" "\<not> full p" "full p'" "mainPc p' = mainPc p" "link p' = link p" "host p' = host p" "attacher p' = attacher p"
  using assms by (auto simp: tell_act_def tell_def watcher_move_def split: if_split_asm)

lemma link_Init_sel [simp]: "host (link_Init e k h p) = h" "full (link_Init e k h p) = full p"
  "mainPc (link_Init e k h p) = mainPc p" "closers (link_Init e k h p) = closers p" "sig (link_Init e k h p) = sig p"
  "attacher (link_Init e k h p) = attacher p"
  "watchers (link_Init e k h p) = watchers p @ (if e = None then [Looking] else [])"
  by (simp_all add: link_Init_def split: option.split)

interpretation ending: fair_stage "process_step L pf C dec D ns types" "main_act D ns types"
  "\<lambda>p. told p \<and> \<not> gone p" gone "\<lambda>p. pc_rank (mainPc p)" for L pf C dec D ns types
proof
  fix p q assume P: "told p \<and> \<not> gone p" and s: "process_step L pf C dec D ns types p q"
  from s P have "told q \<and> pc_rank (mainPc q) \<le> pc_rank (mainPc p) \<or> gone q"
  proof (induction rule: process_step.induct)
    case (watch i p p')
    then have "watcher_move i p = Some p'" by (simp add: watch_act_def)
    then show ?case using watch.prems by (cases rule: watcher_moveE) (auto simp: told_def gone_def)
  next
    case (tell p p')
    then show ?case by (auto simp: told_def elim!: tell_actE)
  next
    case (main p p')
    then have "main_move D ns types p = Some p'" by (simp add: main_act_def)
    then show ?case using main.prems by (cases rule: main_moveE) (auto simp: told_def gone_def split: sum.splits)
  qed (auto simp: told_def gone_def split: sum.splits)
  then show "gone q \<or> (told q \<and> \<not> gone q) \<and> pc_rank (mainPc q) \<le> pc_rank (mainPc p)" by blast
next
  fix p q assume "told p \<and> \<not> gone p" and m: "main_act D ns types p q"
  then have "main_move D ns types p = Some q" by (simp add: main_act_def)
  then show "gone q \<or> pc_rank (mainPc q) < pc_rank (mainPc p)"
    by (cases rule: main_moveE) (auto split: sum.splits)
next
  fix p :: "'a process" assume "told p \<and> \<not> gone p"
  then show "\<exists>q. main_act D ns types p q"
    by (auto simp: main_act_def main_move_def told_def gone_def split: main_pc.splits)
qed

text \<open>A goroutine that is at its send gets the value into the channel, or another one does.\<close>

lemma set_update_keeps: "x \<in> set xs \<Longrightarrow> xs ! i \<noteq> x \<Longrightarrow> x \<in> set (xs[i := y])"
  by (induction xs arbitrary: i) (auto split: nat.splits)

lemma watcher_step_telling:
  assumes "watcher_move i p = Some q" "telling p" "\<not> gone q"
  shows "telling q \<or> full q"
  using assms(1)
proof (cases rule: watcher_moveE)
  case (look k)
  with assms(2) show ?thesis using set_update_keeps [of Telling "watchers p" i] by (auto simp: telling_def)
next
  case pause
  with assms(2) show ?thesis using set_update_keeps [of Telling "watchers p" i] by (auto simp: telling_def)
qed (use assms(3) in \<open>auto simp: gone_def\<close>)

lemma telling_able: "telling p \<Longrightarrow> \<not> full p \<Longrightarrow> \<not> gone p \<Longrightarrow> \<exists>q. tell_act p q"
proof -
  assume f: "\<not> full p" "\<not> gone p" and "telling p"
  then consider (closer) "0 < closers p" | (sig) "sig p = Signalled" | (watch) i where "i < length (watchers p)" "watchers p ! i = Telling"
    by (auto simp: telling_def in_set_conv_nth)
  then show ?thesis
  proof cases
    case (watch i)
    with f have "watcher_move i p = Some (p\<lparr>full := True, watchers := (watchers p)[i := Pausing]\<rparr>)"
      by (simp add: watcher_move_def tell_def)
    with watch f show ?thesis unfolding tell_act_def by blast
  qed (use f in \<open>auto simp: tell_act_def tell_def\<close>)
qed

interpretation sending: fair_stage "process_step L pf C dec D ns types" tell_act
  "\<lambda>p. telling p \<and> \<not> told p \<and> \<not> gone p" "\<lambda>p. told p \<or> gone p" "\<lambda>p. 0" for L pf C dec D ns types
proof
  fix p q assume P: "telling p \<and> \<not> told p \<and> \<not> gone p" and s: "process_step L pf C dec D ns types p q"
  from s P have "telling q \<or> told q \<or> gone q"
  proof (induction rule: process_step.induct)
    case (watch i p p')
    then show ?case using watcher_step_telling [of i p p'] by (auto simp: watch_act_def told_def)
  next
    case (tell p p')
    then show ?case by (auto simp: told_def elim!: tell_actE)
  next
    case (main p p')
    then have "main_move D ns types p = Some p'" by (simp add: main_act_def)
    then show ?case using main.prems by (cases rule: main_moveE) (auto simp: told_def gone_def telling_def)
  qed (auto simp: telling_def split: sum.splits)
  then show "(told q \<or> gone q) \<or> (telling q \<and> \<not> told q \<and> \<not> gone q) \<and> 0 \<le> (0::nat)" by blast
next
  fix p q assume "tell_act p q"
  then show "(told q \<or> gone q) \<or> (0::nat) < 0" by (auto simp: told_def elim!: tell_actE)
next
  fix p :: "'a process" assume "telling p \<and> \<not> told p \<and> \<not> gone p"
  then show "\<exists>q. tell_act p q" by (simp add: told_def telling_able)
qed

text \<open>While the connection is lost, every watch gets to its send.\<close>

definition lost_step :: "('e process \<Rightarrow> 'e process \<Rightarrow> bool) \<Rightarrow> 'e process \<Rightarrow> 'e process \<Rightarrow> bool" where
  "lost_step step p q \<longleftrightarrow> step p q \<and> lost q"

interpretation watching: fair_stage "lost_step (process_step L pf C dec D ns types)" "watch_act i"
  "\<lambda>p. i < length (watchers p) \<and> lost p \<and> \<not> telling p \<and> \<not> told p \<and> \<not> gone p" "\<lambda>p. telling p \<or> told p \<or> gone p"
  "watch_rank i" for L pf C dec D ns types i
proof
  let ?P = "\<lambda>p. i < length (watchers p) \<and> lost p \<and> \<not> telling p \<and> \<not> told p \<and> \<not> gone p"
  have keep: "telling q \<or> told q \<or> gone q \<or> i < length (watchers q) \<and> watch_rank i q \<le> watch_rank i p \<and> (j = i \<longrightarrow> watch_rank i q < watch_rank i p)"
    if "?P p" "watcher_move j p = Some q" "j < length (watchers p)" for p q :: "'a process" and j
    using that(2)
  proof (cases rule: watcher_moveE)
    case (look k)
    with that(1) have "\<not> (k = Connecting \<or> k = Idle \<or> k = Ready)" by (auto simp: lost_def)
    with look that(3) show ?thesis by (simp add: telling_def set_update_memI)
  next
    case tell
    then show ?thesis by (simp add: told_def)
  qed (use that in \<open>auto simp: gone_def watch_rank_def nth_list_update\<close>)
  fix p q :: "'a process"
  {
    assume P: "?P p" and s: "lost_step (process_step L pf C dec D ns types) p q"
    from s have "process_step L pf C dec D ns types p q" "lost q" by (simp_all add: lost_step_def)
    from this(1) P have "telling q \<or> told q \<or> gone q \<or> i < length (watchers q) \<and> watch_rank i q \<le> watch_rank i p"
    proof (induction rule: process_step.induct)
      case (watch j p p')
      then show ?case using keep [OF watch.prems] by (auto simp: watch_act_def)
    next
      case (tell p p')
      then show ?case by (auto simp: told_def elim!: tell_actE)
    next
      case (main p p')
      then have "main_move D ns types p = Some p'" by (simp add: main_act_def)
      then show ?case using main.prems by (cases rule: main_moveE) (auto simp: told_def gone_def watch_rank_def)
    qed (auto simp: watch_rank_def nth_append)
    with \<open>lost q\<close> show "(telling q \<or> told q \<or> gone q) \<or> ?P q \<and> watch_rank i q \<le> watch_rank i p" by blast
  next
    assume "?P p" "watch_act i p q"
    then show "(telling q \<or> told q \<or> gone q) \<or> watch_rank i q < watch_rank i p"
      using keep [of p i q] by (auto simp: watch_act_def)
  next
    assume "?P p"
    then have "\<exists>q. watcher_move i p = Some q"
      by (cases "watchers p ! i") (auto simp: watcher_move_def told_def tell_def split: option.splits)
    with \<open>?P p\<close> show "\<exists>q. watch_act i p q" by (auto simp: watch_act_def)
  }
qed

text \<open>
  C15. The process ends when it should.  When the robot closed the last node, the user interrupted or a watch found
  the connection lost (\<open>telling\<close>, and later \<open>told\<close>), and also when the connection of a process that was
  initialised stays lost, every fair run ends the process, whatever the robot, the debugger and the other
  goroutines do meanwhile, and however often the channel \<^verbatim>\<open>done\<close> is found full.
\<close>

theorem process_ends:
  assumes "run_of (process_step L pf C dec D ns types) r" "fair D ns types r"
    and "telling (r i) \<or> told (r i) \<or> watchers (r i) \<noteq> [] \<and> (\<forall>j \<ge> i. lost (r j))"
  shows "\<exists>j \<ge> i. gone (r j)"
proof -
  note run = assms(1)
  have main: "weakly_fair (main_act D ns types) r" and tell: "weakly_fair tell_act r" and watch: "weakly_fair (watch_act n) r" for n
    using assms(2) by (simp_all add: fair_def)
  have told: "\<exists>m \<ge> k. gone (r m)" if "told (r k)" for k
    using that ending.leads_to [OF run main, of k] by (cases "gone (r k)") auto
  have telling: "\<exists>m \<ge> k. gone (r m)" if "telling (r k)" for k
  proof (cases "told (r k) \<or> gone (r k)")
    case False
    with that sending.leads_to [OF run tell, of k] obtain m where "k \<le> m" "told (r m) \<or> gone (r m)" by auto
    with told [of m] show ?thesis by (meson le_trans)
  qed (use told in auto)
  show ?thesis
  proof (cases "telling (r i) \<or> told (r i) \<or> gone (r i)")
    case False
    with assms(3) have l: "0 < length (watchers (r i))" "\<forall>j \<ge> i. lost (r j)" by auto
    then have "run_of (lost_step (process_step L pf C dec D ns types)) (\<lambda>j. r (i + j))"
      by (intro run_of_from [OF run]) (simp add: lost_step_def)
    from watching.leads_to [OF this weakly_fair_from [OF watch], of 0 0] l False
    obtain k where "telling (r (i + k)) \<or> told (r (i + k)) \<or> gone (r (i + k))" by auto
    with told [of "i + k"] telling [of "i + k"] show ?thesis by (meson le_add1 le_trans)
  qed (use told telling in auto)
qed

text \<open>A process that is started, interrupted and ends.\<close>

definition demo_process :: "sig_handler \<Rightarrow> bool \<Rightarrow> main_pc \<Rightarrow> unit process" where
  "demo_process g f c = (new_process False (demo_server None))\<lparr>sig := g, full := f, mainPc := c\<rparr>"

definition demo_life :: "nat \<Rightarrow> unit process" where
  "demo_life n = (if n = 0 then demo_process Listening False Registering
     else if n = 1 then demo_process Listening False Waiting
     else if n = 2 then demo_process Signalled False Waiting
     else if n = 3 then demo_process Notified True Waiting
     else if n = 4 then demo_process Notified False Sleeping
     else demo_process Notified False Exited)"

lemma demo_process_sel: "gone (demo_process g f c) \<longleftrightarrow> c = Exited" "sig (demo_process g f c) = g" "full (demo_process g f c) = f"
  "mainPc (demo_process g f c) = c" "attached (demo_process g f c) = False"
  by (simp_all add: demo_process_def new_process_def gone_def new_conn_def)

lemma demo_life_step:
  "run_of (process_step text_lib Posix demo_code Inr demo_debug ''ns'' []) demo_life"
proof -
  let ?s = "process_step text_lib Posix demo_code Inr demo_debug ''ns'' []" and ?d = demo_process
  have signal: "?s (?d Listening False Waiting) (?d Signalled False Waiting)"
    using process_step.signal [of "?d Listening False Waiting"] by (simp add: demo_process_sel) (simp add: demo_process_def new_process_def)
  have send: "?s (?d Signalled False Waiting) (?d Notified True Waiting)"
    by (rule process_step.tell) (simp add: tell_act_def demo_process_sel tell_def, simp add: demo_process_def)
  have main: "?s (?d g f c) (?d g f' c')" if "main_move demo_debug ''ns'' [] (?d g f c) = Some (?d g f' c')" "c \<noteq> Exited" for g f c f' c'
    by (rule process_step.main) (use that in \<open>simp add: main_act_def demo_process_sel\<close>)
  have "?s (?d Listening False Registering) (?d Listening False Waiting)"
    "?s (?d Notified True Waiting) (?d Notified False Sleeping)" "?s (?d Notified False Sleeping) (?d Notified False Exited)"
    by (rule main; simp add: main_move_def demo_process_def RegisterFactories_def new_process_def new_conn_def)+
  with signal send show ?thesis unfolding run_of_def by (auto simp: demo_life_def less_Suc_eq numeral_eq_Suc)
qed

lemma demo_life_fair: "fair D ns types demo_life"
proof -
  have w: "weakly_fair act demo_life" if "\<And>p q. act p q \<Longrightarrow> \<not> gone p" for act
  proof -
    have "\<not> act (demo_life (i + 5)) t" for i t using that [of "demo_life (i + 5)" t] by (auto simp: demo_life_def demo_process_sel)
    then show ?thesis unfolding weakly_fair_def by (meson le_add1)
  qed
  show ?thesis by (auto simp: fair_def main_act_def tell_act_def watch_act_def intro!: w)
qed

theorem process_ends_witness: "\<exists>j \<ge> 2. gone (demo_life j)"
proof -
  have "telling (demo_life 2)" by (simp add: telling_def demo_life_def demo_process_sel)
  with process_ends [OF demo_life_step demo_life_fair, of 2] show ?thesis by blast
qed

section \<open>The process serves until then\<close>

lemma signals_kept:
  "Init de ee ze cfg s = (r, s') \<Longrightarrow> doneSignals s' = doneSignals s"
  "doneSignals (init_goroutine fetch s) = doneSignals s"
  "doneSignals (RegisterFactories types s) = doneSignals s"
  "OnCreate L C name config s = Return (r', s') \<Longrightarrow> doneSignals s' = doneSignals s"
  "OnSetup L C name config sid s = (r, s') \<Longrightarrow> doneSignals s' = doneSignals s"
proof -
  show "Init de ee ze cfg s = (r, s') \<Longrightarrow> doneSignals s' = doneSignals s"
    by (auto simp: Init_def split: option.splits)
  show "doneSignals (init_goroutine fetch s) = doneSignals s"
    by (auto simp: init_goroutine_def GetRobotInfo_def Let_def split: prod.splits sum.splits option.splits if_splits)
  show "doneSignals (RegisterFactories types s) = doneSignals s"
    unfolding RegisterFactories_def by (induction types arbitrary: s) (simp_all add: RegisterNodeFactory_def)
  show "OnCreate L C name config s = Return (r', s') \<Longrightarrow> doneSignals s' = doneSignals s"
    by (auto simp: OnCreate_def factory_OnCreate_def AddNodeHandler_def split: option.splits prod.splits sum.splits)
  show "OnSetup L C name config sid s = (r, s') \<Longrightarrow> doneSignals s' = doneSignals s"
    by (auto simp: OnSetup_def factory_OnCreate_def AddNodeHandler_def RemoveNodeHandler_def Let_def
        split: option.splits prod.splits sum.splits)
qed

lemma signals_call: "conn_call L pf C dec h h' \<Longrightarrow> doneSignals (node_srv h) \<le> doneSignals (node_srv h')"
proof (induction rule: conn_call.induct)
  case (message n guid m h r s)
  then have "same_registry (node_srv h) s" using OnMessage_same by (cases r) blast
  then show ?case by (simp add: same_registry_def)
next
  case (close guid h r s)
  then show ?case by (cases rule: OnClose_cases) auto
qed (auto simp: signals_kept)

lemma signals_host:
  "conn_Init de ee ze cfg h = (r, h') \<Longrightarrow> doneSignals (node_srv h') = doneSignals (node_srv h)"
  "doneSignals (node_srv (routine_step fetch i h)) = doneSignals (node_srv h)"
  by (auto simp: conn_Init_def routine_step_def signals_kept split: prod.splits option.splits routine.splits)

text \<open>
  A step after which the connection is up, if there is one, and the user has not interrupted, and whose
  call, if it is one, brings fresh guids and does not fail to create its node.
\<close>

definition quiet_step :: "lib \<Rightarrow> platform \<Rightarrow> 'e node_code \<Rightarrow> (bytes \<Rightarrow> bytes res) \<Rightarrow> debug_env \<Rightarrow> string \<Rightarrow> reg_type list
    \<Rightarrow> 'e process \<Rightarrow> 'e process \<Rightarrow> bool" where
  "quiet_step L pf C dec D ns types p q \<longleftrightarrow>
     process_step L pf C dec D ns types p q \<and> (watchers q = [] \<or> \<not> lost q) \<and> sig q = Listening
     \<and> (let s = node_srv (host p); s' = node_srv (host q) in
        (handlers s' = handlers s \<and> nc s' = nc s \<and> doneSignals s' = doneSignals s \<or> clean_rpc L pf C dec s s')
        \<and> card (dom (handlers s')) < 2 ^ 32)"

definition started :: "main_pc \<Rightarrow> nat" where
  "started c = (if c = Registering \<or> c = Waiting then 0 else 1)"

text \<open>Every value in \<^verbatim>\<open>done\<close>, and the one \<^verbatim>\<open>Start\<close> took, was sent by a call of \<^verbatim>\<open>OnClose\<close>.\<close>

definition accounted :: "nat \<Rightarrow> 'e process \<Rightarrow> bool" where
  "accounted d p \<longleftrightarrow> sig p = Listening \<and> attacher p = NoDebugger \<and> Telling \<notin> set (watchers p) \<and> (watchers p = [] \<or> \<not> lost p)
     \<and> d + closers p + of_bool (full p) + started (mainPc p) \<le> doneSignals (node_srv (host p))"

lemma accounted_step:
  assumes "process_step L pf C dec D ns types p q" "accounted d p" "watchers q = [] \<or> \<not> lost q" "sig q = Listening"
  shows "accounted d q"
  using assms
proof (induction rule: process_step.induct)
  case (init p de ee ze cfg r h k)
  then show ?case by (auto simp: accounted_def signals_host(1))
next
  case (call p h)
  then show ?case using signals_call [OF call.hyps(2)] by (auto simp: accounted_def lost_def)
next
  case (watch i p p')
  then have "i < length (watchers p)" "watcher_move i p = Some p'" by (simp_all add: watch_act_def)
  from this(2) show ?case
  proof (cases rule: watcher_moveE)
    case tell
    with watch.prems(1) \<open>i < _\<close> nth_mem have "False" by (fastforce simp: accounted_def)
    then show ?thesis ..
  qed (use watch.prems \<open>i < _\<close> in \<open>auto simp: accounted_def lost_def dest!: set_update_subset_insert [THEN subsetD]\<close>)
next
  case (tell p p')
  then have "\<forall>i < length (watchers p). watchers p ! i \<noteq> Telling" "sig p = Listening"
    unfolding accounted_def in_set_conv_nth by blast+
  with tell.hyps have "closers p > 0" "p' = p\<lparr>full := True, closers := closers p - 1\<rparr>" "\<not> full p"
    by (auto simp: tell_act_def tell_def split: if_split_asm)
  with tell.prems(1) show ?case by (simp add: accounted_def lost_def)
next
  case (main p p')
  then have "main_move D ns types p = Some p'" by (simp add: main_act_def)
  then show ?case
    by (cases rule: main_moveE) (use main.prems in \<open>auto simp: accounted_def lost_def started_def signals_kept split: sum.splits\<close>)
qed (auto simp: accounted_def lost_def signals_host(2))

text \<open>Only \<^verbatim>\<open>OnClose\<close> sends the signal, and when the nodes are counted it does so for the last one.\<close>

lemma last_node_signals:
  assumes "OnClose C g s = (r, s')" "counted s" "card (dom (handlers s)) < 2 ^ 32" "doneSignals s' \<noteq> doneSignals s"
  shows "dom (handlers s) = {g} \<and> handlers s' = Map.empty"
  using assms(1)
proof (cases rule: OnClose_cases)
  case (some nh)
  let ?k = "card (dom (handlers s))"
  have g: "g \<in> dom (handlers s)" "finite (dom (handlers s))" using some(1) assms(2) by (auto simp: counted_def)
  then have k: "0 < ?k" by (auto simp: card_gt_0_iff)
  have "nc s - 1 = 0" using assms(4) some(5) by (auto split: if_splits)
  then have "of_nat (?k - 1) = (0 :: 32 word)" using assms(2) k by (simp add: counted_def of_nat_diff)
  moreover have "of_nat n = (0 :: 32 word) \<longleftrightarrow> n = 0" if "n < 2 ^ 32" for n
    using that by (auto simp: word_of_nat_eq_0_iff dest: dvd_imp_le)
  from this [of "?k - 1"] have "of_nat (?k - 1) = (0 :: 32 word) \<longleftrightarrow> ?k - 1 = 0" using assms(3) by linarith
  ultimately have "?k = 1" using k by simp
  then obtain x where "dom (handlers s) = {x}" by (auto simp: card_1_singleton_iff)
  with g(1) have d: "dom (handlers s) = {g}" by auto
  have "dom (handlers s') = {}" unfolding some(2) using d by auto
  then show ?thesis using d by simp
qed (use assms(4) in simp)

lemma signal_source:
  assumes "process_step L pf C dec D ns types p q" "doneSignals (node_srv (host q)) \<noteq> doneSignals (node_srv (host p))"
  shows "\<exists>g r. OnClose C g (node_srv (host p)) = (r, node_srv (host q))"
  using assms
proof (induction rule: process_step.induct)
  case (call p h)
  from call.hyps(2) call.prems show ?case
  proof (cases rule: conn_call.cases)
    case (message n guid m r s)
    then have "same_registry (node_srv (host p)) s" using OnMessage_same by (cases r) blast
    then show ?thesis using message call.prems by (simp add: same_registry_def)
  qed (auto simp: signals_kept)
next
  case (watch i p p')
  then have "watcher_move i p = Some p'" by (simp add: watch_act_def)
  then show ?case using watch.prems by (auto simp: watcher_move_def tell_def split: watcher.splits option.splits if_split_asm)
next
  case (tell p p')
  then show ?case by (auto elim!: tell_actE)
next
  case (main p p')
  then have "main_move D ns types p = Some p'" by (simp add: main_act_def)
  then show ?case by (cases rule: main_moveE) (use main.prems in \<open>auto simp: signals_kept\<close>)
qed (auto simp: signals_host)

text \<open>The moment at which the last node was closed.\<close>

definition last_close :: "lib \<Rightarrow> platform \<Rightarrow> 'e node_code \<Rightarrow> (bytes \<Rightarrow> bytes res) \<Rightarrow> debug_env \<Rightarrow> string \<Rightarrow> reg_type list
    \<Rightarrow> 'e server \<Rightarrow> 'e process \<Rightarrow> bool" where
  "last_close L pf C dec D ns types s p \<longleftrightarrow> (\<exists>q1 q2 g r.
     (quiet_step L pf C dec D ns types)\<^sup>*\<^sup>* (new_process False s) q1 \<and> quiet_step L pf C dec D ns types q1 q2
     \<and> (quiet_step L pf C dec D ns types)\<^sup>*\<^sup>* q2 p \<and> OnClose C g (node_srv (host q1)) = (r, node_srv (host q2))
     \<and> dom (handlers (node_srv (host q1))) = {g} \<and> handlers (node_srv (host q2)) = Map.empty)"

lemma quiet_history:
  assumes "handlers s = Map.empty" "nc s = 0"
    and "(quiet_step L pf C dec D ns types)\<^sup>*\<^sup>* (new_process False s) p"
  shows "accounted (doneSignals s) p \<and> counted (node_srv (host p)) \<and> card (dom (handlers (node_srv (host p)))) < 2 ^ 32
    \<and> (doneSignals (node_srv (host p)) = doneSignals s \<or> last_close L pf C dec D ns types s p)"
  using assms(3)
proof (induction rule: rtranclp_induct)
  case base
  then show ?case using assms(1,2) by (simp add: accounted_def new_process_def new_conn_def started_def counted_def)
next
  case (step p q)
  have st: "process_step L pf C dec D ns types p q" "watchers q = [] \<or> \<not> lost q" "sig q = Listening"
    using step.hyps(2) by (simp_all add: quiet_step_def)
  have acc: "accounted (doneSignals s) q" using accounted_step [OF st(1) _ st(2,3)] step.IH by blast
  have c: "counted (node_srv (host q)) \<and> card (dom (handlers (node_srv (host q)))) < 2 ^ 32"
    using step.hyps(2) step.IH clean_rpc_counted counted_cong unfolding quiet_step_def Let_def by metis
  have "doneSignals (node_srv (host q)) = doneSignals s \<or> last_close L pf C dec D ns types s q"
  proof (cases "doneSignals (node_srv (host q)) = doneSignals (node_srv (host p))")
    case True
    then show ?thesis using step.IH rtranclp.rtrancl_into_rtrancl [of "quiet_step L pf C dec D ns types" _ p q, OF _ step.hyps(2)] unfolding last_close_def by metis
  next
    case False
    from signal_source [OF st(1) False] obtain g r where g: "OnClose C g (node_srv (host p)) = (r, node_srv (host q))" by blast
    with step.IH last_node_signals [OF g _ _ False] have
      "dom (handlers (node_srv (host p))) = {g}" "handlers (node_srv (host q)) = Map.empty" by blast+
    with step.hyps g show ?thesis unfolding last_close_def by blast
  qed
  with acc c show ?case by blast
qed

text \<open>
  C16. And not before: a process without a debugger whose connection stays up and that nobody interrupts goes on
  to serve the robot.  If guids are fresh and no node fails to start, it comes to its end, or the channel \<^verbatim>\<open>done\<close> to
  a value, only when the process panicked or when at an earlier step \<^verbatim>\<open>OnClose\<close> closed the last of its nodes, whatever else
  was called.
\<close>

theorem serves_until_last_close:
  assumes "handlers s = Map.empty" "nc s = 0"
    and "(quiet_step L pf C dec D ns types)\<^sup>*\<^sup>* (new_process False s) p"
    and "gone p \<or> full p \<or> mainPc p \<notin> {Registering, Waiting}"
  shows "panic (host p) \<noteq> None \<or> (\<exists>q1 q2 g r.
     (quiet_step L pf C dec D ns types)\<^sup>*\<^sup>* (new_process False s) q1 \<and> quiet_step L pf C dec D ns types q1 q2
     \<and> (quiet_step L pf C dec D ns types)\<^sup>*\<^sup>* q2 p \<and> OnClose C g (node_srv (host q1)) = (r, node_srv (host q2))
     \<and> dom (handlers (node_srv (host q1))) = {g} \<and> handlers (node_srv (host q2)) = Map.empty)"
proof -
  have h: "accounted (doneSignals s) p" "doneSignals (node_srv (host p)) = doneSignals s \<or> last_close L pf C dec D ns types s p"
    using quiet_history [OF assms(1-3)] by blast+
  from h(1) assms(4) have "panic (host p) \<noteq> None \<or> doneSignals (node_srv (host p)) \<noteq> doneSignals s"
    by (auto simp: accounted_def started_def gone_def split: if_split_asm)
  with h(2) show ?thesis unfolding last_close_def by blast
qed

text \<open>A whole life: the handshake, a node, its end, and the end of the process.\<close>

definition life_at :: "unit conn \<Rightarrow> bool \<Rightarrow> nat \<Rightarrow> main_pc \<Rightarrow> unit process" where
  "life_at h f n c = \<lparr>host = h, link = Some Ready, watchers = [Looking], full = f, closers = n, sig = Listening,
     attached = False, attacher = NoDebugger, attachedTo = [], mainPc = c\<rparr>"

definition no_info :: "(string \<times> goval) list res" where
  "no_info = Inl (Errorf ''robot'')"

definition demo_created :: "unit conn" where
  "demo_created = (let s = node_srv (demo_settled no_info) in
     demo_settled no_info\<lparr>node_srv := AddNodeHandler demo_code (demo_node ''a'') 3 s\<lparr>nc := nc s + 1\<rparr>\<rparr>)"

definition demo_closed :: "unit conn" where
  "demo_closed = demo_created\<lparr>node_srv := snd (OnClose demo_code ''a'' (node_srv demo_created))\<rparr>"

lemma life_sel [simp]: "host (life_at h f n c) = h" "watchers (life_at h f n c) = [Looking]" "link (life_at h f n c) = Some Ready"
  "full (life_at h f n c) = f" "closers (life_at h f n c) = n" "sig (life_at h f n c) = Listening" "mainPc (life_at h f n c) = c"
  "attached (life_at h f n c) = False" "lost (life_at h f n c) = False" "gone (life_at h f n c) = (c = Exited \<or> panic h \<noteq> None)"
  by (simp_all add: life_at_def lost_def gone_def)

lemma life_upd: "life_at h f n c\<lparr>host := h', closers := n'\<rparr> = life_at h' f n' c"
  "life_at h f n c\<lparr>host := h'\<rparr> = life_at h' f n c" "life_at h f n c\<lparr>full := f'\<rparr> = life_at h f' n c"
  "life_at h f n c\<lparr>closers := n'\<rparr> = life_at h f n' c" "life_at h f n c\<lparr>mainPc := c'\<rparr> = life_at h f n c'"
  by (simp_all add: life_at_def)

lemma settled_srv: "handlers (node_srv (demo_settled no_info)) = Map.empty" "nc (node_srv (demo_settled no_info)) = 0"
  "doneSignals (node_srv (demo_settled no_info)) = 0" "factories (node_srv (demo_settled no_info)) ''N'' = Some ''T''"
  "sessionMode (node_srv (demo_settled no_info)) = False"
  by (simp_all add: demo_settled_sel Init_def init_goroutine_def GetRobotInfo_def demo_server_def no_info_def)

lemma created_srv: "handlers (node_srv demo_created) = [''a'' \<mapsto> \<lparr>nhNode = demo_node ''a'', originalHandler = 3, hasTool = False\<rparr>]"
  "nc (node_srv demo_created) = 1" "doneSignals (node_srv demo_created) = 0" "sessionMode (node_srv demo_created) = False"
  "panic demo_created = None"
  using settled_srv by (simp_all add: demo_created_def Let_def AddNodeHandler_def demo_code_sel demo_settled_sel(3))

lemma closed_srv: "OnClose demo_code ''a'' (node_srv demo_created) = (None, node_srv demo_closed)"
  "handlers (node_srv demo_closed) = Map.empty" "nc (node_srv demo_closed) = 0" "doneSignals (node_srv demo_closed) = 1"
  "panic demo_closed = None"
  using created_srv by (simp_all add: demo_closed_def OnClose_def GetNodeHandler_def RemoveNodeHandler_def Let_def demo_code_def fun_eq_iff)

lemma closed_conn: "demo_created\<lparr>node_srv := node_srv demo_closed\<rparr> = demo_closed"
  by (simp add: demo_closed_def)

lemma life_quiet:
  assumes "process_step text_lib Posix demo_code Inr demo_debug ''ns'' [] p (life_at h f n c)"
    and "handlers (node_srv h) = handlers (node_srv (host p)) \<and> nc (node_srv h) = nc (node_srv (host p))
        \<and> doneSignals (node_srv h) = doneSignals (node_srv (host p))
      \<or> clean_rpc text_lib Posix demo_code Inr (node_srv (host p)) (node_srv h)"
    and "card (dom (handlers (node_srv h))) < 2 ^ 32"
  shows "quiet_step text_lib Posix demo_code Inr demo_debug ''ns'' [] p (life_at h f n c)"
  using assms by (simp add: quiet_step_def Let_def)

lemma routine_keeps: "handlers (node_srv (routine_step fetch i h)) = handlers (node_srv h) \<and> nc (node_srv (routine_step fetch i h)) = nc (node_srv h)"
proof -
  have "nc (init_goroutine fetch s) = nc s" for s :: "'a server"
    by (auto simp: init_goroutine_def GetRobotInfo_def Let_def split: prod.splits sum.splits option.splits if_splits)
  then show ?thesis by (simp add: routine_step_def no_handlers_goroutine split: routine.split option.split)
qed

lemma life_routine:
  assumes "panic h = None" "0 < length (routines h)" "handlers (node_srv h) = Map.empty"
  shows "quiet_step text_lib Posix demo_code Inr demo_debug ''ns'' [] (life_at h False 0 Waiting)
    (life_at (routine_step no_info 0 h) False 0 Waiting)"
proof (rule life_quiet)
  show "process_step text_lib Posix demo_code Inr demo_debug ''ns'' [] (life_at h False 0 Waiting) (life_at (routine_step no_info 0 h) False 0 Waiting)"
    using process_step.routine [of "life_at h False 0 Waiting" 0 text_lib Posix demo_code Inr demo_debug "''ns''" "[]" no_info] assms(1,2)
    by (simp add: life_upd)
qed (use assms(3) in \<open>simp_all add: routine_keeps signals_host(2)\<close>)

lemma demo_life_quiet:
  "(quiet_step text_lib Posix demo_code Inr demo_debug ''ns'' [])\<^sup>*\<^sup>* (new_process False (demo_server None))
     (life_at demo_closed False 0 Sleeping)"
proof -
  let ?q = "quiet_step text_lib Posix demo_code Inr demo_debug ''ns'' []" and ?n = "new_process False (demo_server None)"
    and ?s = "process_step text_lib Posix demo_code Inr demo_debug ''ns'' []"
    and ?r = "routine_step no_info 0" and ?i = "after_init (new_conn (demo_server None))"
  let ?w = "?n\<lparr>mainPc := Waiting\<rparr>"
  have ng: "\<not> gone ?n" "\<not> gone ?w" by (simp_all add: gone_def new_process_def new_conn_def)
  have "main_move demo_debug ''ns'' [] ?n = Some ?w"
    by (simp add: main_move_def new_process_def RegisterFactories_def)
  then have "?s ?n ?w" using ng by (intro process_step.main) (simp add: main_act_def)
  then have 1: "?q ?n ?w" by (simp add: quiet_step_def new_process_def new_conn_def demo_server_def Let_def)
  have "conn_Init None None None [] (host ?w) = (None, ?i)"
    by (simp add: handshake_defs new_process_def)
  from process_step.init [OF ng(2) this, of text_lib Posix demo_code Inr demo_debug "''ns''" "[]" Ready]
  have "?s ?w (life_at ?i False 0 Waiting)" by (simp add: link_Init_def new_process_def life_at_def)
  then have 2: "?q ?w (life_at ?i False 0 Waiting)"
    by (rule life_quiet) (simp_all add: handshake_defs new_process_def demo_server_def)
  have i: "panic ?i = None" "routines ?i = [Spawned]" "handlers (node_srv ?i) = Map.empty"
    "panic (?r ?i) = None" "routines (?r ?i) = [Fetching 0]" "panic (?r (?r ?i)) = None" "routines (?r (?r ?i)) = [Closing 0]"
    by (simp_all add: handshake_defs demo_server_def)
  have 3: "?q (life_at ?i False 0 Waiting) (life_at (?r ?i) False 0 Waiting)"
    "?q (life_at (?r ?i) False 0 Waiting) (life_at (?r (?r ?i)) False 0 Waiting)"
    "?q (life_at (?r (?r ?i)) False 0 Waiting) (life_at (demo_settled no_info) False 0 Waiting)"
    unfolding demo_settled_def by (rule life_routine; simp add: i routine_keeps)+
  have o: "OnCreate text_lib demo_code ''N'' (demo_cfg ''a'') (node_srv (demo_settled no_info)) = Return (None, node_srv demo_created)"
    using OnCreate_demo [OF settled_srv(4)] by (simp add: demo_created_def Let_def)
  have "fresh_config text_lib demo_code ''N'' (demo_cfg ''a'') (node_srv (demo_settled no_info))"
    "create_clean demo_code ''N'' (demo_cfg ''a'') (node_srv (demo_settled no_info))"
    using settled_srv by (auto simp: fresh_config_def create_clean_def demo_code_sel)
  from clean_rpc.create [OF o this] have cl: "clean_rpc text_lib Posix demo_code Inr (node_srv (demo_settled no_info)) (node_srv demo_created)" .
  have "conn_call text_lib Posix demo_code Inr (demo_settled no_info) demo_created"
    using conn_call.create [OF demo_settled_sel(4) o] by (simp add: demo_created_def Let_def)
  then have "?s (life_at (demo_settled no_info) False 0 Waiting) (life_at demo_created False 0 Waiting)"
    using process_step.call [of "life_at (demo_settled no_info) False 0 Waiting" text_lib Posix demo_code Inr demo_created demo_debug "''ns''" "[]"]
    by (simp add: demo_settled_sel(3) settled_srv created_srv life_upd)
  then have 4: "?q (life_at (demo_settled no_info) False 0 Waiting) (life_at demo_created False 0 Waiting)"
    by (rule life_quiet) (use cl in \<open>simp_all add: created_srv\<close>)
  have "conn_call text_lib Posix demo_code Inr demo_created demo_closed"
    using conn_call.close [OF closed_srv(1), of text_lib Posix Inr] unfolding closed_conn .
  then have "?s (life_at demo_created False 0 Waiting) (life_at demo_closed False 1 Waiting)"
    using process_step.call [of "life_at demo_created False 0 Waiting" text_lib Posix demo_code Inr demo_closed demo_debug "''ns''" "[]"]
    by (simp add: created_srv closed_srv life_upd)
  then have 5: "?q (life_at demo_created False 0 Waiting) (life_at demo_closed False 1 Waiting)"
    by (rule life_quiet) (use clean_rpc.close [OF closed_srv(1)] in \<open>simp_all add: closed_srv\<close>)
  have "?s (life_at demo_closed False 1 Waiting) (life_at demo_closed True 0 Waiting)"
    by (rule process_step.tell) (simp add: tell_act_def tell_def closed_srv life_upd)
  then have 6: "?q (life_at demo_closed False 1 Waiting) (life_at demo_closed True 0 Waiting)"
    by (rule life_quiet) (simp_all add: closed_srv)
  have "?s (life_at demo_closed True 0 Waiting) (life_at demo_closed False 0 Sleeping)"
    by (rule process_step.main) (simp add: main_act_def main_move_def closed_srv life_at_def gone_def)
  then have 7: "?q (life_at demo_closed True 0 Waiting) (life_at demo_closed False 0 Sleeping)"
    by (rule life_quiet) (simp_all add: closed_srv)
  from 1 2 3 4 5 6 7 show ?thesis by (meson rtranclp.rtrancl_into_rtrancl rtranclp.rtrancl_refl)
qed

theorem serves_until_last_close_witness:
  "\<exists>q1 q2 g r. (quiet_step text_lib Posix demo_code Inr demo_debug ''ns'' [])\<^sup>*\<^sup>* (new_process False (demo_server None)) q1
     \<and> OnClose demo_code g (node_srv (host q1)) = (r, node_srv (host q2)) \<and> dom (handlers (node_srv (host q1))) = {g}
     \<and> (quiet_step text_lib Posix demo_code Inr demo_debug ''ns'' [])\<^sup>*\<^sup>* q2 (life_at demo_closed False 0 Sleeping)"
proof -
  have "handlers (demo_server None) = Map.empty" "nc (demo_server None) = 0" by (simp_all add: demo_server_def)
  from serves_until_last_close [OF this demo_life_quiet] closed_srv(5) show ?thesis by auto
qed

end
