(* ===== verification/Packed_Message.thy ===== *)
theory Packed_Message
  imports Variables
begin

text \<open>
  The blob store seen from a node: a message that the sending side packed reaches the variables of the
  next node.  The typed getters resolve the one member they are asked for (\<^verbatim>\<open>LMOResolveSubtree\<close>), which
  is another way through the store than \<^verbatim>\<open>GetRaw\<close> takes; what they answer is the original value.
\<close>

text \<open>\<^verbatim>\<open>Result.Exists\<close> holds of every value that was found.\<close>

definition exists_law :: "lib \<Rightarrow> sem \<Rightarrow> bool" where
  "exists_law L D \<longleftrightarrow> (\<forall>r j. rep D r j \<longrightarrow> exists L r)"

lemma packed_not_zero: "packed L D st S w n j p \<Longrightarrow> \<exists>m. n = Suc m"
  by (cases n) (auto elim: packed_zero)

text \<open>A member that is no marker is answered as it is; a marker is followed once to the end.\<close>

lemma Resolve_member:
  assumes L: "lib_laws L D" and data: "den D b0 = Some (JObj kvs)" "path_key k" "map_of kvs k = Some q"
    and p: "packed L D st S w0 n v q" "no_ref D v" and w: "quiet_from w0 w"
  shows "\<exists>r q' w'. Resolve L pf st b0 k w = (Inr r, w') \<and> rep D r q' \<and> \<not> isref D q'
    \<and> packed L D st S w0 n v q' \<and> quiet_from w0 w'"
proof -
  have g: "exists L (get L b0 k)" "rep D (get L b0 k) q"
    using get_member [OF L data(1), of k] data(2,3) by (auto simp: path_key_def)
  note b = IsBlobRef_isref [OF L]
  show ?thesis
  proof (cases "isref D q")
    case False
    then show ?thesis using g b [OF g(2)] p(1) w by (auto simp: Resolve_def)
  next
    case True
    obtain m where n: "n = Suc m" using packed_not_zero [OF p(1)] by blast
    from p(1) show ?thesis
    proof (cases rule: packed.cases)
      case same
      with True no_ref_isref [OF p(2)] show ?thesis by simp
    next
      case (ref m' p' r0)
      have rr: "resolveRef L pf st (get L b0 k) w = (Inr (parse L (graw r0)), tick w)"
        using g(2) w ref by (intro resolveRef_marker [OF L]) auto
      have rp: "rep D (parse L (graw r0)) p'" using parse_rep [OF L] ref by (simp add: rep_def)
      then have "\<not> IsBlobRef L (parse L (graw r0))" using b [OF rp] ref by simp
      then have "fullyResolveRef L pf st (get L b0 k) w = (Inr (parse L (graw r0)), tick w)"
        using rr True b [OF g(2)] by (simp add: fullyResolveRef_def maxResolveDepth_def numeral_eq_Suc)
      moreover have "packed L D st S w0 n v p'" using ref n by (auto intro: packed_mono)
      ultimately show ?thesis
        using g True b [OF g(2)] rp ref quiet_tick [OF w] by (auto simp: Resolve_def)
    next
      case sub
      with True packed_sub_not_isref [OF L] show ?thesis by blast
    qed
  qed
qed

lemma packed_scalar_same:
  assumes "lib_laws L D" "packed L D st S w n j p" "\<not> container j" "\<not> isref D p"
  shows "p = j"
  using assms(2-4) by (auto elim: packed.cases dest: stands_forD)

text \<open>The whole member: the parts of it that are markers are resolved too.\<close>

lemma msg_get_packed:
  assumes L: "lib_laws L D" "exists_law L D" and data: "den D (raw_bytes msg) = Some (JObj kvs)" "path_key k"
    "map_of kvs k = Some q" and p: "packed L D st S w0 n v q" "no_ref D v" "wf_json v"
    and w: "quiet_from w0 w" and n: "n \<le> Suc m"
  shows "\<exists>r w'. msg_get m L pf (Some st) k msg w = Some (r, w') \<and> rep D r v \<and> quiet_from w0 w'"
proof -
  have k: "convertPath k = k" using data(2) by (simp add: path_key_def simple_key_convertPath)
  obtain r q' w1 where r: "Resolve L pf st (raw_bytes msg) k w = (Inr r, w1)" "rep D r q'" "\<not> isref D q'"
    "packed L D st S w0 n v q'" "quiet_from w0 w1"
    using Resolve_member [OF L(1) data p(1,2) w] by blast
  have ex: "rep D r' j \<Longrightarrow> exists L r'" for r' j using L(2) by (auto simp: exists_law_def)
  show ?thesis
  proof (cases "container q'")
    case True
    then have t: "gtype r = TJSON" using rep_type_json [OF r(2)] by simp
    have d: "den D (graw r) = Some q'" using r(2) by (simp add: rep_def)
    obtain out w2 where o: "ResolveAll m L pf st (graw r) w1 = Some (Inr out, w2)" "den D out = Some v" "quiet_from w0 w2"
      using ResolveAll_spec [OF L(1) r(4,3) d p(2,3) r(5) n] by blast
    have "rep D (parse L out) v" using parse_rep [OF L(1) o(2)] .
    then show ?thesis using r o t ex by (auto simp: msg_get_def LMOResolveSubtree_def LMOResolve_def k)
  next
    case False
    then have t: "gtype r \<noteq> TJSON" using rep_type_json [OF r(2)] by simp
    have "q' = v"
    proof (cases "container v")
      case True
      obtain n' where "n = Suc n'" using packed_not_zero [OF p(1)] by blast
      from packed_children [OF L(1) r(4) [unfolded this] p(2) True r(3)] False True show ?thesis
        by (auto simp: same_kind_def split: json.splits)
    qed (use packed_scalar_same [OF L(1) r(4)] r(3) in blast)
    then show ?thesis using r t ex by (auto simp: msg_get_def LMOResolveSubtree_def LMOResolve_def k)
  qed
qed

lemma msg_get_absent:
  assumes "lib_laws L D" "den D (raw_bytes msg) = Some (JObj kvs)" "path_key k" "map_of kvs k = None"
  shows "msg_get m L pf (Some st) k msg w = Some (no_result, w)"
proof -
  have k: "convertPath k = k" "simple_key k" using assms(3) by (auto simp: path_key_def simple_key_convertPath)
  then have "CHR ''.'' \<notin> set k" by (auto simp: simple_key_def list_all_iff plain_char_def Let_def)
  then have "splitPath k = [k]" by (simp add: splitPath_def)
  moreover have "\<not> exists L (get L (raw_bytes msg) k)" "get L (raw_bytes msg) k = no_result"
    using get_member [OF assms(1,2), of k] assms(3,4) by (auto simp: path_key_def)
  moreover have "\<not> exists L no_result" "gtype no_result \<noteq> TJSON"
    using lib_lawsD(5) [OF assms(1)] by (auto simp: scalar_law_def no_result_def)
  ultimately show ?thesis
    by (auto simp: msg_get_def LMOResolveSubtree_def LMOResolve_def Resolve_def k(1) Let_def)
qed

text \<open>What the variables read of a message in packed form.\<close>

lemma packed_document_reads:
  assumes "lib_laws (vlib E) D" "val_law (vlib E) D" "exists_law (vlib E) D"
    and "wf_json (JObj kvs)" "no_ref D (JObj kvs)"
    and "den D (raw_bytes msg) = Some q" "packed (vlib E) D st S w1 (depth (JObj kvs) + 2) (JObj kvs) q" "\<not> isref D q"
    and "keeps (vlib E) st S w1 (vfs s)" "faultless (vfs s)" "vstore s = Some st" "depth (JObj kvs) \<le> m" "path_key k"
  shows "(\<forall>v. map_of kvs k = Some v \<longrightarrow> (\<exists>r s'. rep D r v \<and> vget m E k msg s = Some (val (vlib E) r, s')))
    \<and> (\<forall>x. map_of kvs k = Some (JStr x) \<longrightarrow>
        (\<exists>s'. InVariable_Get m E TString \<lparr>vScope = ''Message'', vName = GStr k\<rparr> msg s = Some (Return (Inr (VStr x), s'))))
    \<and> (map_of kvs k = None \<longrightarrow>
        InVariable_Get m E T \<lparr>vScope = ''Message'', vName = GStr k\<rparr> msg s = Some (Return (Inr (VZero T), s)))"
proof -
  let ?L = "vlib E" and ?pf = "vplat E" and ?j = "JObj kvs" and ?v = "\<lparr>vScope = ''Message'', vName = GStr k\<rparr>"
  have q2: "packed ?L D st S (vfs s) (Suc (depth ?j + 1)) ?j q"
    using packed_world [OF assms(7)] assms(9) by (simp add: keeps_def)
  from packed_children [OF assms(1) q2 assms(5) _ assms(8)]
  obtain qs where qs: "q = JObj qs" "map fst qs = map fst kvs"
    "\<forall>i < length kvs. packed ?L D st S (vfs s) (depth ?j + 1) (snd (kvs ! i)) (snd (qs ! i))"
    by (cases q) (auto simp: same_kind_def dest: map_eq_imp_length_eq)
  note el = map_of_elementwise [OF qs(2,3), of k]
  have den: "den D (raw_bytes msg) = Some (JObj qs)" using assms(6) qs(1) by simp
  have quiet: "quiet_from (vfs s) (vfs s)" using assms(10) by (simp add: quiet_from_def)
  have present: "\<exists>r s'. rep D r v \<and> vget m E k msg s = Some (val ?L r, s')" if v: "map_of kvs k = Some v" for v
  proof -
    obtain q' where q': "map_of qs k = Some q'" "packed ?L D st S (vfs s) (depth ?j + 1) v q'"
      using el v by (auto simp del: depth.simps)
    have mem: "(k, v) \<in> set (children ?j)" using map_of_SomeD [OF v] by simp
    obtain r w' where "msg_get m ?L ?pf (Some st) k msg (vfs s) = Some (r, w')" "rep D r v"
      using msg_get_packed [OF assms(1,3) den assms(13) q' no_ref_child [OF assms(5) mem] wf_child [OF assms(4) mem] quiet]
        assms(12) by fastforce
    then show ?thesis by (auto simp: vget_def msg_Get_def assms(11))
  qed
  moreover have "\<exists>s'. InVariable_Get m E TString ?v msg s = Some (Return (Inr (VStr x), s'))"
    if "map_of kvs k = Some (JStr x)" for x
    using present [OF that] assms(2)
    by (auto simp: val_law_def InVariable_Get_def message_value_def convert_or_host_def IsBlobRefMap_def)
  moreover have "InVariable_Get m E T ?v msg s = Some (Return (Inr (VZero T), s))" if "map_of kvs k = None"
  proof -
    have "map_of qs k = None" using el that by simp
    then have "vget m E k msg s = Some (GNil, s)"
      using msg_get_absent [OF assms(1) den assms(13)] assms(2) by (simp add: vget_def msg_Get_def assms(11) val_law_def)
    then show ?thesis by (simp add: InVariable_Get_def message_value_def)
  qed
  ultimately show ?thesis by blast
qed

text \<open>
  A message that was packed for the way between two nodes reads like the original: whatever of it went
  to the blob store, an input variable of the next node answers for each member of the document what
  the getter answers for the value itself; a string arrives as itself, however long, and a name
  the message does not hold reads as the zero value.
\<close>

theorem packed_message_reads_original:
  assumes "lib_laws (vlib E) D" "val_law (vlib E) D" "exists_law (vlib E) D"
    and "den D payload = Some (JObj kvs)" "wf_json (JObj kvs)" "no_ref D (JObj kvs)"
    and "sound (vlib E) st S w" "big_parts (vlib E) (parse (vlib E) payload) \<subseteq> S" "depth (JObj kvs) \<le> n"
    and "msg_SetRaw [WithPack n (vlib E) (vplat E) (Some st)] (Some payload) msg w = Some (None, msg', w1)"
    and "keeps (vlib E) st S w1 (vfs s)" "faultless (vfs s)" "vstore s = Some st" "depth (JObj kvs) \<le> m" "path_key k"
  shows "(\<forall>v. map_of kvs k = Some v \<longrightarrow> (\<exists>r s'. rep D r v \<and> vget m E k msg' s = Some (val (vlib E) r, s')))
    \<and> (\<forall>x. map_of kvs k = Some (JStr x) \<longrightarrow>
        (\<exists>s'. InVariable_Get m E TString \<lparr>vScope = ''Message'', vName = GStr k\<rparr> msg' s = Some (Return (Inr (VStr x), s'))))
    \<and> (map_of kvs k = None \<longrightarrow>
        InVariable_Get m E T \<lparr>vScope = ''Message'', vName = GStr k\<rparr> msg' s = Some (Return (Inr (VZero T), s)))"
proof -
  obtain p where p: "Pack n (vlib E) (vplat E) st payload w = Some (Inr p, w1)" "raw_bytes msg' = p"
    using assms(10)
    by (auto simp: msg_SetRaw_def setRaw_def WithPack_def LMOPack_def lift_raw_def raw_bytes_def split: option.splits sum.splits)
  have "pack_inv (vlib E) st S True w" using assms(7) by (simp add: pack_inv_def)
  from Pack_spec [OF assms(1,4,5) no_ref_isref [OF assms(6)] assms(8,9) this, of "vplat E"] p
  obtain q where q: "den D (raw_bytes msg') = Some q" "packed (vlib E) D st S w1 (depth (JObj kvs) + 2) (JObj kvs) q" "\<not> isref D q"
    by auto
  from packed_document_reads [OF assms(1-3,5,6) q assms(11-15)] show ?thesis .
qed

lemma text_exists_law: "exists_law text_lib text_sem"
  by (auto simp: exists_law_def rep_def text_lib_def text_sem_def json_den_def)

theorem packed_message_reads_original_witness:
  "\<exists>msg' w1 s'.
     msg_SetRaw [WithPack 1 text_lib Posix (Some demo_store)] (Some (print_json demo_doc)) \<lparr>ID = [], data = None\<rparr> demo_os
       = Some (None, msg', w1)
   \<and> InVariable_Get 2 demo_env TString \<lparr>vScope = ''Message'', vName = GStr ''a''\<rparr> msg' \<lparr>vstore = Some demo_store, vfs = w1\<rparr>
       = Some (Return (Inr (VStr (replicate 5000 (CHR ''x''))), s'))"
proof -
  obtain out w1 where p: "Pack 1 text_lib Posix demo_store (print_json demo_doc) demo_os = Some (Inr out, w1)"
    "healthy w1" using demo_packed by blast
  let ?m = "\<lparr>ID = [], data = None\<rparr>" and ?s = "\<lparr>vstore = Some demo_store, vfs = w1\<rparr>"
  have s: "msg_SetRaw [WithPack 1 text_lib Posix (Some demo_store)] (Some (print_json demo_doc)) ?m demo_os
      = Some (None, ?m\<lparr>data := Some out\<rparr>, w1)"
    using p(1) by (simp add: msg_SetRaw_def setRaw_def WithPack_def LMOPack_def lift_raw_def)
  have e: "vlib demo_env = text_lib" "vplat demo_env = Posix" by (simp_all add: demo_env_def)
  have f: "faultless (vfs ?s)" using p(2) by (simp add: healthy_def)
  have d: "demo_doc = JObj [(''a'', demo_str)]" by (simp add: demo_doc_def)
  have k: "path_key ''a''" by (simp add: path_key_def simple_key_def plain_char_def is_digit_def)
  from packed_message_reads_original [where E = demo_env and D = text_sem and s = ?s and msg' = "?m\<lparr>data := Some out\<rparr>"
      and m = 2 and k = "''a''", unfolded e, OF text_lib_laws text_val_law text_exists_law demo_den [unfolded d]
      demo_json(3,4) [unfolded d] demo_sound demo_parts [unfolded d] _ s [unfolded d] _ f _ _ k] 
  show ?thesis using s demo_json(5) [unfolded d] by (auto simp: keeps_refl demo_str_def)
qed

end
