(* ===== verification/Packed_Value.thy ===== *)
theory Packed_Value
  imports Packed_Message
begin

text \<open>
  Large values of output variables.  \<^verbatim>\<open>OutVariable.Set\<close> writes the value as JSON, packs it, and decodes the
  packed text into a Go value again (\<^verbatim>\<open>PackValue\<close>), which sjson encodes once more when it sets the
  member.  The trip through the Go value may order the members anew and spell the numbers anew, also
  those of the markers.  The theory shows that the reader still gets the value.
\<close>

section \<open>The same document written anew\<close>

text \<open>
  Equal up to the order of the members and the spelling of the numbers (\<open>N\<close>).  The elements of an array
  are its children under their indices, so they keep their places.
\<close>

inductive recoded :: "(string \<Rightarrow> string \<Rightarrow> bool) \<Rightarrow> json \<Rightarrow> json \<Rightarrow> bool" for N where
  leaf: "\<not> container j \<Longrightarrow> recoded N j j"
| num: "N a b \<Longrightarrow> recoded N (JNum a) (JNum b)"
| node: "same_kind j j' \<Longrightarrow> distinct (map fst (children j)) \<Longrightarrow> distinct (map fst (children j')) \<Longrightarrow>
    fst ` set (children j) = fst ` set (children j') \<Longrightarrow>
    (\<forall>k v v'. map_of (children j) k = Some v \<longrightarrow> map_of (children j') k = Some v' \<longrightarrow> recoded N v v') \<Longrightarrow>
    recoded N j j'"

inductive_cases recoded_strE: "recoded N (JStr x) j'"

lemma same_kind_container: "same_kind j j' \<Longrightarrow> container j \<and> container j'"
  by (auto simp: same_kind_def split: json.splits)

lemma recoded_str [simp]: "recoded N (JStr x) j' \<longleftrightarrow> j' = JStr x"
  by (auto intro: leaf elim!: recoded_strE simp: same_kind_def)

lemma recoded_obj:
  assumes "recoded N (JObj kvs) j'"
  obtains kvs' where "j' = JObj kvs'" "\<And>k. rel_option (recoded N) (map_of kvs k) (map_of kvs' k)"
proof -
  from assms show thesis
  proof cases
    case node
    then obtain kvs' where j': "j' = JObj kvs'" by (auto simp: same_kind_def split: json.splits)
    have "map_of kvs k = None \<longleftrightarrow> map_of kvs' k = None" for k
      using node(4) by (simp add: j' map_of_eq_None_iff)
    then have "rel_option (recoded N) (map_of kvs k) (map_of kvs' k)" for k
      using node(5) by (cases "map_of kvs k"; cases "map_of kvs' k") (auto simp: j', metis option.distinct(1))
    with j' that show thesis by blast
  qed simp
qed

lemma recoded_node:
  assumes "recoded N j j'" "container j"
  shows "same_kind j j'" "distinct (map fst (children j'))" "fst ` set (children j) = fst ` set (children j')"
    "map_of (children j) k = Some v \<Longrightarrow> map_of (children j') k = Some v' \<Longrightarrow> recoded N v v'"
  using assms(1) by (cases; use assms(2) in auto)+

text \<open>Every child of the one is a child of the other, written anew.\<close>

lemma recoded_child:
  assumes "recoded N j j'" "(k, v') \<in> set (children j')"
  shows "\<exists>v. (k, v) \<in> set (children j) \<and> recoded N v v'"
  using assms(1)
proof cases
  case leaf
  with assms(2) show ?thesis by (cases j) auto
next
  case num
  with assms(2) show ?thesis by simp
next
  case node
  have "k \<in> fst ` set (children j)" using assms(2) node(4) by force
  then obtain v where "(k, v) \<in> set (children j)" by auto
  with node assms(2) show ?thesis by (metis map_of_is_SomeI)
qed

lemma recoded_kind: "recoded N j j' \<Longrightarrow> (container j \<longleftrightarrow> container j') \<and> (container j \<longrightarrow> same_kind j j')"
  by (induction rule: recoded.induct) (auto dest: same_kind_container)

lemma recoded_refl: "wf_json j \<Longrightarrow> recoded N j j"
proof (induction "depth j" arbitrary: j rule: less_induct)
  case less
  show ?case
  proof (cases "container j")
    case True
    have d: "distinct (map fst (children j))" using keys_distinct [OF wf_json_keys [OF less.prems]] .
    have "recoded N v v" if "map_of (children j) k = Some v" for k v
      using map_of_SomeD [OF that] less.hyps [OF depth_child] wf_child [OF less.prems] by blast
    then show ?thesis using True d by (intro node) (auto simp: same_kind_refl)
  qed (rule leaf)
qed

lemma recoded_depth: "recoded N j j' \<Longrightarrow> depth j' \<le> depth j"
proof (induction rule: recoded.induct)
  case (node j j')
  obtain d where d: "depth j = Suc d" using same_kind_container [OF node.hyps(1)] by (cases j) auto
  have "depth v' \<le> d" if v': "(k, v') \<in> set (children j')" for k v'
  proof -
    have "k \<in> fst ` set (children j)" using v' node.hyps(4) by force
    then obtain v where v: "(k, v) \<in> set (children j)" by auto
    with v' node.hyps(2,3) node.IH have "depth v' \<le> depth v" by (metis map_of_is_SomeI)
    with depth_child [OF v] d show ?thesis by simp
  qed
  then show ?case unfolding d by (intro depth_le_child) auto
qed simp_all

lemma wf_json_iff: "wf_json j \<longleftrightarrow> wf_keys j \<and> (\<forall>(k, v) \<in> set (children j). wf_json v)"
proof
  show "wf_json j \<Longrightarrow> wf_keys j \<and> (\<forall>(k, v) \<in> set (children j). wf_json v)"
    using wf_json_keys wf_child by blast
  assume a: "wf_keys j \<and> (\<forall>(k, v) \<in> set (children j). wf_json v)"
  show "wf_json j"
  proof (cases j)
    case (JArr vs)
    have "wf_json (vs ! i)" if "i < length vs" for i
      using a that by (force simp: JArr enumerate_eq_zip set_zip)
    then show ?thesis by (simp add: JArr list_all_length)
  qed (use a in \<open>auto simp: list_all_iff\<close>)
qed

lemma wf_keys_same:
  assumes "same_kind a b" "distinct (map fst (children b))" "fst ` set (children a) = fst ` set (children b)" "wf_keys a"
  shows "wf_keys b"
  using assms by (cases a; cases b) (auto simp: same_kind_def list_all_iff)

lemma recoded_wf: "recoded N j j' \<Longrightarrow> wf_json j \<Longrightarrow> wf_json j'"
proof (induction rule: recoded.induct)
  case (node j j')
  have "wf_keys j'" using wf_keys_same node.hyps(1,3,4) wf_json_keys [OF node.prems] .
  moreover have "wf_json v'" if v': "(k, v') \<in> set (children j')" for k v'
  proof -
    have "k \<in> fst ` set (children j)" using v' node.hyps(4) by force
    then obtain v where v: "(k, v) \<in> set (children j)" by auto
    with v' node.hyps(2,3) node.IH wf_child [OF node.prems v] show ?thesis by (metis map_of_is_SomeI)
  qed
  ultimately show ?case by (subst wf_json_iff) auto
qed simp_all

section \<open>Markers written anew\<close>

text \<open>The new spelling of a number must not make or unmake the magic number.\<close>

definition keeps_magic :: "sem \<Rightarrow> (string \<Rightarrow> string \<Rightarrow> bool) \<Rightarrow> bool" where
  "keeps_magic D N \<longleftrightarrow> (\<forall>a b. N a b \<longrightarrow> (jint D (JNum a) = Magic \<longleftrightarrow> jint D (JNum b) = Magic))"

lemma recoded_scalars:
  assumes "lib_laws L D" "keeps_magic D N" "recoded N v v'"
  shows "(jint D v = Magic \<longleftrightarrow> jint D v' = Magic) \<and> (str_nonempty v \<longleftrightarrow> str_nonempty v')"
  using assms(3)
proof cases
  case node
  then have c: "container v" "container v'" by (auto dest: same_kind_container)
  then have "jint D v = 0" "jint D v' = 0" using scalar_laws(7) [OF assms(1)] by auto
  with c show ?thesis by (cases v; cases v') (auto simp: Magic_def)
qed (use assms(2) in \<open>auto simp: keeps_magic_def\<close>)

lemma recoded_isref:
  assumes "lib_laws L D" "keeps_magic D N" "recoded N j j'"
  shows "isref D j \<longleftrightarrow> isref D j'"
proof (cases j)
  case (JObj kvs)
  obtain kvs' where j': "j' = JObj kvs'" and r: "\<And>k. rel_option (recoded N) (map_of kvs k) (map_of kvs' k)"
    using assms(3) by (auto simp: JObj elim: recoded_obj)
  from r [of "''__magic''"] r [of "''__ref''"] recoded_scalars [OF assms(1,2)] show ?thesis
    by (auto simp: isref_def JObj j' option_rel_Some1 option_rel_Some2 split: option.splits)
next
  case (JArr vs)
  with recoded_kind [OF assms(3)] show ?thesis by (cases j') (auto simp: isref_def same_kind_def)
qed (use recoded_kind [OF assms(3)] in \<open>cases j'; auto simp: isref_def\<close>)+

lemma no_ref_iff: "no_ref D j \<longleftrightarrow> \<not> isref D j \<and> (\<forall>(k, v) \<in> set (children j). no_ref D v)"
proof
  show "no_ref D j \<Longrightarrow> \<not> isref D j \<and> (\<forall>(k, v) \<in> set (children j). no_ref D v)"
    using no_ref_isref no_ref_child by blast
  assume a: "\<not> isref D j \<and> (\<forall>(k, v) \<in> set (children j). no_ref D v)"
  show "no_ref D j"
  proof (cases j)
    case (JArr vs)
    have "no_ref D (vs ! i)" if "i < length vs" for i
      using a that by (force simp: JArr enumerate_eq_zip set_zip)
    then show ?thesis by (simp add: JArr list_all_length)
  qed (use a in \<open>auto simp: list_all_iff\<close>)
qed

lemma recoded_no_ref:
  assumes "lib_laws L D" "keeps_magic D N"
  shows "recoded N j j' \<Longrightarrow> no_ref D j \<Longrightarrow> no_ref D j'"
proof (induction "depth j'" arbitrary: j j' rule: less_induct)
  case less
  have "no_ref D v'" if v': "(k, v') \<in> set (children j')" for k v'
    using recoded_child [OF less.prems(1) v'] less.hyps [OF depth_child [OF v']] no_ref_child [OF less.prems(2)] by blast
  moreover have "\<not> isref D j'" using recoded_isref [OF assms less.prems(1)] no_ref_isref [OF less.prems(2)] by simp
  ultimately show ?case by (subst no_ref_iff) auto
qed

lemma recoded_stands:
  assumes "lib_laws L D" "keeps_magic D N" "recoded N m m'" "stands_for D st ref m"
  shows "stands_for D st ref m'"
proof -
  obtain kvs where m: "m = JObj kvs" "map_of kvs ''__ref'' = Some (JStr ref)" "map_of kvs ''__path'' = Some (JStr (relPath st))"
    using assms(4) by (auto simp: stands_for_def)
  obtain kvs' where m': "m' = JObj kvs'" and r: "\<And>k. rel_option (recoded N) (map_of kvs k) (map_of kvs' k)"
    using assms(3) by (auto simp: m elim: recoded_obj)
  have "map_of kvs' ''__ref'' = Some (JStr ref)" "map_of kvs' ''__path'' = Some (JStr (relPath st))"
    using r [of "''__ref''"] r [of "''__path''"] m by (auto simp: option_rel_Some1)
  then show ?thesis using assms recoded_isref [OF assms(1-3)] recoded_wf [OF assms(3)] recoded_depth [OF assms(3)]
    by (auto simp: stands_for_def m')
qed

section \<open>A packed document written anew\<close>

text \<open>The container with other values under the same keys.\<close>

fun with_values :: "(string \<Rightarrow> json) \<Rightarrow> json \<Rightarrow> json" where
  "with_values f (JObj kvs) = JObj (map (\<lambda>(k, v). (k, f k)) kvs)"
| "with_values f (JArr vs) = JArr (map (\<lambda>(k, v). f k) (children (JArr vs)))"
| "with_values f j = j"

lemma children_with_values: "children (with_values f j) = map (\<lambda>(k, v). (k, f k)) (children j)"
  by (cases j) (auto simp: enumerate_eq_zip intro!: nth_equalityI)

lemma map_of_with_values: "map_of (map (\<lambda>(k, v). (k, f k)) xs) k = map_option (\<lambda>u. f k) (map_of xs k)"
  by (induction xs) auto

lemma same_kind_with_values: "container j \<Longrightarrow> same_kind j (with_values f j)"
  by (cases j) (auto simp: same_kind_def)

text \<open>A document whose children can be written anew, in the order of the keys of \<open>q\<close>.\<close>

lemma recode_children:
  assumes c: "container j" "wf_json j" "same_kind j q" "distinct (map fst (children q))"
    and keys: "fst ` set (children q) = fst ` set (children j)"
    and step: "\<And>k v u. map_of (children j) k = Some v \<Longrightarrow> map_of (children q) k = Some u \<Longrightarrow> \<exists>v'. recoded N v v' \<and> P v' u"
  shows "\<exists>j'. recoded N j j' \<and> same_kind j' q \<and> map fst (children j') = map fst (children q)
    \<and> (\<forall>i < length (children j'). P (snd (children j' ! i)) (snd (children q ! i)))"
proof -
  define R where "R k v' \<longleftrightarrow> (\<forall>v u. map_of (children j) k = Some v \<longrightarrow> map_of (children q) k = Some u \<longrightarrow>
      recoded N v v' \<and> P v' u)" for k v'
  have "\<exists>v'. R k v'" for k
    using step [of k] by (cases "map_of (children j) k"; cases "map_of (children q) k") (auto simp: R_def)
  then obtain f where f: "\<And>k. R k (f k)" by metis
  let ?j' = "with_values f q"
  have fst: "map fst (children ?j') = map fst (children q)" by (simp add: children_with_values comp_def split_def)
  have sk: "same_kind q ?j'" "same_kind ?j' q"
    using same_kind_with_values [of q f] same_kind_container [OF c(3)] by (auto simp: same_kind_def split: json.splits)
  have "recoded N j ?j'"
  proof (rule recoded.node [OF same_kind_trans [OF c(3) sk(1)] keys_distinct [OF wf_json_keys [OF c(2)]]])
    show "distinct (map fst (children ?j'))" "fst ` set (children j) = fst ` set (children ?j')"
      using fst c(4) keys by (metis list.set_map)+
    show "\<forall>k v v'. map_of (children j) k = Some v \<longrightarrow> map_of (children ?j') k = Some v' \<longrightarrow> recoded N v v'"
      using f by (auto simp: children_with_values map_of_with_values R_def)
  qed
  moreover have "P (snd (children ?j' ! i)) (snd (children q ! i))" if "i < length (children ?j')" for i
  proof -
    have i: "i < length (children q)" using that by (simp add: children_with_values)
    obtain k u where k: "children q ! i = (k, u)" by fastforce
    have u: "map_of (children q) k = Some u" using i k c(4) by (metis map_of_is_SomeI nth_mem)
    then obtain v where "map_of (children j) k = Some v" using keys by (metis map_of_eq_None_iff not_Some_eq)
    with f [of k] u k i show ?thesis by (simp add: R_def children_with_values)
  qed
  ultimately show ?thesis using sk(2) fst by blast
qed

text \<open>
  What a packed document stands for does not depend on how it is written: written anew it is a packed
  form of the document written anew.  The blobs keep their bytes.
\<close>

lemma packed_recoded:
  assumes L: "lib_laws L D" "keeps_magic D N"
  shows "packed L D st S w n j q \<Longrightarrow> wf_json j \<Longrightarrow> recoded N q q' \<Longrightarrow> \<exists>j'. recoded N j j' \<and> packed L D st S w n j' q'"
proof (induction arbitrary: q' rule: packed.induct)
  case (same j n)
  then have "packed L D st S w n q' q'" using recoded_depth [OF same(3)] by (intro packed.same) simp
  with same show ?case by blast
next
  case (ref n j p r m)
  then have "packed L D st S w (Suc n) j q'" using recoded_stands [OF L] by (intro packed.ref) auto
  with recoded_refl [OF ref.prems(1)] show ?case by blast
next
  case (sub j p n)
  let ?P = "\<lambda>v u. packed L D st S w n v u \<and> (\<forall>u'. wf_json v \<longrightarrow> recoded N u u' \<longrightarrow> (\<exists>v'. recoded N v v' \<and> packed L D st S w n v' u'))"
  have el: "case map_of (children j) k of None \<Rightarrow> map_of (children p) k = None
      | Some v \<Rightarrow> (\<exists>u. map_of (children p) k = Some u \<and> ?P v u)" for k
    by (rule map_of_elementwise) (use sub in auto)
  note q' = recoded_node [OF sub.prems(2) conjunct2 [OF same_kind_container [OF sub.hyps(2)]]]
  have keys: "fst ` set (children q') = fst ` set (children j)" using q'(3) sub.hyps(4) by (metis list.set_map)
  have step: "\<exists>v'. recoded N v v' \<and> packed L D st S w n v' u'"
    if v: "map_of (children j) k = Some v" and u': "map_of (children q') k = Some u'" for k v u'
  proof -
    obtain u where u: "map_of (children p) k = Some u" "?P v u" using el [of k] v by auto
    then show ?thesis using q'(4) [OF u(1) u'] wf_child [OF sub.prems(1) map_of_SomeD [OF v]] by blast
  qed
  obtain j' where j': "recoded N j j'" "same_kind j' q'" "map fst (children j') = map fst (children q')"
    "\<forall>i < length (children j'). packed L D st S w n (snd (children j' ! i)) (snd (children q' ! i))"
    using recode_children [where P = "packed L D st S w n" and N = N,
      OF sub.hyps(1) sub.prems(1) same_kind_trans [OF sub.hyps(2) q'(1)] q'(2) keys] step by blast
  have "packed L D st S w (Suc n) j' q'"
    using j' recoded_isref [OF L j'(1)] sub.hyps(3) same_kind_container [OF j'(2)] by (intro packed.sub) auto
  with j'(1) show ?case by blast
qed

lemma packed_wf: "packed L D st S w n j p \<Longrightarrow> wf_json j \<Longrightarrow> wf_json p"
proof (induction rule: packed.induct)
  case (sub j p n)
  have "distinct (map fst (children p))" "fst ` set (children j) = fst ` set (children p)"
    using keys_distinct [OF wf_json_keys [OF sub.prems]] sub.hyps(4) by (metis list.set_map)+
  then have "wf_keys p" using wf_keys_same [OF sub.hyps(2)] wf_json_keys [OF sub.prems] by blast
  moreover have "wf_json v" if v: "(k, v) \<in> set (children p)" for k v
  proof -
    obtain i where i: "i < length (children p)" "children p ! i = (k, v)" using v by (metis in_set_conv_nth)
    then have "i < length (children j)" using sub.hyps(4) by (metis length_map)
    with sub.IH wf_child [OF sub.prems, of "fst (children j ! i)" "snd (children j ! i)"]
    have "wf_json (snd (children p ! i))" by simp
    with i(2) show ?thesis by simp
  qed
  ultimately show ?case by (subst wf_json_iff) auto
qed (auto simp: stands_for_def)

section \<open>Through a Go value and back\<close>

text \<open>
  What gjson documents of \<^verbatim>\<open>Result.Value\<close>: a number is its float64, and \<^verbatim>\<open>Int\<close> is the integral part of the
  float64 if that is below 2 ^ 53; an object is the map of the values of its members.
\<close>

definition value_law :: "lib \<Rightarrow> sem \<Rightarrow> bool" where
  "value_law L D \<longleftrightarrow>
     (\<forall>r. rep D r JNull \<longrightarrow> val L r = GNil) \<and> (\<forall>r b. rep D r (JBool b) \<longrightarrow> val L r = GBool b) \<and>
     (\<forall>r s. rep D r (JStr s) \<longrightarrow> val L r = GStr s) \<and>
     (\<forall>r a. rep D r (JNum a) \<longrightarrow> (\<exists>f. val L r = GFloat f \<and>
        (\<forall>i. \<bar>i\<bar> < 2 ^ 53 \<longrightarrow> (jint D (JNum a) = i \<longleftrightarrow> trunc_f64 f = i)))) \<and>
     (\<forall>r vs. rep D r (JArr vs) \<longrightarrow> (\<exists>gs. val L r = GList gs)) \<and>
     (\<forall>r kvs. rep D r (JObj kvs) \<longrightarrow> (\<exists>gs. val L r = GMap gs \<and> map fst gs = map fst kvs \<and>
        (\<forall>k v. map_of kvs k = Some v \<longrightarrow> (\<exists>r'. rep D r' v \<and> map_of gs k = Some (val L r')))))"

text \<open>Two spellings of one float64.\<close>

definition same_number :: "lib \<Rightarrow> sem \<Rightarrow> string \<Rightarrow> string \<Rightarrow> bool" where
  "same_number L D a b \<longleftrightarrow> (\<exists>r r'. rep D r (JNum a) \<and> rep D r' (JNum b) \<and> val L r = val L r')"

text \<open>
  \<^verbatim>\<open>json.Unmarshal\<close> into an empty interface and \<^verbatim>\<open>json.Marshal\<close> of the result: an object becomes a map, an
  array a slice, and the text written back is the same document up to the order of the members and the
  spelling of the numbers.
\<close>

fun is_container :: "goval \<Rightarrow> bool" where
  "is_container (GMap m) = True"
| "is_container (GList vs) = True"
| "is_container v = False"

definition recode_law :: "lib \<Rightarrow> json_lib \<Rightarrow> sem \<Rightarrow> bool" where
  "recode_law L J D \<longleftrightarrow> (\<forall>b j. den D b = Some j \<longrightarrow> wf_json j \<longrightarrow> container j \<longrightarrow>
     (\<exists>g d v. unmarshal J b = Inr g \<and> is_container g \<and> marshal J g = Inr d \<and> den D d = Some v
        \<and> recoded (same_number L D) j v))"

text \<open>sjson sets a map or a slice as the text that \<^verbatim>\<open>json.Marshal\<close> gives: it replaces the member or appends one.\<close>

definition set_container_law :: "lib \<Rightarrow> json_lib \<Rightarrow> sem \<Rightarrow> bool" where
  "set_container_law L J D \<longleftrightarrow> (\<forall>b kvs k g d v. members D b = Some kvs \<longrightarrow> path_key k \<longrightarrow>
     is_container g \<longrightarrow> marshal J g = Inr d \<longrightarrow> den D d = Some v \<longrightarrow>
     (\<exists>b'. set_val L b k g = (b', None) \<and> den D b' = Some (JObj (AList.update k v kvs))))"

lemma same_number_magic:
  assumes "value_law L D"
  shows "keeps_magic D (same_number L D)"
proof -
  have m: "jint D (JNum a) = Magic \<longleftrightarrow> (\<exists>f. val L r = GFloat f \<and> trunc_f64 f = Magic)" if "rep D r (JNum a)" for r a
    using assms that unfolding value_law_def by (fastforce simp: Magic_def)
  show ?thesis by (auto simp: keeps_magic_def same_number_def m)
qed

text \<open>A value that the code takes for a marker is one.\<close>

lemma IsBlobRefMap_val:
  assumes V: "value_law L D" and r: "rep D r j" and b: "IsBlobRefMap (val L r)"
  shows "isref D j"
proof -
  obtain gs where gs: "val L r = GMap gs" using b by (cases "val L r") (auto simp: IsBlobRefMap_def)
  obtain kvs where j: "j = JObj kvs" using V r gs unfolding value_law_def by (cases j) fastforce+
  have mem: "\<exists>v r'. map_of kvs k = Some v \<and> rep D r' v \<and> g = val L r'" if "map_of gs k = Some g" for k g
    using V r gs that unfolding value_law_def j
    by (metis goval.inject(6) list.set_map map_of_eq_None_iff not_Some_eq option.inject)
  obtain f where f: "map_of gs ''__magic'' = Some (GFloat f)" "trunc_f64 f = Magic"
    using b by (auto simp: IsBlobRefMap_def gs map_get_def Let_def Magic_def trunc_f64_def split: option.splits elim!: as_float.elims)
  obtain x where x: "map_of gs ''__ref'' = Some (GStr x)" "x \<noteq> []"
    using b by (auto simp: IsBlobRefMap_def gs map_get_def Let_def split: option.splits elim!: as_str.elims)
  obtain v r1 where v: "map_of kvs ''__magic'' = Some v" "rep D r1 v" "GFloat f = val L r1" using mem [OF f(1)] by blast
  obtain u r2 where u: "map_of kvs ''__ref'' = Some u" "rep D r2 u" "GStr x = val L r2" using mem [OF x(1)] by blast
  have "jint D v = Magic" using V v(2,3) f(2) unfolding value_law_def by (cases v) (fastforce simp: Magic_def)+
  moreover have "str_nonempty u" using V u(2,3) x(2) unfolding value_law_def by (cases u) fastforce+
  ultimately show ?thesis using v(1) u(1) by (simp add: isref_def j)
qed

lemma val_not_nil: "value_law L D \<Longrightarrow> rep D r j \<Longrightarrow> container j \<Longrightarrow> val L r \<noteq> GNil"
  by (cases j) (fastforce simp: value_law_def)+

section \<open>Writing a large value\<close>

text \<open>
  \<^verbatim>\<open>PackValue\<close> fails only if the environment does (\<open>E\<close>); otherwise the value goes inline, or is replaced by
  a Go value made of a packed form of it.
\<close>

lemma PackValue_spec:
  assumes L: "lib_laws L D" "recode_law L J D" and v: "marshal J value = Inr d" "den D d = Some j"
    and j: "container j" "wf_json j" "no_ref D j" and S: "big_parts L (parse L d) \<subseteq> S" "depth j \<le> n" and w: "pack_inv L st S E w"
  shows "\<exists>res w'. PackValue n L J pf value (Some st) w = Some (res, w') \<and> pack_inv L st S E w' \<and> keeps L st S w w'
    \<and> (case res of Inl e \<Rightarrow> E | Inr None \<Rightarrow> True
       | Inr (Some g) \<Rightarrow> \<exists>b q. den D b = Some q \<and> unmarshal J b = Inr g \<and> container q \<and> wf_json q
           \<and> packed L D st S w' (depth j + 2) j q \<and> \<not> isref D q)"
proof -
  obtain res w' where p: "Pack n L pf st d w = Some (res, w')" "pack_inv L st S E w'" "keeps L st S w w'"
    "case res of Inl e \<Rightarrow> E | Inr out \<Rightarrow> \<exists>q. den D out = Some q \<and> packed L D st S w' (depth j + 2) j q \<and> \<not> isref D q"
    using Pack_spec [OF L(1) v(2) j(2) no_ref_isref [OF j(3)] S w] by blast
  show ?thesis
  proof (cases res)
    case (Inl e)
    with p v(1) w keeps_refl show ?thesis by (auto simp: PackValue_def)
  next
    case (Inr out)
    then obtain q where q: "den D out = Some q" "packed L D st S w' (Suc (depth j + 1)) j q" "\<not> isref D q" using p(4) by auto
    have k: "container q" using packed_children [OF L(1) q(2) j(3,1) q(3)] by (auto dest: same_kind_container)
    have wf: "wf_json q" using packed_wf [OF q(2) j(2)] .
    obtain g where g: "unmarshal J out = Inr g" using L(2) q(1) k wf unfolding recode_law_def by blast
    show ?thesis using p(1,2,3) v(1) w keeps_refl q k wf Inr g
      by (auto simp: PackValue_def)
  qed
qed

text \<open>
  The message after \<^verbatim>\<open>Set\<close> has under the name a packed form of the value written anew; after an error
  it is as before.
\<close>

lemma OutVariable_Set_large:
  assumes L: "lib_laws (vlib E) D" "value_law (vlib E) D" "recode_law (vlib E) (vjson E) D" "set_container_law (vlib E) (vjson E) D"
    and v: "marshal (vjson E) value = Inr d" "is_container value" "den D d = Some j"
    and j: "container j" "wf_json j" "no_ref D j"
    and S: "big_parts (vlib E) (parse (vlib E) d) \<subseteq> S" "depth j \<le> n"
    and msg: "members D (raw_bytes msg) = Some kvs" "path_key nm" "scope \<in> {''Message'', ''AI''}"
    and s: "vstore s = Some st" "pack_inv (vlib E) st S Er (vfs s)"
  shows "\<exists>e msg' s1. OutVariable_Set n E lmo \<lparr>vScope = scope, vName = GStr nm\<rparr> value msg s = Some (Return (e, msg', s1))
    \<and> pack_inv (vlib E) st S Er (vfs s1) \<and> keeps (vlib E) st S (vfs s) (vfs s1) \<and> vstore s1 = Some st
    \<and> (case e of Some x \<Rightarrow> Er \<and> msg' = msg
       | None \<Rightarrow> \<exists>q j'. den D (raw_bytes msg') = Some (JObj (AList.update nm q kvs)) \<and> recoded (same_number (vlib E) D) j j'
           \<and> packed (vlib E) D st S (vfs s1) (depth j + 2) j' q \<and> \<not> isref D q)"
proof -
  let ?v = "\<lparr>vScope = scope, vName = GStr nm\<rparr>"
  have nm: "nm \<noteq> []" "simple_key nm" "convertPath nm = nm"
    using msg(2) by (auto simp: path_key_def simple_key_def simple_key_convertPath)
  have set: "\<exists>b. msg_Set (vlib E) nm g msg = (None, msg\<lparr>data := Some b\<rparr>) \<and> den D b = Some (JObj (AList.update nm u kvs))"
    if g: "is_container g" "marshal (vjson E) g = Inr d'" "den D d' = Some u" for g d' u
  proof -
    obtain b where "set_val (vlib E) (raw_bytes msg) nm g = (b, None)" "den D b = Some (JObj (AList.update nm u kvs))"
      using L(4) msg(1,2) g unfolding set_container_law_def by blast
    then show ?thesis by (auto simp: msg_Set_def nm(3))
  qed
  note refl = recoded_refl [OF j(2), of "same_number (vlib E) D"]
  have same: "packed (vlib E) D st S w (depth j + 2) j j" for w by (simp add: packed.same)
  obtain b0 where b0: "msg_Set (vlib E) nm value msg = (None, msg\<lparr>data := Some b0\<rparr>)"
    "den D b0 = Some (JObj (AList.update nm j kvs))"
    using set [OF v(2,1,3)] by blast
  show ?thesis
  proof (cases lmo)
    case False
    with b0 msg(3) nm(1) s refl same no_ref_isref [OF j(3)] show ?thesis
      by (auto simp: OutVariable_Set_def raw_bytes_def keeps_refl)
  next
    case True
    obtain res w' where p: "PackValue n (vlib E) (vjson E) (vplat E) value (Some st) (vfs s) = Some (res, w')"
      "pack_inv (vlib E) st S Er w'" "keeps (vlib E) st S (vfs s) w'"
      "case res of Inl e \<Rightarrow> Er | Inr None \<Rightarrow> True
       | Inr (Some g) \<Rightarrow> \<exists>b q. den D b = Some q \<and> unmarshal (vjson E) b = Inr g \<and> container q \<and> wf_json q
           \<and> packed (vlib E) D st S w' (depth j + 2) j q \<and> \<not> isref D q"
      using PackValue_spec [OF L(1,3) v(1,3) j S s(2)] by blast
    have out: "OutVariable_Set n E lmo ?v value msg s = Some (Return (case res of
        Inl e \<Rightarrow> (Some e, msg, s\<lparr>vfs := w'\<rparr>)
      | Inr g \<Rightarrow> (case msg_Set (vlib E) nm (case g of None \<Rightarrow> value | Some x \<Rightarrow> x) msg of (e, msg') \<Rightarrow> (e, msg', s\<lparr>vfs := w'\<rparr>))))"
      using p(1) msg(3) nm(1) s(1) True by (auto simp: OutVariable_Set_def split: sum.splits option.splits prod.splits)
    show ?thesis
    proof (cases "\<exists>g. res = Inr (Some g)")
      case False
      with out p b0 s(1) refl same no_ref_isref [OF j(3)] show ?thesis
        by (cases res) (auto simp: raw_bytes_def)
    next
      case True
      then obtain g b q where g: "res = Inr (Some g)" "den D b = Some q" "unmarshal (vjson E) b = Inr g" "container q" "wf_json q"
        "packed (vlib E) D st S w' (depth j + 2) j q" "\<not> isref D q" using p(4) by auto
      obtain d' q' where q': "is_container g" "marshal (vjson E) g = Inr d'" "den D d' = Some q'" "recoded (same_number (vlib E) D) q q'"
        using L(3) g(2-5) unfolding recode_law_def by fastforce
      obtain j' where j': "recoded (same_number (vlib E) D) j j'" "packed (vlib E) D st S w' (depth j + 2) j' q'"
        using packed_recoded [OF L(1) same_number_magic [OF L(2)] g(6) j(2) q'(4)] by blast
      have "\<not> isref D q'" using recoded_isref [OF L(1) same_number_magic [OF L(2)] q'(4)] g(7) by simp
      obtain b where b: "msg_Set (vlib E) nm g msg = (None, msg\<lparr>data := Some b\<rparr>)" "den D b = Some (JObj (AList.update nm q' kvs))"
        using set [OF q'(1-3)] by blast
      let ?m = "msg\<lparr>data := Some b\<rparr>"
      have o: "OutVariable_Set n E lmo ?v value msg s = Some (Return (None, ?m, s\<lparr>vfs := w'\<rparr>))" using out g(1) b(1) by simp
      have "\<exists>q j'. den D (raw_bytes ?m) = Some (JObj (AList.update nm q kvs)) \<and> recoded (same_number (vlib E) D) j j'
          \<and> packed (vlib E) D st S w' (depth j + 2) j' q \<and> \<not> isref D q"
        using b(2) j' \<open>\<not> isref D q'\<close> by (auto simp: raw_bytes_def simp del: add_2_eq_Suc')
      then show ?thesis using o p(2,3) s(1)
        by (intro exI [of _ None] exI [of _ ?m] exI [of _ "s\<lparr>vfs := w'\<rparr>"]) simp
    qed
  qed
qed

section \<open>Reading it back\<close>

text \<open>
  C22. A map or slice whose objects have plain keys, which an output variable writes into a message, of any size,
  with the blob capability in force or not and whether the message holds that name already or not, is read back by an input variable of that name: the value converted to
  the variable's type is a Go value of the same JSON document, up to the order of its members and the
  spelling of its numbers.  The message reads so as long as its blobs are kept, in another process
  too.  \<^verbatim>\<open>Set\<close> fails only when the file system does; the message is then as before.
\<close>

theorem large_variable_roundtrip:
  assumes "lib_laws (vlib E) D" "exists_law (vlib E) D" "value_law (vlib E) D"
    and "recode_law (vlib E) (vjson E) D" "set_container_law (vlib E) (vjson E) D"
    and "marshal (vjson E) value = Inr d" "is_container value" "den D d = Some j"
    and "container j" "wf_json j" "no_ref D j" "big_parts (vlib E) (parse (vlib E) d) \<subseteq> S" "depth j \<le> n" "depth j < m"
    and "members D (raw_bytes msg) = Some kvs" "path_key nm" "scope \<in> {''Message'', ''AI''}"
    and "vstore s = Some st" "sound (vlib E) st S (vfs s)"
  shows "\<exists>e msg' s1. OutVariable_Set n E lmo \<lparr>vScope = scope, vName = GStr nm\<rparr> value msg s = Some (Return (e, msg', s1))
    \<and> vstore s1 = Some st \<and> sound (vlib E) st S (vfs s1) \<and> (healthy (vfs s) \<longrightarrow> e = None \<and> healthy (vfs s1)) \<and> (e \<noteq> None \<longrightarrow> msg' = msg)
    \<and> (e = None \<longrightarrow> (\<forall>s2. keeps (vlib E) st S (vfs s1) (vfs s2) \<longrightarrow> faultless (vfs s2) \<longrightarrow> vstore s2 = Some st \<longrightarrow>
        (\<exists>r j' s3. rep D r j' \<and> recoded (same_number (vlib E) D) j j' \<and>
          (\<forall>T. InVariable_Get m E T \<lparr>vScope = scope, vName = GStr nm\<rparr> msg' s2
             = convert_or_host m E T \<lparr>vScope = scope, vName = GStr nm\<rparr> msg' (val (vlib E) r) s3))))"
proof -
  let ?L = "vlib E" and ?N = "same_number (vlib E) D" and ?v = "\<lparr>vScope = scope, vName = GStr nm\<rparr>"
  note magic = same_number_magic [OF assms(3)]
  have inv: "pack_inv ?L st S (\<not> healthy (vfs s)) (vfs s)" using assms(19) by (simp add: pack_inv_def)
  obtain e msg' s1 where set: "OutVariable_Set n E lmo ?v value msg s = Some (Return (e, msg', s1))"
    "pack_inv ?L st S (\<not> healthy (vfs s)) (vfs s1) \<and> vstore s1 = Some st"
    "case e of Some x \<Rightarrow> \<not> healthy (vfs s) \<and> msg' = msg
       | None \<Rightarrow> \<exists>q j'. den D (raw_bytes msg') = Some (JObj (AList.update nm q kvs)) \<and> recoded ?N j j'
           \<and> packed ?L D st S (vfs s1) (depth j + 2) j' q \<and> \<not> isref D q"
    using OutVariable_Set_large [OF assms(1,3-13,15-18) inv] by blast
  have "\<exists>r j' s3. rep D r j' \<and> recoded ?N j j' \<and> (\<forall>T. InVariable_Get m E T ?v msg' s2 = convert_or_host m E T ?v msg' (val ?L r) s3)"
    if e: "e = None" and s2: "keeps ?L st S (vfs s1) (vfs s2)" "faultless (vfs s2)" "vstore s2 = Some st" for s2
  proof -
    obtain q j' where q: "den D (raw_bytes msg') = Some (JObj (AList.update nm q kvs))" "recoded ?N j j'"
      "packed ?L D st S (vfs s1) (depth j + 2) j' q" using set(3) e by auto
    have p: "packed ?L D st S (vfs s2) (depth j + 2) j' q" using packed_world [OF q(3)] s2(1) by (simp add: keeps_def)
    have j': "no_ref D j'" "wf_json j'" "container j'"
      using recoded_no_ref [OF assms(1) magic q(2) assms(11)] recoded_wf [OF q(2) assms(10)] recoded_kind [OF q(2)] assms(9) by auto
    have mem: "map_of (AList.update nm q kvs) nm = Some q" by (simp add: update_conv)
    have quiet: "quiet_from (vfs s2) (vfs s2)" using s2(2) by (simp add: quiet_from_def)
    obtain r w where r: "msg_get m ?L (vplat E) (Some st) nm msg' (vfs s2) = Some (r, w)" "rep D r j'"
      using msg_get_packed [OF assms(1,2) q(1) assms(16) mem p j'(1,2) quiet, of m "vplat E"] assms(14) by auto
    have val: "val ?L r \<noteq> GNil" "\<not> IsBlobRefMap (val ?L r)"
      using val_not_nil [OF assms(3) r(2) j'(3)] IsBlobRefMap_val [OF assms(3) r(2)] no_ref_isref [OF j'(1)] by auto
    have "message_value m E scope nm msg' s2 = Some (val ?L r, s2\<lparr>vfs := w\<rparr>)"
      using r(1) val(1) s2(3) by (simp add: message_value_def vget_def msg_Get_def)
    then have "InVariable_Get m E T ?v msg' s2 = convert_or_host m E T ?v msg' (val ?L r) (s2\<lparr>vfs := w\<rparr>)" for T
      using val assms(17) by (auto simp: InVariable_Get_def)
    with r(2) q(2) show ?thesis by blast
  qed
  with set show ?thesis by (cases e) (auto simp: pack_inv_def)
qed

section \<open>Witness\<close>

text \<open>The concrete library has the laws: what it decodes and encodes again is the same document.\<close>

lemma parse_int_range: "parse_int 64 s = Inr i \<Longrightarrow> - (2 ^ 63) \<le> i \<and> i < 2 ^ 63"
  by (auto simp: parse_int_def parse_digits_def Let_def split: if_splits sum.splits option.splits)

lemma text_val: "rep text_sem r j \<Longrightarrow> val text_lib r = json_val j"
  by (simp add: rep_def text_sem_def text_lib_def of_result_def)

lemma text_value_law: "value_law text_lib text_sem"
proof -
  have "json_val (JNum a) = GFloat (of_int (json_int (JNum a)))" for a by (simp split: sum.splits)
  then have "\<exists>f. json_val (JNum a) = GFloat f \<and> (\<forall>i. \<bar>i\<bar> < 2 ^ 53 \<longrightarrow> (json_int (JNum a) = i \<longleftrightarrow> trunc_f64 f = i))" for a
    by (metis trunc_of_int)
  moreover have "\<exists>r'. rep text_sem r' v \<and> map_of (map (\<lambda>(k, v). (k, json_val v)) kvs) k = Some (val text_lib r')"
    if "rep text_sem r (JObj kvs)" "map_of kvs k = Some v" for r kvs k v
  proof -
    have "json_ok v" using that map_of_SomeD [OF that(2)] by (auto simp: rep_result list_all_iff)
    then have "rep text_sem (result_of v) v" by (simp add: rep_result)
    with text_val [OF this] that(2) show ?thesis by (auto simp: map_of_map)
  qed
  moreover have "map fst (map (\<lambda>(k, v). (k, json_val v)) kvs) = map fst kvs" for kvs by (induction kvs) auto
  ultimately show ?thesis unfolding value_law_def by (auto simp: text_val)
qed

lemma text_recoded:
  "wf_json j \<Longrightarrow> json_ok j \<Longrightarrow> recoded (same_number text_lib text_sem) j (go_json (json_val j))"
proof (induction "depth j" arbitrary: j rule: less_induct)
  case less
  show ?case
  proof (cases "container j")
    case True
    let ?h = "\<lambda>v. go_json (json_val v)"
    have ch: "children (?h j) = map (\<lambda>(k, v). (k, ?h v)) (children j)"
      using True by (cases j) (auto simp: enumerate_eq_zip intro!: nth_equalityI)
    have keys: "map fst (children (?h j)) = map fst (children j)" by (simp add: ch comp_def split_def)
    have "recoded (same_number text_lib text_sem) v (?h v)" if "map_of (children j) k = Some v" for k v
      using less.hyps [OF depth_child] wf_child [OF less.prems(1)] json_ok_child [OF less.prems(2)] map_of_SomeD [OF that] by blast
    moreover have "same_kind j (?h j)" using True by (cases j) (auto simp: same_kind_def)
    moreover have "map_of (children (?h j)) k = map_option ?h (map_of (children j) k)" for k by (simp add: ch map_of_map)
    moreover have "fst ` set (children (?h j)) = fst ` set (children j)" using keys by (metis list.set_map)
    ultimately show ?thesis using keys keys_distinct [OF wf_json_keys [OF less.prems(1)]] by (intro node) auto
  next
    case False
    show ?thesis
    proof (cases j)
      case (JNum n)
      define i where "i = (case atoi n of Inr i \<Rightarrow> i | Inl e \<Rightarrow> 0)"
      have v: "json_val (JNum n) = GFloat (of_int i)" by (simp add: i_def split: sum.splits)
      have "- (2 ^ 63) \<le> i \<and> i < 2 ^ 63" using parse_int_range by (auto simp: i_def atoi_def split: sum.splits)
      then have "json_val (JNum (show_int i)) = GFloat (of_int i)" using parse_int_show_int [of i] by (simp add: atoi_def)
      moreover have "rep text_sem (result_of (JNum n)) (JNum n)" "rep text_sem (result_of (JNum (show_int i))) (JNum (show_int i))"
        using less.prems(2) num_ok_show_int by (simp_all add: rep_result JNum)
      ultimately have "same_number text_lib text_sem n (show_int i)" using v text_val unfolding same_number_def by metis
      then show ?thesis unfolding JNum v by (simp add: num)
    qed (use False in \<open>auto intro: leaf\<close>)
  qed
qed

lemma text_recode_law: "recode_law text_lib demo_jsonlib text_sem"
  unfolding recode_law_def
proof (intro allI impI)
  fix b j
  assume j: "den text_sem b = Some j" "wf_json j" "container j"
  let ?g = "json_val j"
  have "unmarshal demo_jsonlib b = Inr ?g" "marshal demo_jsonlib ?g = Inr (print_json (go_json ?g))"
    using j(1) by (simp_all add: demo_jsonlib_def)
  moreover have "is_container ?g" using j(3) by (cases j) auto
  moreover have "den text_sem (print_json (go_json ?g)) = Some (go_json ?g)" using json_ok_go by (simp add: json_den_print)
  moreover have "recoded (same_number text_lib text_sem) j (go_json ?g)"
    using text_recoded [OF j(2)] j(1) by (simp add: json_den_iff)
  ultimately show "\<exists>g d v. unmarshal demo_jsonlib b = Inr g \<and> is_container g \<and> marshal demo_jsonlib g = Inr d
      \<and> den text_sem d = Some v \<and> recoded (same_number text_lib text_sem) j v" by blast
qed

lemma text_set_container_law: "set_container_law text_lib demo_jsonlib text_sem"
  unfolding set_container_law_def
proof (intro allI impI)
  fix b kvs k g d v
  assume a: "members text_sem b = Some kvs" "path_key k" "marshal demo_jsonlib g = Inr d" "den text_sem d = Some v"
  then have "v = go_json g" using json_den_print [OF json_ok_go, of g] by (simp add: demo_jsonlib_def)
  with text_set_update [OF a(1), of k g] a(2)
  show "\<exists>b'. set_val text_lib b k g = (b', None) \<and> den text_sem b' = Some (JObj (AList.update k v kvs))" by (auto simp: path_key_def)
qed

text \<open>An environment that decodes into maps, and the map of the large demo document.\<close>

definition map_env :: venv where
  "map_env = demo_env\<lparr>unmarshal_into := (\<lambda>_ b. case json_den b of
     Some j \<Rightarrow> Inr (VDyn (json_val j)) | None \<Rightarrow> Inl (Errorf ''invalid character''))\<rparr>"

definition large_map :: goval where
  "large_map = GMap [(''a'', GStr (replicate 5000 (CHR ''x'')))]"

lemma large_map_json: "go_json large_map = demo_doc" "json_val demo_doc = large_map"
  by (simp_all add: large_map_def demo_doc_def demo_str_def)

lemma recoded_demo:
  assumes "recoded N demo_doc j"
  shows "j = demo_doc"
proof -
  have "container demo_doc" by (simp add: demo_doc_def)
  from recoded_node [OF assms this] have n: "same_kind demo_doc j" "distinct (map fst (children j))"
    "fst ` set (children j) = {''a''}" "\<And>v. map_of (children j) ''a'' = Some v \<Longrightarrow> recoded N demo_str v"
    by (auto simp: demo_doc_def)
  obtain kvs where j: "j = JObj kvs" using n(1) by (auto simp: same_kind_def demo_doc_def split: json.splits)
  have "fst ` set kvs = {''a''}" "distinct (map fst kvs)" using n(2,3) by (simp_all add: j)
  then obtain v where "kvs = [(''a'', v)]" by (cases kvs; cases "tl kvs") auto
  with n(4) j show ?thesis by (simp add: demo_doc_def demo_str_def)
qed

theorem large_variable_roundtrip_witness:
  "\<exists>msg' s1 s3. OutVariable_Set 1 map_env True \<lparr>vScope = ''Message'', vName = GStr ''q''\<rparr> large_map \<lparr>ID = [], data = None\<rparr>
       \<lparr>vstore = Some demo_store, vfs = demo_os\<rparr> = Some (Return (None, msg', s1))
   \<and> InVariable_Get 2 map_env TMap \<lparr>vScope = ''Message'', vName = GStr ''q''\<rparr> msg' s1 = Some (Return (Inr (VDyn large_map), s3))"
proof -
  let ?v = "\<lparr>vScope = ''Message'', vName = GStr ''q''\<rparr>" and ?m = "\<lparr>ID = [], data = None\<rparr>"
    and ?s = "\<lparr>vstore = Some demo_store, vfs = demo_os\<rparr>"
  have e: "vlib map_env = text_lib" "vjson map_env = demo_jsonlib" by (simp_all add: map_env_def demo_env_def)
  have d: "marshal demo_jsonlib large_map = Inr (print_json demo_doc)" "is_container large_map" "container demo_doc"
    by (simp_all only: demo_jsonlib_def large_map_json json_lib.simps)
      (simp_all add: large_map_def demo_doc_def)
  have m: "members text_sem (raw_bytes ?m) = Some []" by (simp add: raw_bytes_def members_def)
  have h: "healthy (vfs ?s)" "sound text_lib demo_store demo_bytes (vfs ?s)" using demo_healthy demo_sound by simp_all
  from large_variable_roundtrip [where E = map_env and s = ?s and n = 1 and m = 2 and scope = "''Message''" and lmo = True, unfolded e,
      OF text_lib_laws text_exists_law text_value_law text_recode_law text_set_container_law d(1,2) demo_den d(3)
        demo_json(3,4) demo_parts _ _ m demo_keys _ _ h(2)] h(1) demo_json(5)
  obtain msg' s1 where set: "OutVariable_Set 1 map_env True ?v large_map ?m ?s = Some (Return (None, msg', s1))"
      "healthy (vfs s1)" "vstore s1 = Some demo_store"
    and get: "\<And>s2. keeps text_lib demo_store demo_bytes (vfs s1) (vfs s2) \<Longrightarrow> faultless (vfs s2) \<Longrightarrow> vstore s2 = Some demo_store \<Longrightarrow>
      \<exists>r j' s3. rep text_sem r j' \<and> recoded (same_number text_lib text_sem) demo_doc j' \<and>
        (\<forall>T. InVariable_Get 2 map_env T ?v msg' s2 = convert_or_host 2 map_env T ?v msg' (val text_lib r) s3)"
    by auto
  have "faultless (vfs s1)" using set(2) by (simp add: healthy_def)
  from get [OF keeps_refl this set(3)] obtain r s3 where r: "rep text_sem r demo_doc"
    "\<And>T. InVariable_Get 2 map_env T ?v msg' s1 = convert_or_host 2 map_env T ?v msg' (val text_lib r) s3"
    using recoded_demo by blast
  have "val text_lib r = large_map" using text_val [OF r(1)] large_map_json by simp
  moreover have "convert_to map_env TMap large_map = Some (Return (Inr (VDyn large_map)))"
    using json_den_print [OF demo_json(1)]
    by (simp add: json_roundtrip_def e d(1) del: print_json.simps) (simp add: map_env_def large_map_json del: print_json.simps)
  ultimately show ?thesis using set(1) r(2) [of TMap] by (auto simp: convert_or_host_def)
qed

end
