(* ===== verification/Flow.thy ===== *)
theory Flow
  imports Packed_Message Node_Server_Props
begin

text \<open>
  Two nodes in a row: the message handler of one node, the reply of its server, and the variables of the
  next node.  The blob store, the message context, the node server and the variables are put together.
\<close>

text \<open>
  C19. What a node leaves in the message reaches the variables of the next node.  With the blob capability
  negotiated, the server replies with a message, packed or not; the next node, whose store keeps the blobs,
  reads from it every member of the document that the first node's handler left, one whose objects have plain keys: the variable's getter
  answers what it answers for the value itself, a string variable reads the string however long it is,
  and a name that the document lacks reads as the zero value.
\<close>

theorem node_output_reaches_next_node:
  assumes "lib_laws (vlib E) D" "val_law (vlib E) D" "exists_law (vlib E) D"
    and "handlers s g = Some nh" "\<not> hasTool nh" "dec inMessage = Inr b"
    and "run_handler C (originalHandler nh) (NewContext (vlib E) b) (sleep_sec (DelayBefore (nhNode nh)) s) = (err, msg, s1)"
    and "data msg = Some payload" "payload \<noteq> []" "den D payload = Some (JObj kvs)" "wf_json (JObj kvs)" "no_ref D (JObj kvs)"
    and "lmoStore s1 = Some st" "HasCapability CapabilityLMO (capsOf s1)"
    and "sound (vlib E) st S (fs s1)" "big_parts (vlib E) (parse (vlib E) payload) \<subseteq> S" "depth (JObj kvs) \<le> n"
    and "OnMessage n (vlib E) pf C dec g inMessage s = Some ((reply, e), s')"
    and "keeps (vlib E) st S (fs s') (vfs t)" "faultless (vfs t)" "vstore t = Some st" "depth (JObj kvs) \<le> m" "path_key k"
  shows "\<exists>d. reply = Some d
    \<and> (\<forall>v. map_of kvs k = Some v \<longrightarrow>
        (\<exists>r t'. rep D r v \<and> vget m E k (NewContext (vlib E) d) t = Some (val (vlib E) r, t')))
    \<and> (\<forall>x. map_of kvs k = Some (JStr x) \<longrightarrow> (\<exists>t'. InVariable_Get m E TString \<lparr>vScope = ''Message'', vName = GStr k\<rparr>
          (NewContext (vlib E) d) t = Some (Return (Inr (VStr x), t'))))
    \<and> (map_of kvs k = None \<longrightarrow> InVariable_Get m E T \<lparr>vScope = ''Message'', vName = GStr k\<rparr>
          (NewContext (vlib E) d) t = Some (Return (Inr (VZero T), t)))"
proof -
  obtain d q where d: "reply = Some d" "den D d = Some q" "packed (vlib E) D st S (fs s') (depth (JObj kvs) + 2) (JObj kvs) q"
    "\<not> isref D q"
    using OnMessage_reply_packed [OF assms(1,4-18)] by blast
  have "den D (raw_bytes (NewContext (vlib E) d)) = Some q" using d(2) by (simp add: raw_bytes_def NewContext_def)
  from packed_document_reads [OF assms(1-3,11,12) this d(3,4) assms(19-23)] d(1) show ?thesis by blast
qed

theorem node_output_reaches_next_node_witness:
  "\<exists>d s' t'. OnMessage 1 text_lib Posix demo_code Inr ''a'' (print_json JNull) with_a = Some ((Some d, None), s')
    \<and> InVariable_Get 2 demo_env TString \<lparr>vScope = ''Message'', vName = GStr ''a''\<rparr> (NewContext text_lib d)
        \<lparr>vstore = Some demo_store, vfs = fs s'\<rparr> = Some (Return (Inr (VStr (replicate 5000 (CHR ''x''))), t'))"
proof -
  obtain d s' where o: "OnMessage 1 text_lib Posix demo_code Inr ''a'' (print_json JNull) with_a = Some ((Some d, None), s')"
    "faultless (fs s')" by (rule demo_reply)
  let ?t = "\<lparr>vstore = Some demo_store, vfs = fs s'\<rparr>"
  have e: "vlib demo_env = text_lib" by (simp add: demo_env_def)
  have f: "faultless (vfs ?t)" "vstore ?t = Some demo_store" "path_key ''a''" using o(2)
    by (simp_all add: path_key_def simple_key_def plain_char_def is_digit_def)
  have k: "keeps text_lib demo_store demo_bytes (fs s') (vfs ?t)" by (simp add: keeps_refl)
  have doc: "demo_doc = JObj [(''a'', demo_str)]" by (simp add: demo_doc_def)
  from node_output_reaches_next_node [where E = demo_env and D = text_sem and t = ?t and m = 2, unfolded e,
      OF text_lib_laws text_val_law text_exists_law demo_handler _ _ _ demo_out_data [unfolded doc] demo_den [unfolded doc]
        demo_json(3,4) [unfolded doc] demo_before_facts(2,1,3) demo_parts [unfolded doc] _ o(1) k f(1,2) _ f(3)]
    demo_run demo_json(5) [unfolded doc] o(1)
  show ?thesis by (auto simp: demo_str_def)
qed

end
