(* ===== verification/Session_Run.thy ===== *)
theory Session_Run
  imports Cli_Session
begin

text \<open>
  The two ways to run a command put side by side: in this process (\<^verbatim>\<open>RunCLI\<close>) and through the daemon of a
  session (\<^verbatim>\<open>RunSessionClient\<close>, the node protocol, and the node in the daemon).
\<close>

text \<open>\<^verbatim>\<open>json.Unmarshal\<close> of an object gives each member the value that a getter answers for it.\<close>

definition unmarshal_law :: "lib \<Rightarrow> json_lib \<Rightarrow> sem \<Rightarrow> bool" where
  "unmarshal_law L J D \<longleftrightarrow> (\<forall>b kvs. den D b = Some (JObj kvs) \<longrightarrow>
     (\<exists>m. unmarshal J b = Inr (GMap m)
       \<and> (\<forall>k. path_key k \<longrightarrow> map_of m k = (if k \<in> fst ` set kvs then Some (val L (get L b k)) else None))))"

text \<open>A config from which the node's type makes a handler with that guid, no delays and no error handling.\<close>

definition makes_node :: "'e node_code \<Rightarrow> lib \<Rightarrow> string \<Rightarrow> bytes \<Rightarrow> string \<Rightarrow> hid \<Rightarrow> bool" where
  "makes_node C L ty config guid h \<longleftrightarrow> unmarshal_node C ty config = Inr h \<and> str L (get L config ''guid'') = guid
     \<and> (\<exists>nd. node_field C h = Some nd \<and> GUID nd = guid \<and> DelayBefore nd = 0 \<and> DelayAfter nd = 0 \<and> \<not> ContinueOnError nd)"

definition output_names :: "node_type \<Rightarrow> string set" where
  "output_names t = {k. k \<noteq> [] \<and> (\<exists>f \<in> set t. isOutVariable (ftype f) \<and> tm_get (parseSpec (tag_get f ''spec'')) ''name'' = k)}"

lemma ctx_get_plain:
  "lmoStore s = None \<Longrightarrow> ctx_get n L pf k msg s = Some (val L (get L (raw_bytes msg) (convertPath k)), s)"
  by (simp add: ctx_get_def msg_Get_def msg_get_no_store)

lemma cli_outputs_lookup:
  assumes "lmoStore s = None"
  shows "\<exists>out. cli_outputs n L pf t msg acc s = Some (out, s)
    \<and> (\<forall>k. map_of out k = (let v = val L (get L (raw_bytes msg) (convertPath k)) in
        if k \<in> output_names t \<and> v \<noteq> GNil then Some v else map_of acc k))"
proof (induction t arbitrary: acc)
  case Nil
  then show ?case by (simp add: output_names_def)
next
  case (Cons f t)
  let ?k = "tm_get (parseSpec (tag_get f ''spec'')) ''name''" and ?v = "\<lambda>k. val L (get L (raw_bytes msg) (convertPath k))"
  show ?case
  proof (cases "isOutVariable (ftype f) \<and> ?k \<noteq> []")
    case True
    then have names: "output_names (f # t) = insert ?k (output_names t)" by (auto simp: output_names_def)
    obtain out where out: "cli_outputs n L pf t msg (if ?v ?k \<noteq> GNil then AList.update ?k (?v ?k) acc else acc) s = Some (out, s)"
      "\<And>k. map_of out k = (if k \<in> output_names t \<and> ?v k \<noteq> GNil then Some (?v k)
          else map_of (if ?v ?k \<noteq> GNil then AList.update ?k (?v ?k) acc else acc) k)"
      using Cons.IH [of "if ?v ?k \<noteq> GNil then AList.update ?k (?v ?k) acc else acc"] by (auto simp: Let_def)
    have "cli_outputs n L pf (f # t) msg acc s = Some (out, s)"
      using True out(1) by (simp add: ctx_get_plain [OF assms] Let_def)
    then show ?thesis by (auto simp: names out(2) Let_def update_conv')
  next
    case False
    then have "output_names (f # t) = output_names t" by (auto simp: output_names_def)
    moreover have "cli_outputs n L pf (f # t) msg acc s = cli_outputs n L pf t msg acc s" using False by auto
    ultimately show ?thesis using Cons.IH [of acc] by simp
  qed
qed

text \<open>The node is made in the daemon; the files that change are those of the metadata.\<close>

lemma session_create_new:
  assumes "target \<noteq> []" "serving d" "GetNodeFactory (ceNodeID cmd) (srv d) = Some ty"
    and "makes_node C L ty (json_text J (GMap (cli_config (rtFields (ceType cmd)) guid name vid iid patches))) guid h"
    and "\<forall>w m. fst (readSessionMetadata S pf sid w) = Inr m \<longrightarrow> guid \<notin> set (mdNodes m)"
    and "on_create C h (ext (srv d)) = (None, x1)"
  shows "\<exists>d'. session_create target L J pf C S sid cmd name guid vid iid patches d = (None, d') \<and> serving d'
    \<and> ext (srv d') = x1 \<and> lmoStore (srv d') = lmoStore (srv d) \<and> capsOf (srv d') = capsOf (srv d)
    \<and> (\<exists>nd. node_field C h = Some nd \<and> DelayBefore nd = 0 \<and> DelayAfter nd = 0 \<and> \<not> ContinueOnError nd
        \<and> GetNodeHandler guid (srv d') = Some \<lparr>nhNode = nd, originalHandler = h, hasTool = tool_field C h\<rparr>)"
proof -
  obtain nd where nd: "node_field C h = Some nd" "GUID nd = guid" "DelayBefore nd = 0" "DelayAfter nd = 0" "\<not> ContinueOnError nd"
    using assms(4) by (auto simp: makes_node_def)
  obtain md d1 where r: "on_disk (readSessionMetadata S pf sid) d = (md, d1)" by fastforce
  obtain w where d1: "d1 = d\<lparr>srv := (srv d)\<lparr>fs := w\<rparr>\<rparr>" "fst (readSessionMetadata S pf sid (fs (srv d))) = md"
    using r by (auto simp: on_disk_def split: prod.splits)
  have new: "\<not> (\<exists>m. md = Inr m \<and> guid \<in> set (mdNodes m))" using assms(5) d1(2) by blast
  let ?s = "AddNodeHandler C nd h (srv d1)" and ?nh = "\<lparr>nhNode = nd, originalHandler = h, hasTool = tool_field C h\<rparr>"
  have c: "call_create S target L C (ceNodeID cmd)
      (json_text J (GMap (cli_config (rtFields (ceType cmd)) guid name vid iid patches))) d1
    = (None, d1\<lparr>srv := ?s\<lparr>ext := x1, nc := nc ?s + 1\<rparr>\<rparr>)"
    using assms(1-4,6) nd d1(1)
    by (simp add: call_create_def reaches_def OnCreate_def GetNodeFactory_def factory_OnCreate_def makes_node_def
        GetNodeHandler_def AddNodeHandler_def)
  have keep: "serving d1" "lmoStore ?s = lmoStore (srv d)" "capsOf ?s = capsOf (srv d)" "GetNodeHandler guid ?s = Some ?nh"
    using assms(2) nd(2) d1(1) by (simp_all add: AddNodeHandler_def GetNodeHandler_def)
  show ?thesis
    using c keep nd new unfolding session_create_def r prod.case
    by (cases md) (auto simp: on_disk_def GetNodeHandler_def)
qed

lemma sleep_zero: "sleep_sec 0 s = s"
  by (simp add: sleep_sec_def os_sleep_def trunc_f64_def)

text \<open>The message goes through the interceptor to the node, as it is no tool request.\<close>

lemma session_message:
  assumes "target \<noteq> []" "serving d" "GetNodeHandler guid (srv d) = Some \<lparr>nhNode = nd, originalHandler = h, hasTool = b\<rparr>"
    and "DelayBefore nd = 0" "DelayAfter nd = 0" "\<not> ContinueOnError nd" "dec z = Inr msg"
    and "lmoStore (srv d) = None" "\<not> HasCapability CapabilityLMO (capsOf (srv d))"
    and "val L (get L msg ''__message_type__'') \<noteq> GStr ''tool_request''"
    and "on_message C h (NewContext L msg) (fs (srv d)) (ext (srv d)) = (err, out, w, x)"
  shows "call_message S target n L pf C dec guid z d
    = Some (case err of Some e \<Rightarrow> Inl (sent_error S e) | None \<Rightarrow> Inr (if IsEmpty out then None else data out),
        d\<lparr>srv := (srv d)\<lparr>fs := w, ext := x\<rparr>\<rparr>)"
proof -
  let ?s = "(srv d)\<lparr>fs := w, ext := x\<rparr>" and ?nh = "\<lparr>nhNode = nd, originalHandler = h, hasTool = b\<rparr>"
  have t: "IsToolRequest n L pf (NewContext L msg) (srv d) = Some (False, srv d)"
    using assms(10) simple_key_convertPath [of "''__message_type__''"]
    by (simp add: IsToolRequest_def ctx_get_plain [OF assms(8)] NewContext_def raw_bytes_def simple_key_def plain_char_def)
  have run: "interceptor_OnMessage n L pf C ?nh (NewContext L msg) (srv d) = Some (err, out, ?s)"
    using t assms(11) by (simp add: interceptor_OnMessage_def run_handler_def)
  have pack: "pack_output n L pf out ?s = Some (if IsEmpty out then None else data out, ?s)"
    using assms(9) by (simp add: pack_output_def PackedBytes_def)
  have "OnMessage n L pf C dec guid z (srv d) = Some ((if IsEmpty out then None else data out, err), ?s)"
    using assms(3-7) run pack by (simp add: OnMessage_def sleep_zero)
  moreover have "data out = Some [] \<Longrightarrow> IsEmpty out" by (simp add: IsEmpty_def raw_bytes_def)
  ultimately show ?thesis using assms(1,2) by (auto simp: call_message_def reaches_def split: option.split)
qed

text \<open>What each of the two prints for the outcome of the node.\<close>

definition session_reply :: "session_env \<Rightarrow> json_lib \<Rightarrow> string \<Rightarrow> error option \<Rightarrow> message \<Rightarrow> cli_result outcome" where
  "session_reply S J sid err out = (case err of
     Some e \<Rightarrow> Return (CliError (''session OnMessage failed: '' @ err_text (sent_error S e)))
   | None \<Rightarrow> (case session_result J sid (if IsEmpty out then None else data out) of
       Panic m \<Rightarrow> Panic m | Return x \<Rightarrow> Return (CliPrint x)))"

definition direct_reply :: "error option \<Rightarrow> (string \<times> goval) list \<Rightarrow> cli_result" where
  "direct_reply err outputs = (case err of Some e \<Rightarrow> CliError (err_text e)
     | None \<Rightarrow> CliPrint (if outputs = [] then [(''status'', GStr ''completed'')] else outputs))"

lemma direct_run:
  assumes "lmoStore s = None" "on_create C h (ext s) = (None, x1)"
    "\<forall>w. on_message C h (NewContext L msg) w x1 = (err, out, w, x2)" "on_close C h x2 = (None, x3)"
  shows "\<exists>outputs. run_node n L pf C t h msg s = Some (direct_reply err outputs, s\<lparr>ext := x3\<rparr>)
    \<and> (\<forall>k. map_of outputs k = (let v = val L (get L (raw_bytes out) (convertPath k)) in
        if k \<in> output_names t \<and> v \<noteq> GNil then Some v else None))"
proof -
  obtain outputs where "cli_outputs n L pf t out [] (s\<lparr>ext := x3\<rparr>) = Some (outputs, s\<lparr>ext := x3\<rparr>)"
    "\<forall>k. map_of outputs k = (let v = val L (get L (raw_bytes out) (convertPath k)) in
        if k \<in> output_names t \<and> v \<noteq> GNil then Some v else None)"
    using cli_outputs_lookup [of "s\<lparr>ext := x3\<rparr>" n L pf t out "[]"] assms(1)
    by (auto simp: Let_def cong: if_cong)
  moreover from this(1) have "run_node n L pf C t h msg s = Some (direct_reply err outputs, s\<lparr>ext := x3\<rparr>)"
    using assms(2-4) by (cases err) (simp_all add: run_node_def run_handler_def collectCLIOutput_def direct_reply_def)
  ultimately show ?thesis by blast
qed

lemma same_outputs:
  assumes "unmarshal_law L J D" "data out = Some b" "b \<noteq> []" "den D b = Some (JObj kvs)"
    and o: "\<forall>k. map_of outputs k = (let v = val L (get L (raw_bytes out) (convertPath k)) in
        if k \<in> names \<and> v \<noteq> GNil then Some v else None)"
  shows "\<exists>shown direct. session_reply S J sid None out = Return (CliPrint shown) \<and> direct_reply None outputs = CliPrint direct
    \<and> map_of shown ''session_id'' = Some (GStr sid)
    \<and> (\<forall>k \<in> names. path_key k \<longrightarrow> k \<noteq> ''session_id'' \<longrightarrow> k \<in> fst ` set kvs \<longrightarrow> val L (get L b k) \<noteq> GNil \<longrightarrow>
        map_of shown k = Some (val L (get L b k)) \<and> map_of direct k = Some (val L (get L b k)))"
proof -
  obtain ms where ms: "unmarshal J b = Inr (GMap ms)"
    "\<And>k. path_key k \<Longrightarrow> map_of ms k = (if k \<in> fst ` set kvs then Some (val L (get L b k)) else None)"
    using assms(1,4) unfolding unmarshal_law_def by blast
  have "session_reply S J sid None out = Return (CliPrint (AList.update ''session_id'' (GStr sid) ms))"
    using assms(2,3) ms(1) by (simp add: session_reply_def session_result_def IsEmpty_def raw_bytes_def)
  moreover have "map_of outputs k = Some (val L (get L b k)) \<and> outputs \<noteq> []"
    if "k \<in> names" "path_key k" "val L (get L b k) \<noteq> GNil" for k
    using that o assms(2) by (auto simp: raw_bytes_def path_key_def simple_key_convertPath Let_def dest!: spec [of _ k])
  ultimately show ?thesis using ms(2) by (auto simp: direct_reply_def update_conv')
qed

text \<open>
  C30. A command gives the same outputs in a session as on its own.  When the daemon serves, the call's guid is
  new and its node neither fails nor panics at creation, \<^verbatim>\<open>RunSessionClient\<close> hands the node the same
  message as the direct run, and: an error of the node that is neither a status of gRPC nor one of a context
  ends both with its text, which the session prints behind the words that gRPC puts before it;
  otherwise the session prints the whole message and its id, and every output variable the message holds has there the
  value that the direct run prints.  In the session the node stays registered and is not closed; in the
  direct run it is.
\<close>

theorem session_matches_direct_run:
  fixes flags :: flags
  defines "vid \<equiv> flag_get flags ''vault-id''" and "iid \<equiv> flag_get flags ''item-id''"
    and "guid \<equiv> \<lambda>name callID. name @ ''-'' @ callID"
  assumes laws: "unmarshal_law L J D"
    and reach: "fst (sessionDialAddr S pf sid (fs (srv d))) \<noteq> []" "serving d"
    and cmd: "map_of (buildCommandMap types) name = Some cmd" "GetNodeFactory (ceNodeID cmd) (srv d) = Some ty"
    and ctx: "buildCLIContext K (rtFields (ceType cmd)) (drop_flags [''vault-id'', ''item-id''] flags) = (msgData, patches)"
    and node: "makes_node C L ty (json_text J (GMap (cli_config (rtFields (ceType cmd)) (guid name callID) name vid iid patches)))
        (guid name callID) h"
    and new: "\<forall>w m. fst (readSessionMetadata S pf sid w) = Inr m \<longrightarrow> guid name callID \<notin> set (mdNodes m)"
    and gzip: "compress (json_text J (GMap msgData)) = Inr z" "dec z = Inr (json_text J (GMap msgData))"
    and server: "lmoStore (srv d) = None" "\<not> HasCapability CapabilityLMO (capsOf (srv d))"
    and plain: "val L (get L (json_text J (GMap msgData)) ''__message_type__'') \<noteq> GStr ''tool_request''"
    and grpc: "\<And>e. err = Some e \<Longrightarrow> grpc_status S e = (''Unknown'', err_text e)"
    and code: "on_create C h (ext (srv d)) = (None, x1)"
      "\<forall>w. on_message C h (NewContext L (json_text J (GMap msgData))) w x1 = (err, out, w, x2)" "on_close C h x2 = (None, x3)"
  shows "\<exists>r d' rd s'. RunSessionClient n L J pf C S K compress dec types callID sid name flags d = Some (r, d')
    \<and> run_node n L pf C (rtFields (ceType cmd)) h (json_text J (GMap msgData)) (srv d) = Some (rd, s')
    \<and> ext (srv d') = x2 \<and> GetNodeHandler (guid name callID) (srv d') \<noteq> None \<and> ext s' = x3
    \<and> (case err of
        Some e \<Rightarrow> r = Return (CliError (''session OnMessage failed: rpc error: code = Unknown desc = '' @ err_text e)) \<and> rd = CliError (err_text e)
      | None \<Rightarrow> \<forall>b kvs. data out = Some b \<longrightarrow> b \<noteq> [] \<longrightarrow> den D b = Some (JObj kvs) \<longrightarrow>
          (\<exists>shown direct. r = Return (CliPrint shown) \<and> rd = CliPrint direct
            \<and> map_of shown ''session_id'' = Some (GStr sid)
            \<and> (\<forall>k \<in> output_names (rtFields (ceType cmd)). path_key k \<longrightarrow> k \<noteq> ''session_id'' \<longrightarrow> k \<in> fst ` set kvs \<longrightarrow>
                val L (get L b k) \<noteq> GNil \<longrightarrow>
                map_of shown k = Some (val L (get L b k)) \<and> map_of direct k = Some (val L (get L b k)))))"
proof -
  let ?t = "rtFields (ceType cmd)" and ?msg = "json_text J (GMap msgData)" and ?g = "guid name callID"
  obtain target d0 where t: "on_disk (sessionDialAddr S pf sid) d = (target, d0)" by fastforce
  then obtain w0 where d0: "d0 = d\<lparr>srv := (srv d)\<lparr>fs := w0\<rparr>\<rparr>" "target \<noteq> []"
    using reach(1) by (auto simp: on_disk_def split: prod.splits)
  have f: "GetNodeFactory (ceNodeID cmd) (srv d0) = Some ty" "serving d0" "on_create C h (ext (srv d0)) = (None, x1)"
    using cmd(2) reach(2) code(1) d0(1) by (simp_all add: GetNodeFactory_def)
  obtain d1 nd where d1: "session_create target L J pf C S sid cmd name ?g vid iid patches d0 = (None, d1)"
    "serving d1" "ext (srv d1) = x1" "lmoStore (srv d1) = None" "capsOf (srv d1) = capsOf (srv d)"
    "DelayBefore nd = 0" "DelayAfter nd = 0" "\<not> ContinueOnError nd"
    "GetNodeHandler ?g (srv d1) = Some \<lparr>nhNode = nd, originalHandler = h, hasTool = tool_field C h\<rparr>"
    using session_create_new [where S = S and pf = pf and sid = sid, OF d0(2) f(2,1) node new f(3)] server(1) d0(1) by auto
  let ?d' = "d1\<lparr>srv := (srv d1)\<lparr>ext := x2\<rparr>\<rparr>"
  have m: "call_message S target n L pf C dec ?g z d1
      = Some (case err of Some e \<Rightarrow> Inl (sent_error S e) | None \<Rightarrow> Inr (if IsEmpty out then None else data out), ?d')"
    using session_message [where dec = dec and z = z, OF d0(2) d1(2,9,6-8) gzip(2) d1(4)] server(2) plain code(2) d1(3,5) by simp
  have run: "RunSessionClient n L J pf C S K compress dec types callID sid name flags d = Some (session_reply S J sid err out, ?d')"
    using d1(1) gzip(1) m unfolding guid_def vid_def iid_def
    by (cases err) (simp_all add: RunSessionClient_def t cmd(1) ctx Let_def session_reply_def)
  obtain outputs where direct: "run_node n L pf C ?t h ?msg (srv d) = Some (direct_reply err outputs, (srv d)\<lparr>ext := x3\<rparr>)"
    and o: "\<forall>k. map_of outputs k = (let v = val L (get L (raw_bytes out) (convertPath k)) in
        if k \<in> output_names ?t \<and> v \<noteq> GNil then Some v else None)"
    using direct_run [OF server(1) code] by blast
  have "GetNodeHandler ?g (srv ?d') \<noteq> None" using d1(9) by (simp add: GetNodeHandler_def)
  with run direct same_outputs [OF laws _ _ _ o] show ?thesis
    using grpc by (cases err) (auto simp: session_reply_def direct_reply_def sent_error_def rpc_error_def)
qed

lemma text_unmarshal_law: "unmarshal_law text_lib demo_jsonlib text_sem"
  unfolding unmarshal_law_def
proof (intro allI impI)
  fix b kvs
  assume b: "den text_sem b = Some (JObj kvs)"
  have v: "rep text_sem r j \<Longrightarrow> val text_lib r = json_val j" for r j
    by (simp add: rep_def text_sem_def text_lib_def of_result_def)
  let ?m = "map (\<lambda>(k, v). (k, json_val v)) kvs"
  have "map_of ?m k = (if k \<in> fst ` set kvs then Some (val text_lib (get text_lib b k)) else None)" if "path_key k" for k
    using get_member [OF text_lib_laws b, of k] that v
    by (auto simp: path_key_def map_of_map map_of_eq_None_iff split: option.splits dest: map_of_SomeD
        intro: rev_image_eqI)
  moreover have "unmarshal demo_jsonlib b = Inr (GMap ?m)" using b by (simp add: demo_jsonlib_def text_sem_def)
  ultimately show "\<exists>m. unmarshal demo_jsonlib b = Inr (GMap m)
      \<and> (\<forall>k. path_key k \<longrightarrow> map_of m k = (if k \<in> fst ` set kvs then Some (val text_lib (get text_lib b k)) else None))"
    by blast
qed

definition greet_type :: reg_type where
  "greet_type = \<lparr>rtName = ''T'', rtFields =
     [\<lparr>fname = ''Node'', ftype = TNamed ''Node'', ftags = [(''spec'', ''id=N'')]\<rparr>,
      \<lparr>fname = ''Tool'', ftype = TNamed ''Tool'', ftags = [(''tool'', ''name=greet'')]\<rparr>,
      \<lparr>fname = ''OutText'', ftype = TVar VOut TString, ftags = [(''spec'', ''name=text,scope=Message'')]\<rparr>]\<rparr>"

definition greeting :: json where
  "greeting = JObj [(''text'', JStr ''hello'')]"

definition greet_code :: "unit node_code" where
  "greet_code = \<lparr>unmarshal_node = (\<lambda>ty c. Inr 3), node_field = (\<lambda>h. Some (demo_node ''greet-1'')), tool_field = (\<lambda>h. True),
     out_specs = (\<lambda>h. []), on_create = (\<lambda>h x. (None, x)),
     on_message = (\<lambda>h m w x. (None, m\<lparr>data := Some (print_json greeting)\<rparr>, w, x)),
     on_close = (\<lambda>h x. (None, x)), on_setup = (\<lambda>h. None)\<rparr>"

definition greet_daemon :: "unit daemon" where
  "greet_daemon = \<lparr>srv = (demo_server None)\<lparr>sessionMode := True, capsOf := \<lparr>robotCapabilities = 0, packageCapabilities = 0\<rparr>,
     fs := demo_os\<lparr>files := [''/tmp/robomotion-sessionsab.sock'' \<mapsto> []]\<rparr>\<rparr>, serving = True\<rparr>"

theorem session_matches_direct_run_witness:
  "\<exists>shown d' direct s'. RunSessionClient 0 text_lib demo_jsonlib Posix greet_code demo_session demo_case Inr Inr [greet_type] ''1'' ''ab''
        ''greet'' [] greet_daemon = Some (Return (CliPrint shown), d')
    \<and> run_node 0 text_lib Posix greet_code (rtFields greet_type) 3 ''{}'' (srv greet_daemon) = Some (CliPrint direct, s')
    \<and> map_of shown ''text'' = Some (GStr ''hello'') \<and> map_of direct ''text'' = Some (GStr ''hello'')"
proof -
  let ?cmd = "\<lparr>ceType = greet_type, ceNodeID = ''N'', ceToolName = ''greet'', ceDescription = []\<rparr>"
  let ?j = "JObj [(''guid'', JStr ''greet-1''), (''name'', JStr ''greet''),
      (''outText'', JObj [(''scope'', JStr ''Message''), (''name'', JStr ''text'')])]"
  have "go_json (GMap (cli_config (rtFields greet_type) ''greet-1'' ''greet'' [] [] [])) = ?j" by code_simp
  then have cfg: "json_text demo_jsonlib (GMap (cli_config (rtFields greet_type) ''greet-1'' ''greet'' [] [] [])) = print_json ?j"
    by (simp only: json_text_def demo_jsonlib_def json_lib.simps sum.case)
  have u: "unesc ''guid'' = ''guid''" "unesc ''text'' = ''text''" "unesc ''__message_type__'' = ''__message_type__''" by simp_all
  have guid: "str text_lib (get text_lib (print_json ?j) ''guid'') = ''greet-1''"
    using json_den_print [of ?j] u by (simp add: text_lib_def del: print_json.simps unesc.simps)
  have msg: "json_text demo_jsonlib (GMap []) = ''{}''" by (simp add: json_text_def demo_jsonlib_def)
  have ok: "json_ok greeting" by (simp add: greeting_def)
  then have den: "json_den (print_json greeting) = Some (JObj [(''text'', JStr ''hello'')])"
    using json_den_print [OF ok] by (simp add: greeting_def del: print_json.simps)
  have val: "val text_lib (get text_lib (print_json greeting) ''text'') = GStr ''hello''"
    using den u by (simp add: text_lib_def del: print_json.simps unesc.simps)
  have plain: "val text_lib (get text_lib ''{}'' ''__message_type__'') \<noteq> GStr ''tool_request''" by code_simp
  have out: "''text'' \<in> output_names (rtFields greet_type)" "path_key ''text''" by (simp_all add: output_names_def) code_simp+
  have made: "makes_node greet_code text_lib ''T'' (print_json ?j) ''greet-1'' 3"
    using guid by (simp add: makes_node_def greet_code_def demo_node_def)
  have c: "map_of (buildCommandMap [greet_type]) ''greet'' = Some ?cmd" by code_simp
  have reach: "fst (sessionDialAddr demo_session Posix ''ab'' (fs (srv greet_daemon))) \<noteq> []" "serving greet_daemon"
    by code_simp+
  have code: "on_create greet_code 3 (ext (srv greet_daemon)) = (None, ())" "on_close greet_code 3 () = (None, ())"
    "\<forall>w. on_message greet_code 3 (NewContext text_lib ''{}'') w ()
      = (None, (NewContext text_lib ''{}'')\<lparr>data := Some (print_json greeting)\<rparr>, w, ())"
    by (simp_all add: greet_code_def)
  have srv: "lmoStore (srv greet_daemon) = None" "\<not> HasCapability CapabilityLMO (capsOf (srv greet_daemon))"
      "GetNodeFactory ''N'' (srv greet_daemon) = Some ''T''"
    by (simp_all add: greet_daemon_def demo_server_def HasCapability_def GetCapabilities_def GetNodeFactory_def)
  have new: "\<forall>w m. fst (readSessionMetadata demo_session Posix ''ab'' w) = Inr m \<longrightarrow> ''greet-1'' \<notin> set (mdNodes m)"
    by (simp add: readSessionMetadata_def demo_session_def split: prod.split sum.split)
  have ne: "print_json greeting \<noteq> []" by (simp add: greeting_def)
  have ctx: "buildCLIContext demo_case (rtFields (ceType ?cmd)) (drop_flags [''vault-id'', ''item-id''] []) = ([], [])"
    by (simp add: buildCLIContext_def drop_flags_def)
  have ids: "flag_get [] ''vault-id'' = []" "flag_get [] ''item-id'' = []" by (simp_all add: flag_get_def)
  have name: "''greet'' @ ''-'' @ ''1'' = ''greet-1''" by simp
  from session_matches_direct_run [where L = "text_lib" and J = "demo_jsonlib" and D = "text_sem" and d = "greet_daemon" and cmd = "?cmd"
      and name = "''greet''" and callID = "''1''" and flags = "[]" and patches = "[]" and msgData = "[]" and K = "demo_case"
      and types = "[greet_type]" and compress = "Inr" and dec = "Inr" and ty = "''T''" and z = "''{}''" and n = "0" and h = "3"
      and C = "greet_code" and S = "demo_session" and sid = "''ab''" and pf = "Posix" and err = "None"
      and out = "(NewContext text_lib ''{}'')\<lparr>data := Some (print_json greeting)\<rparr>",
      unfolded ids name msg command_entry.simps cfg,
      OF text_unmarshal_law reach c srv(3) ctx [unfolded command_entry.simps] made new refl refl srv(1,2) plain _ code(1,3,2)]
  show ?thesis using ne den val out by (auto simp: text_sem_def)
qed

end
