(* ===== verification/Skill_Md.thy ===== *)
theory Skill_Md
  imports Cli
begin

text \<open>
  The generated skill document: \<^verbatim>\<open>runtime/skillmd.go\<close>.  The commands are collected as in \<^verbatim>\<open>gatherCommands\<close>
  and printed as Markdown; \<open>None\<close> is the exit with status 1.  \<open>descr\<close> is the description of the config
  file, and \<^verbatim>\<open>strcase\<close> is a parameter, as in the theory of the command line.
\<close>

section \<open>The commands\<close>

record skill_param =
  spFlag :: string
  spType :: string
  spRequired :: bool
  spDescription :: string

record skill_command =
  skName :: string
  skDescription :: string
  skParams :: "skill_param list"
  skOutputs :: "(string \<times> string) list"

definition inferBinaryName :: "string \<Rightarrow> string" where
  "inferBinaryName pkgName =
     (let parts = split_on (CHR ''.'') pkgName in
      if 1 < length parts then ''robomotion-'' @ to_lower (last parts) else ''robomotion-'' @ to_lower pkgName)"

definition skill_desc :: "tag_map \<Rightarrow> string" where
  "skill_desc m =
     (if tm_get m ''description'' = [] \<and> tm_get m ''title'' \<noteq> [] then tm_get m ''title'' else tm_get m ''description'')"

definition skill_param_of :: "strcase \<Rightarrow> field \<Rightarrow> skill_param option" where
  "skill_param_of K f =
     (let m = parseSpec (tag_get f ''spec'');
          param = (\<lambda>req. \<lparr>spFlag = ToKebab K (tm_get m ''name''), spType = type_of_tag m, spRequired = req,
                          spDescription = skill_desc m\<rparr>)
      in if ftype f = TCredential \<or> tm_get m ''name'' = [] then None
         else if isInVariable (ftype f) then Some (param True)
         else if isOptVariable (ftype f) then Some (param False)
         else None)"

definition skill_output_of :: "field \<Rightarrow> (string \<times> string) option" where
  "skill_output_of f =
     (let m = parseSpec (tag_get f ''spec'') in
      if ftype f = TCredential \<or> tm_get m ''name'' = [] then None
      else if isInVariable (ftype f) \<or> isOptVariable (ftype f) then None
      else if isOutVariable (ftype f) then Some (tm_get m ''name'', type_of_tag m)
      else None)"

text \<open>The tool name and description of a type that is listed.\<close>

definition skill_tool :: "reg_type \<Rightarrow> tag_map option" where
  "skill_tool t = (case field_by_name (rtFields t) ''Tool'' of
     None \<Rightarrow> None
   | Some f \<Rightarrow> (let parts = parseSpec (tag_get f ''tool'') in if tm_get parts ''name'' = [] then None else Some parts))"

definition skill_of_type :: "strcase \<Rightarrow> reg_type \<Rightarrow> skill_command option" where
  "skill_of_type K t = map_option (\<lambda>parts.
     \<lparr>skName = tm_get parts ''name'', skDescription = tm_get parts ''description'',
      skParams = List.map_filter (skill_param_of K) (rtFields t),
      skOutputs = List.map_filter skill_output_of (rtFields t)\<rparr>) (skill_tool t)"

definition has_credentials :: "reg_type list \<Rightarrow> bool" where
  "has_credentials types \<longleftrightarrow> list_ex (\<lambda>t. skill_tool t \<noteq> None \<and> list_ex (\<lambda>f. ftype f = TCredential) (rtFields t)) types"

text \<open>A type with a tool whose id has the ending, or whose tool name is the word.\<close>

definition has_tool :: "string \<Rightarrow> string \<Rightarrow> reg_type list \<Rightarrow> bool" where
  "has_tool ending word types \<longleftrightarrow> list_ex (\<lambda>t. case skill_tool t of
     None \<Rightarrow> False
   | Some parts \<Rightarrow>
       (let specID = (if tm_get parts ''id'' = [] then tm_get parts ''name'' else tm_get parts ''id'') in
        contains_str specID ending \<or> equal_fold (tm_get parts ''name'') word)) types"

section \<open>The document\<close>

definition line :: "string \<Rightarrow> string" where
  "line s = s @ newline"

definition quoted :: "string \<Rightarrow> string" where
  "quoted s = [CHR 0x22] @ s @ [CHR 0x22]"

definition short_name :: "string \<Rightarrow> string" where
  "short_name name = to_lower (trim_prefix name ''Robomotion.'')"

definition usage_line :: "string \<Rightarrow> skill_command \<Rightarrow> string" where
  "usage_line binaryName c =
     ''    '' @ binaryName @ '' '' @ skName c
     @ concat (map (\<lambda>p. '' --'' @ spFlag p @ ''=<'' @ spType p @ ''>'') (filter spRequired (skParams c)))
     @ concat (map (\<lambda>p. '' [--'' @ spFlag p @ ''=<'' @ spType p @ ''>]'') (filter (\<lambda>p. \<not> spRequired p) (skParams c)))
     @ newline @ newline"

definition param_line :: "skill_param \<Rightarrow> string" where
  "param_line p = line (''- `--'' @ spFlag p @ ''` ('' @ spType p @ '', '' @ (if spRequired p then ''required'' else ''optional'')
     @ '')'' @ (if spDescription p \<noteq> [] then '': '' @ spDescription p else []))"

definition command_section :: "string \<Rightarrow> skill_command \<Rightarrow> string" where
  "command_section binaryName c =
     line (''### '' @ skName c) @ (if skDescription c \<noteq> [] then line (skDescription c) else []) @ newline
     @ usage_line binaryName c
     @ (if skParams c \<noteq> [] then line ''**Parameters:**'' @ concat (map param_line (skParams c)) @ newline else [])
     @ (if skOutputs c \<noteq> [] then
          line ''**Output:**'' @ line ''```json''
          @ line (''{'' @ join_with '', '' (map (\<lambda>(n, t). quoted n @ '': '' @ quoted (''<'' @ t @ ''>'')) (skOutputs c)) @ ''}'')
          @ line ''```'' @ newline
        else [])"

definition vault_words :: string where
  "vault_words = '' --vault='' @ quoted ''My Vault'' @ '' --item='' @ quoted ''My Item''"

definition auth_section :: "string \<Rightarrow> string \<Rightarrow> string" where
  "auth_section binaryName first =
     line ''## Authentication'' @ newline @ line ''By name (human-friendly):'' @ newline
     @ line (''    '' @ binaryName @ '' '' @ first @ vault_words @ '' ...'') @ newline
     @ line ''By ID (machine-friendly):'' @ newline
     @ line (''    '' @ binaryName @ '' '' @ first @ '' --vault-id=<id> --item-id=<id> ...'') @ newline
     @ line ''Alternatively, set `ROBOMOTION_API_TOKEN` and `ROBOMOTION_ROBOT_ID` environment variables for token-based auth.''"

definition sessions_section :: "string \<Rightarrow> string \<Rightarrow> string" where
  "sessions_section binaryName first =
     newline @ line ''## Sessions'' @ newline
     @ line ''This package supports persistent connections. Start a session to reuse connections across calls:'' @ newline
     @ line (''    '' @ binaryName @ '' connect'' @ vault_words @ '' --session'')
     @ line (''    '' @ binaryName @ '' '' @ first @ '' --session-id=<id> --conn-id=<from-connect> ...'')
     @ line (''    '' @ binaryName @ '' --session-close=<id>'')"

definition generateSkillMD :: "strcase \<Rightarrow> reg_type list \<Rightarrow> string \<Rightarrow> string \<Rightarrow> string option" where
  "generateSkillMD K types name descr =
     (let binaryName = inferBinaryName name in
      case List.map_filter (skill_of_type K) types of
        [] \<Rightarrow> None
      | c # cs \<Rightarrow> Some (
          line ''---'' @ line (''name: '' @ short_name name)
          @ line (''description: '' @ (if descr = [] then name else descr))
          @ (if has_credentials types then line ''compatibility: Requires 'robomotion login' for vault credentials'' else [])
          @ line ''---'' @ newline
          @ line (''# '' @ name) @ newline @ line (''Binary: `'' @ binaryName @ ''`'')
          @ line (''Also available via: `robomotion '' @ short_name name @ '' <command> [flags]`'') @ newline
          @ line ''## Commands'' @ newline @ concat (map (command_section binaryName) (c # cs))
          @ (if has_credentials types then auth_section binaryName (skName c) else [])
          @ (if has_tool ''.Connect'' ''connect'' types \<and> has_tool ''.Disconnect'' ''disconnect'' types
             then sessions_section binaryName (skName c) else [])))"

section \<open>Properties\<close>

lemma in_map_filter: "x \<in> set xs \<Longrightarrow> f x = Some y \<Longrightarrow> y \<in> set (List.map_filter f xs)"
  by (induction xs) (auto simp: List.map_filter_simps split: option.splits)

lemma skill_output_listed: "skill_output_of f = output_of_field f"
  using credential_no_variable by (simp add: skill_output_of_def output_of_field_def isVariable_def Let_def)

lemma skill_param_iff:
  "skill_param_of K f = Some p \<longleftrightarrow>
     (let m = parseSpec (tag_get f ''spec'') in
      tm_get m ''name'' \<noteq> [] \<and> (isInVariable (ftype f) \<or> isOptVariable (ftype f))
      \<and> p = \<lparr>spFlag = ToKebab K (tm_get m ''name''), spType = type_of_tag m, spRequired = isInVariable (ftype f),
             spDescription = skill_desc m\<rparr>)"
  using credential_no_variable by (simp add: skill_param_of_def isVariable_def Let_def) auto

lemma skill_param_listed:
  assumes "skill_param_of K f = Some p" "ToKebab K (tm_get (parseSpec (tag_get f ''spec'')) ''name'') \<noteq> []"
  shows "\<exists>q. param_of_field K f = Some q \<and> cpName q = spFlag p \<and> cpType q = spType p
    \<and> (cpRequired q \<longleftrightarrow> spRequired p \<and> \<not> tm_has (parseSpec (tag_get f ''spec'')) ''optional'')"
  using assms(1) by (simp add: skill_param_iff param_of_field_def Let_def assms(2))

lemma skill_param_unlisted:
  "param_of_field K f = Some q \<Longrightarrow> skill_param_of K f = None \<longleftrightarrow>
     \<not> isVariable (ftype f) \<or> tm_get (parseSpec (tag_get f ''spec'')) ''name'' = []"
  using credential_no_variable by (auto simp: skill_param_of_def param_of_field_def isVariable_def Let_def split: if_splits)

text \<open>The fields whose parameters both show: the variables with a name in their spec.\<close>

definition named_variable :: "field \<Rightarrow> bool" where
  "named_variable f \<longleftrightarrow> isVariable (ftype f) \<and> tm_get (parseSpec (tag_get f ''spec'')) ''name'' \<noteq> []"

lemma skill_params_listed:
  assumes "\<And>f. f \<in> set flds \<Longrightarrow> named_variable f \<Longrightarrow> ToKebab K (tm_get (parseSpec (tag_get f ''spec'')) ''name'') \<noteq> []"
  shows "map (\<lambda>p. (spFlag p, spType p)) (List.map_filter (skill_param_of K) flds)
    = map (\<lambda>q. (cpName q, cpType q)) (List.map_filter (param_of_field K) (filter named_variable flds))"
  using assms
proof (induction flds)
  case (Cons f flds)
  note IH = Cons.IH [OF Cons.prems [OF list.set_intros(2)]]
  show ?case
  proof (cases "skill_param_of K f")
    case None
    then have "\<not> named_variable f \<or> param_of_field K f = None"
      using skill_param_unlisted by (cases "param_of_field K f") (auto simp: named_variable_def)
    with None IH show ?thesis by (auto simp: List.map_filter_simps)
  next
    case (Some p)
    then have v: "named_variable f" by (auto simp: skill_param_iff named_variable_def isVariable_def Let_def)
    then obtain q where q: "param_of_field K f = Some q" "cpName q = spFlag p" "cpType q = spType p"
      using skill_param_listed [OF Some Cons.prems] by auto
    with v Some IH show ?thesis by (simp add: List.map_filter_simps)
  qed
qed (simp add: List.map_filter_simps)

text \<open>
  C35. The skill document and \<^verbatim>\<open>--list-commands\<close> show the same tools in the same order, with the same
  outputs.  The parameters of the document are those of the listing, in its order and with its types, that come from a
  variable with a name in its spec; the listing requires such a one exactly when the document does and its tag has no
  \<^verbatim>\<open>optional\<close>.  The document leaves out the other parameters that the command takes: variables that have
  only a title, and enum options.
\<close>

theorem skill_md_agrees_with_listing:
  assumes "\<forall>t \<in> set types. \<forall>f \<in> set (rtFields t). named_variable f \<longrightarrow>
      ToKebab K (tm_get (parseSpec (tag_get f ''spec'')) ''name'') \<noteq> []"
  shows "map skName (List.map_filter (skill_of_type K) types) = map ccName (List.map_filter (command_info K) types)
    \<and> (\<forall>t \<in> set types. \<forall>c i. skill_of_type K t = Some c \<longrightarrow> command_info K t = Some i \<longrightarrow>
        skOutputs c = ccOutputs i
        \<and> map (\<lambda>p. (spFlag p, spType p)) (skParams c)
            = map (\<lambda>q. (cpName q, cpType q)) (List.map_filter (param_of_field K) (filter named_variable (rtFields t)))
        \<and> (\<forall>f \<in> set (rtFields t). \<forall>q. param_of_field K f = Some q \<longrightarrow> q \<in> set (ccParameters i) \<and>
            (if named_variable f then \<exists>p \<in> set (skParams c). skill_param_of K f = Some p \<and> spFlag p = cpName q \<and> spType p = cpType q
               \<and> (cpRequired q \<longleftrightarrow> spRequired p \<and> \<not> tm_has (parseSpec (tag_get f ''spec'')) ''optional'')
             else skill_param_of K f = None)))"
proof -
  have n: "map_option skName (skill_of_type K t) = map_option ccName (command_info K t)" for t
    by (auto simp: skill_of_type_def command_info_def skill_tool_def command_of_def Let_def split: option.splits)
  have "map skName (List.map_filter (skill_of_type K) types) = map ccName (List.map_filter (command_info K) types)"
  proof (induction types)
    case (Cons t types)
    then show ?case using n [of t]
      by (cases "skill_of_type K t"; cases "command_info K t") (simp_all add: List.map_filter_simps)
  qed (simp add: List.map_filter_simps)
  moreover have "skOutputs c = ccOutputs i
      \<and> map (\<lambda>p. (spFlag p, spType p)) (skParams c)
        = map (\<lambda>q. (cpName q, cpType q)) (List.map_filter (param_of_field K) (filter named_variable (rtFields t)))"
    if "t \<in> set types" "skill_of_type K t = Some c" "command_info K t = Some i" for t c i
    using that(2,3) skill_params_listed [of "rtFields t" K] assms that(1)
    by (auto simp: skill_of_type_def command_info_def skill_output_listed [abs_def])
  moreover have "q \<in> set (ccParameters i) \<and>
      (if named_variable f then \<exists>p \<in> set (skParams c). skill_param_of K f = Some p \<and> spFlag p = cpName q \<and> spType p = cpType q
         \<and> (cpRequired q \<longleftrightarrow> spRequired p \<and> \<not> tm_has (parseSpec (tag_get f ''spec'')) ''optional'')
       else skill_param_of K f = None)"
    if "t \<in> set types" and q: "skill_of_type K t = Some c" "command_info K t = Some i" "f \<in> set (rtFields t)" "param_of_field K f = Some q" for t c i f q
  proof -
    have in_listing: "q \<in> set (ccParameters i)" using q by (auto simp: command_info_def in_map_filter)
    show ?thesis
    proof (cases "skill_param_of K f")
      case None
      then show ?thesis using in_listing skill_param_unlisted [OF q(4)] by (auto simp: named_variable_def)
    next
      case (Some p)
      then have "named_variable f" using skill_param_unlisted [OF q(4)] by (auto simp: named_variable_def)
      moreover have "p \<in> set (skParams c)" using q(1,3) Some by (auto simp: skill_of_type_def in_map_filter)
      ultimately show ?thesis using in_listing Some skill_param_listed [OF Some] assms that(1) q(3,4) by auto
    qed
  qed
  ultimately show ?thesis by (intro conjI ballI allI impI) (simp_all del: if_split)
qed

text \<open>The listing of a type with an optional input and an enum option.\<close>

definition demo_tool :: reg_type where
  "demo_tool = \<lparr>rtName = ''Up'', rtFields =
     [\<lparr>fname = ''Tool'', ftype = TNamed ''Tool'', ftags = [(''tool'', ''name=upload'')]\<rparr>,
      \<lparr>fname = ''InPath'', ftype = TVar VIn TString, ftags = [(''spec'', ''name=path,optional'')]\<rparr>,
      \<lparr>fname = ''OptMode'', ftype = TString, ftags = [(''spec'', ''title=Mode,enum=a|b'')]\<rparr>]\<rparr>"

theorem skill_md_agrees_with_listing_witness:
  "map (\<lambda>p. (spFlag p, spType p)) (skParams (the (skill_of_type demo_case demo_tool))) = [(''path'', ''string'')]
   \<and> (\<exists>q \<in> set (ccParameters (the (command_info demo_case demo_tool))). cpName q = ''mode'')"
proof -
  let ?f = "rtFields demo_tool ! 2"
  have k: "ToKebab demo_case (tm_get (parseSpec (tag_get f ''spec'')) ''name'') \<noteq> []"
    if "named_variable f" for f using that by (simp add: demo_case_def to_lower_def named_variable_def)
  have f: "?f \<in> set (rtFields demo_tool)" by (simp add: demo_tool_def)
  have c: "skill_of_type demo_case demo_tool \<noteq> None" "command_info demo_case demo_tool \<noteq> None"
    "map_option cpName (param_of_field demo_case ?f) = Some ''mode''"
    "map (\<lambda>q. (cpName q, cpType q)) (List.map_filter (param_of_field demo_case) (filter named_variable (rtFields demo_tool)))
       = [(''path'', ''string'')]"
    by code_simp+
  then obtain ci i q where ci: "skill_of_type demo_case demo_tool = Some ci" "command_info demo_case demo_tool = Some i"
    "param_of_field demo_case ?f = Some q" "cpName q = ''mode''" by auto
  from skill_md_agrees_with_listing [of "[demo_tool]" demo_case] k have
    "map (\<lambda>p. (spFlag p, spType p)) (skParams ci)
      = map (\<lambda>q. (cpName q, cpType q)) (List.map_filter (param_of_field demo_case) (filter named_variable (rtFields demo_tool)))"
    "q \<in> set (ccParameters i)"
    using ci f by auto
  then show ?thesis using ci c(4) by auto
qed

end
