(* ===== verification/Oauth.thy ===== *)
theory Oauth
  imports Prelude
begin

text \<open>
  The browser dialog of OAuth2: \<^verbatim>\<open>runtime/oauth.go\<close>.  The global variables are the record \<open>oauth_state\<close>; a
  listener is named by a number.  The local port is bound by \<^verbatim>\<open>net.Listen\<close>, whose outcome at a moment is
  the parameter \<open>listen\<close>; the browser, the OAuth configuration and the web server are parameters as well:
  what reaches the process after the browser was opened is a list of \<open>event\<close>s with their times.  All
  times are in milliseconds since the start.
\<close>

section \<open>Constants\<close>

definition OAuth2RedirectURL :: string where
  "OAuth2RedirectURL = ''http://localhost:9876/oauth2/callback''"

definition OAuth2PortRetryInterval :: nat where
  "OAuth2PortRetryInterval = 5000"

definition OAuth2PortMaxTimeout :: nat where
  "OAuth2PortMaxTimeout = 300000"

definition OAuth2AuthTimeout :: nat where
  "OAuth2AuthTimeout = 300000"

record oauth_state =
  activeOAuthServer :: bool
  activeOAuthListener :: "nat option"

section \<open>The port\<close>

text \<open>
  The retry loop.  \<open>delay a\<close> is the time that passes in attempt \<open>a\<close> beyond the sleep; the attempts are counted
  from one.  The result is the listener or an error, the number of attempts and the time at the end.
\<close>

function acquire :: "(nat \<Rightarrow> nat res) \<Rightarrow> (nat \<Rightarrow> nat) \<Rightarrow> nat \<Rightarrow> nat \<Rightarrow> nat res \<times> nat \<times> nat" where
  "acquire listen delay attempt now =
     (case listen now of
        Inr ln \<Rightarrow> (Inr ln, attempt, now + delay attempt)
      | Inl e \<Rightarrow>
          let elapsed = now + delay attempt in
          if OAuth2PortMaxTimeout \<le> elapsed then
            (Inl (Errorf ''OAuth failed: could not bind to port 9876''), attempt, elapsed)
          else acquire listen delay (attempt + 1) (elapsed + OAuth2PortRetryInterval))"
  by pat_completeness auto
termination
  by (relation "measure (\<lambda>(listen, delay, attempt, now). OAuth2PortMaxTimeout - now)")
    (auto simp: OAuth2PortMaxTimeout_def OAuth2PortRetryInterval_def)

declare acquire.simps [simp del]

definition acquireOAuthPort :: "(nat \<Rightarrow> nat res) \<Rightarrow> (nat \<Rightarrow> nat) \<Rightarrow> oauth_state \<Rightarrow> (nat res \<times> nat \<times> nat) \<times> oauth_state" where
  "acquireOAuthPort listen delay s =
     (let r = acquire listen delay 1 0 in
      (r, case fst r of Inr ln \<Rightarrow> s\<lparr>activeOAuthListener := Some ln\<rparr> | Inl e \<Rightarrow> s))"

section \<open>The callback\<close>

text \<open>A request at the callback address, by its query; what the handler sends on its channel, and the page it answers.\<close>

type_synonym query = "(string \<times> string) list"

definition query_get :: "query \<Rightarrow> string \<Rightarrow> string" where
  "query_get q k = (case map_of q k of None \<Rightarrow> [] | Some v \<Rightarrow> v)"

definition callback_message :: "query \<Rightarrow> string" where
  "callback_message q =
     (let errMsg = (if query_get q ''error'' = [] then ''no authorization code received'' else query_get q ''error'');
          errDesc = query_get q ''error_description''
      in if errDesc \<noteq> [] then errMsg @ '': '' @ errDesc else errMsg)"

definition callback :: "query \<Rightarrow> string res" where
  "callback q = (if query_get q ''code'' = [] then Inl (Errorf (''OAuth error: '' @ callback_message q))
     else Inr (query_get q ''code''))"

text \<open>The events while the dialog waits: a request at the callback, or the end of the server with an error.\<close>

datatype event = Callback query | ServerError error

definition sent :: "event \<Rightarrow> string res" where
  "sent ev = (case ev of Callback q \<Rightarrow> callback q | ServerError e \<Rightarrow> Inl e)"

text \<open>
  The \<^verbatim>\<open>select\<close>, which starts at the time \<open>opened\<close>, when \<^verbatim>\<open>browser.OpenURL\<close> has returned.  Events come in the
  order of their times.  Each channel holds one value, so of those that came before, the first code and the
  first error are ready; when both are, either may be received, which \<open>choice\<close> says.  When none is, the
  first event before the timeout decides.  An event at the very moment of the timeout may lose against it, and
  does here.
\<close>

definition auth_timeout :: error where
  "auth_timeout = Errorf ''OAuth authorization timed out after 5m0s waiting for user to complete authorization in browser''"

definition codeCh :: "(nat \<times> event) list \<Rightarrow> string option" where
  "codeCh evs = (case filter (\<lambda>r. \<not> is_err r) (map (sent \<circ> snd) evs) of Inr code # _ \<Rightarrow> Some code | _ \<Rightarrow> None)"

definition errCh :: "(nat \<times> event) list \<Rightarrow> error option" where
  "errCh evs = (case filter is_err (map (sent \<circ> snd) evs) of Inl e # _ \<Rightarrow> Some e | _ \<Rightarrow> None)"

definition await_code :: "nat \<Rightarrow> bool \<Rightarrow> (nat \<times> event) list \<Rightarrow> string res" where
  "await_code opened choice evs =
     (let before = takeWhile (\<lambda>ev. fst ev \<le> opened) evs in
      case (codeCh before, errCh before) of
        (Some code, Some e) \<Rightarrow> if choice then Inr code else Inl e
      | (Some code, None) \<Rightarrow> Inr code
      | (None, Some e) \<Rightarrow> Inl e
      | (None, None) \<Rightarrow>
          (case evs of
             [] \<Rightarrow> Inl auth_timeout
           | (t, ev) # _ \<Rightarrow> if t < opened + OAuth2AuthTimeout then sent ev else Inl auth_timeout))"

section \<open>The dialog\<close>

definition release :: "oauth_state \<Rightarrow> oauth_state" where
  "release s = s\<lparr>activeOAuthServer := False, activeOAuthListener := None\<rparr>"

text \<open>
  \<^verbatim>\<open>OpenOAuthDialog\<close>: the deferred function runs once the port was acquired.  \<open>open_browser\<close> is the outcome of
  \<^verbatim>\<open>browser.OpenURL\<close> for the address that the redirect URL gives, and the time at which it returned.
\<close>

definition OpenOAuthDialog :: "(nat \<Rightarrow> nat res) \<Rightarrow> (nat \<Rightarrow> nat) \<Rightarrow> (string \<Rightarrow> error option \<times> nat) \<Rightarrow> bool \<Rightarrow> (nat \<times> event) list
    \<Rightarrow> oauth_state \<Rightarrow> string res \<times> oauth_state" where
  "OpenOAuthDialog listen delay open_browser choice evs s =
     (case acquireOAuthPort listen delay s of
        ((Inl e, _), s1) \<Rightarrow> (Inl e, s1)
      | ((Inr ln, _), s1) \<Rightarrow>
          let s2 = s1\<lparr>activeOAuthServer := True\<rparr> in
          (case open_browser OAuth2RedirectURL of
             (Some e, opened) \<Rightarrow> Inl (Wrap ''failed to open browser'' e)
           | (None, opened) \<Rightarrow> await_code opened choice evs, release s2))"

section \<open>Properties\<close>

lemma acquire_bounds:
  assumes "acquire listen delay a now = (r, n, t)" "now < OAuth2PortMaxTimeout + OAuth2PortRetryInterval"
  shows "a \<le> n \<and> now + OAuth2PortRetryInterval * (n - a) \<le> t
    \<and> OAuth2PortRetryInterval * (n - a) + now < OAuth2PortMaxTimeout + OAuth2PortRetryInterval"
  using assms
proof (induction listen delay a now arbitrary: r n t rule: acquire.induct)
  case (1 listen delay attempt now)
  show ?case
  proof (cases "(\<exists>ln. listen now = Inr ln) \<or> OAuth2PortMaxTimeout \<le> now + delay attempt")
    case True
    then show ?thesis using "1.prems" by (subst (asm) acquire.simps) (auto simp: Let_def split: sum.splits if_splits)
  next
    case False
    then obtain e where e: "listen now = Inl e" "\<not> OAuth2PortMaxTimeout \<le> now + delay attempt" by (cases "listen now") auto
    let ?m = "now + delay attempt + OAuth2PortRetryInterval"
    have r: "acquire listen delay (attempt + 1) ?m = (r, n, t)"
      using "1.prems"(1) e by (subst (asm) acquire.simps) simp
    have "attempt + 1 \<le> n \<and> ?m + OAuth2PortRetryInterval * (n - (attempt + 1)) \<le> t
        \<and> OAuth2PortRetryInterval * (n - (attempt + 1)) + ?m < OAuth2PortMaxTimeout + OAuth2PortRetryInterval"
      using "1.IH" [OF e(1) refl e(2) r] e(2) by simp
    then show ?thesis by (auto simp: OAuth2PortRetryInterval_def)
  qed
qed

lemma acquire_fails:
  "acquire listen delay a now = (Inl e, n, t) \<Longrightarrow> OAuth2PortMaxTimeout \<le> t"
proof (induction listen delay a now arbitrary: e n t rule: acquire.induct)
  case (1 listen delay attempt now)
  from "1.prems" show ?case
    by (subst (asm) acquire.simps) (auto simp: Let_def dest: "1.IH" [OF _ refl] split: sum.splits if_splits)
qed

lemma codeCh_first:
  "codeCh evs = Some code \<Longrightarrow> \<exists>pre t ev rest. evs = pre @ (t, ev) # rest \<and> sent ev = Inr code
    \<and> (\<forall>x \<in> set pre. is_err (sent (snd x)))"
proof (induction evs)
  case (Cons x evs)
  show ?case
  proof (cases "sent (snd x)")
    case (Inl e)
    then have "codeCh evs = Some code" using Cons.prems by (simp add: codeCh_def)
    then obtain pre t ev rest where "evs = pre @ (t, ev) # rest" "sent ev = Inr code" "\<forall>x \<in> set pre. is_err (sent (snd x))"
      using Cons.IH by blast
    then have "x # evs = (x # pre) @ (t, ev) # rest \<and> sent ev = Inr code \<and> (\<forall>y \<in> set (x # pre). is_err (sent (snd y)))"
      using Inl by simp
    then show ?thesis by blast
  next
    case (Inr c)
    then have "x # evs = [] @ (fst x, snd x) # evs \<and> sent (snd x) = Inr code" using Cons.prems by (simp add: codeCh_def)
    then show ?thesis by (metis empty_iff list.set(1))
  qed
qed (simp add: codeCh_def)

lemma no_early_event: "codeCh evs = None \<Longrightarrow> errCh evs = None \<Longrightarrow> evs = []"
  by (cases evs; cases "sent (snd (hd evs))") (auto simp: codeCh_def errCh_def)

lemma sent_code: "sent ev = Inr code \<longleftrightarrow> code \<noteq> [] \<and> (\<exists>q. ev = Callback q \<and> query_get q ''code'' = code)"
  by (auto simp: sent_def callback_def split: event.splits if_splits)

lemma await_code_sent:
  assumes "await_code opened choice evs = Inr code"
  shows "\<exists>pre t ev rest. evs = pre @ (t, ev) # rest \<and> sent ev = Inr code \<and> t < opened + OAuth2AuthTimeout
    \<and> (\<forall>x \<in> set pre. t \<le> opened \<and> is_err (sent (snd x)))"
proof -
  let ?before = "takeWhile (\<lambda>ev. fst ev \<le> opened) evs"
  show ?thesis
  proof (cases "codeCh ?before")
    case None
    then have e: "errCh ?before = None" using assms by (auto simp: await_code_def Let_def split: option.splits)
    have "\<exists>t ev rest. evs = (t, ev) # rest \<and> t < opened + OAuth2AuthTimeout \<and> sent ev = Inr code"
      using assms None e by (auto simp: await_code_def Let_def split: list.splits if_splits)
    then show ?thesis by (metis append_Nil empty_iff list.set(1))
  next
    case (Some c)
    then have "c = code" using assms by (auto simp: await_code_def Let_def split: option.splits if_splits)
    then obtain pre t ev rest where b: "?before = pre @ (t, ev) # rest" "sent ev = Inr code" "\<forall>x \<in> set pre. is_err (sent (snd x))"
      using codeCh_first Some by blast
    have "(t, ev) \<in> set ?before" using b(1) by simp
    then have t: "t \<le> opened" using set_takeWhileD by fastforce
    have "evs = pre @ (t, ev) # rest @ dropWhile (\<lambda>ev. fst ev \<le> opened) evs"
      using b(1) takeWhile_dropWhile_id [of "\<lambda>ev. fst ev \<le> opened" evs] by simp
    moreover have "t < opened + OAuth2AuthTimeout" using t by (simp add: OAuth2AuthTimeout_def)
    ultimately show ?thesis using b(2,3) t by blast
  qed
qed

text \<open>
  C36. Waiting for the callback port always ends: at the latest after 61 attempts, and with an error only
  after the full 300 seconds; a dialog always leaves the port and the server released when it held
  them, whatever the browser, the user or the server did; and a code it returns is not empty and is the first
  that came with a callback, in time.  Only what failed while the browser was being opened may have come before.
\<close>

theorem oauth_dialog_ends:
  assumes "activeOAuthServer s = False" "activeOAuthListener s = None"
  shows "(\<exists>r n t. fst (acquireOAuthPort listen delay s) = (r, n, t) \<and> n \<le> 61
      \<and> (\<forall>e. r = Inl e \<longrightarrow> OAuth2PortMaxTimeout \<le> t))
    \<and> snd (OpenOAuthDialog listen delay open_browser choice evs s) = s
    \<and> (\<forall>code. fst (OpenOAuthDialog listen delay open_browser choice evs s) = Inr code \<longrightarrow>
        code \<noteq> [] \<and> (\<exists>opened pre t q rest. open_browser OAuth2RedirectURL = (None, opened)
          \<and> evs = pre @ (t, Callback q) # rest \<and> t < opened + OAuth2AuthTimeout \<and> query_get q ''code'' = code
          \<and> (\<forall>x \<in> set pre. t \<le> opened \<and> is_err (sent (snd x)))))"
proof -
  obtain r n t where a: "acquire listen delay 1 0 = (r, n, t)" by (metis prod_cases3)
  have "n \<le> 61" using acquire_bounds [OF a]
    by (simp add: OAuth2PortRetryInterval_def OAuth2PortMaxTimeout_def) arith
  moreover have "\<forall>e. r = Inl e \<longrightarrow> OAuth2PortMaxTimeout \<le> t" using a acquire_fails by blast
  moreover have "snd (OpenOAuthDialog listen delay open_browser choice evs s) = s"
    using assms a by (cases s; cases r) (simp_all add: OpenOAuthDialog_def acquireOAuthPort_def release_def Let_def)
  moreover have "code \<noteq> [] \<and> (\<exists>opened pre t q rest. open_browser OAuth2RedirectURL = (None, opened)
      \<and> evs = pre @ (t, Callback q) # rest \<and> t < opened + OAuth2AuthTimeout \<and> query_get q ''code'' = code
      \<and> (\<forall>x \<in> set pre. t \<le> opened \<and> is_err (sent (snd x))))"
    if c: "fst (OpenOAuthDialog listen delay open_browser choice evs s) = Inr code" for code
  proof -
    obtain opened where o: "open_browser OAuth2RedirectURL = (None, opened)" "await_code opened choice evs = Inr code"
      using c a by (cases r) (auto simp: OpenOAuthDialog_def acquireOAuthPort_def Let_def split: option.splits prod.splits)
    show ?thesis using await_code_sent [OF o(2)] o(1) unfolding sent_code by blast
  qed
  ultimately show ?thesis using a by (simp add: acquireOAuthPort_def)
qed

definition demo_dialog :: "string res \<times> oauth_state" where
  "demo_dialog = OpenOAuthDialog (\<lambda>t. if t < 12000 then Inl (Errorf ''in use'') else Inr 3) (\<lambda>a. 7) (\<lambda>u. (None, 100)) True
     [(60, Callback []), (90, Callback [(''code'', ''4/0A'')])] \<lparr>activeOAuthServer = False, activeOAuthListener = None\<rparr>"

theorem oauth_dialog_ends_witness:
  "demo_dialog = (Inr ''4/0A'', \<lparr>activeOAuthServer = False, activeOAuthListener = None\<rparr>)"
proof -
  have "fst demo_dialog = Inr ''4/0A''"
    by (simp add: demo_dialog_def OpenOAuthDialog_def acquireOAuthPort_def acquire.simps OAuth2PortMaxTimeout_def
        OAuth2PortRetryInterval_def await_code_def codeCh_def errCh_def sent_def callback_def query_get_def)
  moreover have "snd demo_dialog = \<lparr>activeOAuthServer = False, activeOAuthListener = None\<rparr>"
    unfolding demo_dialog_def by (rule conjunct1 [OF conjunct2 [OF oauth_dialog_ends]]) simp_all
  ultimately show ?thesis by (simp add: prod_eq_iff)
qed

end
