(* ===== verification/Test_Context.thy ===== *)
theory Test_Context
  imports Variables Node_Server
begin

text \<open>
  The doubles the library offers for unit tests of nodes: \<^verbatim>\<open>testing/context.go\<close> (the message context in
  memory) and \<^verbatim>\<open>testing/harness.go\<close> (running one node on it).  The node under test is a parameter, the
  record \<open>test_node\<close>; its state \<open>'e\<close> holds the fields of the node.  Locks are left out.
\<close>

section \<open>The context\<close>

record mock_context =
  mcData :: "bytes option"
  mcId :: string

definition mc_bytes :: "mock_context \<Rightarrow> bytes" where
  "mc_bytes c = (case mcData c of None \<Rightarrow> [] | Some b \<Rightarrow> b)"

text \<open>The argument is the first map given, if any; an error of \<^verbatim>\<open>json.Marshal\<close> leaves the empty object.\<close>

definition NewMockContext :: "json_lib \<Rightarrow> (string \<times> goval) list option \<Rightarrow> mock_context" where
  "NewMockContext J initial = (case initial of
     None \<Rightarrow> \<lparr>mcData = Some ''{}'', mcId = []\<rparr>
   | Some m \<Rightarrow>
       \<lparr>mcData = Some (case marshal J (GMap m) of Inr d \<Rightarrow> d | Inl e \<Rightarrow> ''{}''),
        mcId = (case as_str (map_get m ''id'') of Some s \<Rightarrow> s | None \<Rightarrow> [])\<rparr>)"

definition NewMockContextFromJSON :: "lib \<Rightarrow> bytes \<Rightarrow> mock_context" where
  "NewMockContextFromJSON L d = \<lparr>mcData = Some d, mcId = str L (get L d ''id'')\<rparr>"

fun mock_convertPath :: "string \<Rightarrow> string" where
  "mock_convertPath [] = []"
| "mock_convertPath (c # cs) =
     (if c = CHR ''['' then CHR ''.'' # mock_convertPath cs
      else if c = CHR '']'' then mock_convertPath cs
      else c # mock_convertPath cs)"

definition mock_Set :: "lib \<Rightarrow> string \<Rightarrow> goval \<Rightarrow> mock_context \<Rightarrow> error option \<times> mock_context" where
  "mock_Set L path value c =
     (case set_val L (mc_bytes c) (mock_convertPath path) value of (d, e) \<Rightarrow> (e, c\<lparr>mcData := Some d\<rparr>))"

definition mock_get :: "lib \<Rightarrow> string \<Rightarrow> mock_context \<Rightarrow> gresult" where
  "mock_get L path c = get L (mc_bytes c) (mock_convertPath path)"

definition mock_Get :: "lib \<Rightarrow> string \<Rightarrow> mock_context \<Rightarrow> goval" where
  "mock_Get L path c = val L (mock_get L path c)"

definition mock_GetString :: "lib \<Rightarrow> string \<Rightarrow> mock_context \<Rightarrow> string" where
  "mock_GetString L path c = str L (mock_get L path c)"

definition mock_GetInt :: "lib \<Rightarrow> string \<Rightarrow> mock_context \<Rightarrow> int" where
  "mock_GetInt L path c = int_of L (mock_get L path c)"

text \<open>\<^verbatim>\<open>GetBool\<close> and \<^verbatim>\<open>GetFloat\<close> differ only in the conversion of the result.\<close>

definition mock_GetJSON :: "mock_context \<Rightarrow> bytes" where
  "mock_GetJSON c = mc_bytes c"

text \<open>The options work on a copy of the data, which is empty but not nil when there is none.\<close>

definition mock_GetRaw :: "raw_option list \<Rightarrow> mock_context \<Rightarrow> os \<Rightarrow> (bytes option res \<times> os) option" where
  "mock_GetRaw options c w = apply_options options (Some (mc_bytes c)) w"

definition mock_SetRaw :: "raw_option list \<Rightarrow> bytes option \<Rightarrow> mock_context \<Rightarrow> os \<Rightarrow> (error option \<times> mock_context \<times> os) option" where
  "mock_SetRaw options d c w = (case apply_options options d w of
     None \<Rightarrow> None
   | Some (Inl e, w') \<Rightarrow> Some (Some e, c, w')
   | Some (Inr d', w') \<Rightarrow> Some (None, c\<lparr>mcData := d'\<rparr>, w'))"

definition mock_IsEmpty :: "mock_context \<Rightarrow> bool" where
  "mock_IsEmpty c \<longleftrightarrow> mcData c = None \<or> length (mc_bytes c) = 0"

definition mock_GetAll :: "json_lib \<Rightarrow> mock_context \<Rightarrow> (string \<times> goval) list option" where
  "mock_GetAll J c = (case unmarshal J (mc_bytes c) of Inr (GMap m) \<Rightarrow> Some m | _ \<Rightarrow> None)"

section \<open>The harness\<close>

record 'e test_node =
  tnCreate :: "'e \<Rightarrow> error option \<times> 'e"
  tnMessage :: "mock_context \<Rightarrow> 'e \<Rightarrow> error option \<times> mock_context \<times> 'e"
  tnClose :: "'e \<Rightarrow> error option \<times> 'e"

record 'e harness =
  hNode :: 'e
  hCtx :: mock_context
  hInputs :: "(string \<times> goval) list"
  hCreated :: bool

definition NewHarness :: "json_lib \<Rightarrow> 'e \<Rightarrow> 'e harness" where
  "NewHarness J node = \<lparr>hNode = node, hCtx = NewMockContext J None, hInputs = [], hCreated = False\<rparr>"

definition WithInput :: "lib \<Rightarrow> string \<Rightarrow> goval \<Rightarrow> 'e harness \<Rightarrow> 'e harness" where
  "WithInput L name value h =
     h\<lparr>hInputs := AList.update name value (hInputs h), hCtx := snd (mock_Set L name value (hCtx h))\<rparr>"

definition WithInputs :: "lib \<Rightarrow> (string \<times> goval) list \<Rightarrow> 'e harness \<Rightarrow> 'e harness" where
  "WithInputs L inputs h = fold (\<lambda>(name, value). WithInput L name value) inputs h"

definition WithContext :: "mock_context \<Rightarrow> 'e harness \<Rightarrow> 'e harness" where
  "WithContext c h = h\<lparr>hCtx := c\<rparr>"

definition Reset :: "json_lib \<Rightarrow> 'e harness \<Rightarrow> 'e harness" where
  "Reset J h = h\<lparr>hCtx := NewMockContext J None, hInputs := []\<rparr>"

text \<open>What the methods of the harness do with the node.\<close>

definition do_create :: "'e test_node \<Rightarrow> 'e harness \<Rightarrow> error option \<times> 'e harness" where
  "do_create N h = (case tnCreate N (hNode h) of (err, x) \<Rightarrow> (err, h\<lparr>hNode := x\<rparr>))"

definition do_message :: "'e test_node \<Rightarrow> 'e harness \<Rightarrow> error option \<times> 'e harness" where
  "do_message N h = (case tnMessage N (hCtx h) (hNode h) of (err, c, x) \<Rightarrow> (err, h\<lparr>hCtx := c, hNode := x\<rparr>))"

definition do_close :: "'e test_node \<Rightarrow> 'e harness \<Rightarrow> error option \<times> 'e harness" where
  "do_close N h = (case tnClose N (hNode h) of (err, x) \<Rightarrow> (err, h\<lparr>hNode := x\<rparr>))"

definition RunWithCreate :: "'e test_node \<Rightarrow> 'e harness \<Rightarrow> error option \<times> 'e harness" where
  "RunWithCreate N h = (case do_create N h of
     (Some e, h1) \<Rightarrow> (Some e, h1)
   | (None, h1) \<Rightarrow> do_message N (h1\<lparr>hCreated := True\<rparr>))"

definition Run :: "'e test_node \<Rightarrow> 'e harness \<Rightarrow> error option \<times> 'e harness" where
  "Run N h = (if hCreated h then do_message N h else RunWithCreate N h)"

definition RunFull :: "'e test_node \<Rightarrow> 'e harness \<Rightarrow> error option \<times> 'e harness" where
  "RunFull N h = (case do_create N h of
     (Some e, h1) \<Rightarrow> (Some e, h1)
   | (None, h1) \<Rightarrow> (case do_message N h1 of
       (Some e, h2) \<Rightarrow> (Some e, h2)
     | (None, h2) \<Rightarrow> do_close N h2))"

definition GetOutput :: "lib \<Rightarrow> string \<Rightarrow> 'e harness \<Rightarrow> goval" where
  "GetOutput L name h = mock_Get L name (hCtx h)"

definition GetOutputString :: "lib \<Rightarrow> string \<Rightarrow> 'e harness \<Rightarrow> string" where
  "GetOutputString L name h = mock_GetString L name (hCtx h)"

definition GetOutputInt :: "lib \<Rightarrow> string \<Rightarrow> 'e harness \<Rightarrow> int" where
  "GetOutputInt L name h = mock_GetInt L name (hCtx h)"

definition GetAllOutputs :: "json_lib \<Rightarrow> 'e harness \<Rightarrow> (string \<times> goval) list option" where
  "GetAllOutputs J h = mock_GetAll J (hCtx h)"

section \<open>The variables of the node\<close>

text \<open>A value of a Go numeric type that is neither int64 nor float64, or a generic value.\<close>

datatype go_value = NInt ikind int | NUint ikind nat | NFloat32 rat | NPlain goval

text \<open>\<^verbatim>\<open>int64(v)\<close> of an unsigned 64-bit number may wrap to a negative one.\<close>

fun normalizeNumericValue :: "go_value \<Rightarrow> goval" where
  "normalizeNumericValue (NInt k i) = GInt i"
| "normalizeNumericValue (NUint k n) = GInt (wrap_int 64 (int n))"
| "normalizeNumericValue (NFloat32 r) = GFloat r"
| "normalizeNumericValue (NPlain v) = v"

definition configureVariable :: "string \<Rightarrow> string \<Rightarrow> vname" where
  "configureVariable scope name = \<lparr>vScope = scope, vName = GStr name\<rparr>"

text \<open>The nil value has no reflection that could be set.\<close>

definition ConfigureCustomInput :: "go_value \<Rightarrow> vname outcome" where
  "ConfigureCustomInput value = (case normalizeNumericValue value of
     GNil \<Rightarrow> Panic ''reflect: call of reflect.Value.Set on zero Value''
   | v \<Rightarrow> Return \<lparr>vScope = ''Custom'', vName = v\<rparr>)"

section \<open>Properties\<close>

lemma mock_convertPath_eq: "mock_convertPath path = convertPath path"
  by (induction path) (auto simp: convertPath_def)

text \<open>A mock context and a message context with the same contents.\<close>

definition mocks :: "mock_context \<Rightarrow> message \<Rightarrow> bool" where
  "mocks c msg \<longleftrightarrow> mcData c = data msg \<and> mcId c = ID msg"

lemma mocks_bytes: "mocks c msg \<Longrightarrow> mc_bytes c = raw_bytes msg"
  by (simp add: mocks_def mc_bytes_def raw_bytes_def)

text \<open>
  C37. The context of the unit tests stands for the real one, with two differences.  With the same contents
  and no blob store it answers every lookup, in every type, as the message context does, and every write leaves both with the
  same contents and the same error.  The differences: a \<^verbatim>\<open>SetRaw\<close> whose option fails clears the data of
  the message, while the double keeps it; and when there is no data, as after \<^verbatim>\<open>SetRaw(nil)\<close>, with which the answer
  to a tool request ends, the message answers nil to \<^verbatim>\<open>GetRaw\<close> and the double an empty slice, so that the test for nil by
  which the library knows that a tool response was sent fails on it.
\<close>

theorem mock_context_refines_message:
  assumes "mocks c msg"
  shows "msg_get n L pf None path msg w = Some (mock_get L path c, w)
    \<and> msg_Get n L pf None path msg w = Some (mock_Get L path c, w)
    \<and> msg_GetString n L pf None path msg w = Some (mock_GetString L path c, w)
    \<and> msg_GetInt n L pf None path msg w = Some (mock_GetInt L path c, w)
    \<and> IsEmpty msg = mock_IsEmpty c
    \<and> fst (msg_Set L path value msg) = fst (mock_Set L path value c)
    \<and> mocks (snd (mock_Set L path value c)) (snd (msg_Set L path value msg))
    \<and> (\<forall>e msg' w1. msg_SetRaw options d msg w = Some (e, msg', w1) \<longrightarrow>
        (\<exists>c'. mock_SetRaw options d c w = Some (e, c', w1)
          \<and> (case e of None \<Rightarrow> mocks c' msg' | Some _ \<Rightarrow> c' = c \<and> data msg' = None)))
    \<and> (case data msg of
        Some b \<Rightarrow> msg_GetRaw n L pf None options msg w = mock_GetRaw options c w
      | None \<Rightarrow> msg_GetRaw n L pf None [] msg w = Some (Inr None, w) \<and> mock_GetRaw [] c w = Some (Inr (Some []), w)
          \<and> (\<forall>s. lmoStore s = None \<longrightarrow> hasToolResponseBeenSent n L pf msg s = Some (True, s)))"
proof -
  note b = mocks_bytes [OF assms]
  have reads: "msg_get n L pf None path msg w = Some (mock_get L path c, w)"
    by (simp add: msg_get_no_store mock_get_def b mock_convertPath_eq)
  have "case data msg of
        Some b \<Rightarrow> msg_GetRaw n L pf None options msg w = mock_GetRaw options c w
      | None \<Rightarrow> msg_GetRaw n L pf None [] msg w = Some (Inr None, w) \<and> mock_GetRaw [] c w = Some (Inr (Some []), w)
          \<and> (\<forall>s. lmoStore s = None \<longrightarrow> hasToolResponseBeenSent n L pf msg s = Some (True, s))"
    by (auto simp: msg_GetRaw_def mock_GetRaw_def getRaw_def lift_raw_def LMOResolveAll_def b raw_bytes_def
        hasToolResponseBeenSent_def ctx_raw_def split: option.split)
  moreover have "fst (msg_Set L path value msg) = fst (mock_Set L path value c)
      \<and> mocks (snd (mock_Set L path value c)) (snd (msg_Set L path value msg))"
    using assms by (simp add: msg_Set_def mock_Set_def b mock_convertPath_eq mocks_def split: prod.splits)
  moreover have "\<exists>c'. mock_SetRaw options d c w = Some (e, c', w1)
      \<and> (case e of None \<Rightarrow> mocks c' msg' | Some _ \<Rightarrow> c' = c \<and> data msg' = None)"
    if "msg_SetRaw options d msg w = Some (e, msg', w1)" for e msg' w1
    using that assms
    by (auto simp: msg_SetRaw_def mock_SetRaw_def setRaw_def mocks_def split: option.splits sum.splits)
  moreover have "IsEmpty msg = mock_IsEmpty c"
    using assms by (auto simp: IsEmpty_def mock_IsEmpty_def b mocks_def)
  ultimately show ?thesis using reads
    by (simp add: msg_Get_def msg_GetString_def msg_GetInt_def mock_Get_def mock_GetString_def mock_GetInt_def)
qed

theorem mock_context_refines_message_witness:
  "mock_GetString text_lib ''a'' (NewMockContextFromJSON text_lib ''{}'')
     = fst (the (msg_GetString 1 text_lib Posix None ''a'' (NewContext text_lib ''{}'') demo_os))
   \<and> mock_GetRaw [] \<lparr>mcData = None, mcId = []\<rparr> demo_os = Some (Inr (Some []), demo_os)
   \<and> msg_GetRaw 1 text_lib Posix None [] \<lparr>ID = [], data = None\<rparr> demo_os = Some (Inr None, demo_os)"
proof -
  let ?c = "NewMockContextFromJSON text_lib ''{}''" and ?m = "NewContext text_lib ''{}''"
    and ?nil = "\<lparr>mcData = None, mcId = []\<rparr>" and ?none = "\<lparr>ID = [], data = None\<rparr>"
  have "mocks ?c ?m" "mocks ?nil ?none" by (simp_all add: mocks_def NewMockContextFromJSON_def NewContext_def)
  note r = mock_context_refines_message [OF this(1), of 1 text_lib Posix "''a''" demo_os GNil "[]" None, THEN conjunct2, THEN conjunct2]
    mock_context_refines_message [OF this(2), of 1 text_lib Posix "''a''" demo_os GNil "[]" None, THEN conjunct2, THEN conjunct2,
      THEN conjunct2, THEN conjunct2, THEN conjunct2, THEN conjunct2, THEN conjunct2, THEN conjunct2,
      unfolded message.simps option.simps]
  show ?thesis using conjunct1 [OF r(1)] conjunct1 [OF r(2)] conjunct1 [OF conjunct2 [OF r(2)]]
    by (simp only: option.sel fst_conv simp_thms)
qed

section \<open>The interface of a message context\<close>

text \<open>
  \<^verbatim>\<open>message.Context\<close> as its clients see it: writing a value under a new name adds a member to the document,
  and reading a name answers the member.  \<open>doc\<close> is the document a context stands for.
\<close>

locale message_context =
  fixes L :: lib and D :: sem
    and set_at :: "string \<Rightarrow> goval \<Rightarrow> 'c \<Rightarrow> error option \<times> 'c"
    and value_at :: "string \<Rightarrow> 'c \<Rightarrow> goval"
    and doc :: "'c \<Rightarrow> (string \<times> json) list option"
  assumes set_new: "lib_laws L D \<Longrightarrow> doc c = Some kvs \<Longrightarrow> path_key k \<Longrightarrow> k \<notin> fst ` set kvs \<Longrightarrow> lit_json g = Some v \<Longrightarrow> lit_ok g \<Longrightarrow>
      \<exists>c'. set_at k g c = (None, c') \<and> doc c' = Some (kvs @ [(k, v)])"
    and value_text: "lib_laws L D \<Longrightarrow> val_law L D \<Longrightarrow> doc c = Some kvs \<Longrightarrow> path_key k \<Longrightarrow> map_of kvs k = Some (JStr x) \<Longrightarrow>
      value_at k c = GStr x"
begin

text \<open>Writing the entries of a map one after another.\<close>

definition set_all :: "(string \<times> string) list \<Rightarrow> 'c \<Rightarrow> 'c" where
  "set_all entries c = fold (\<lambda>(k, x) c. snd (set_at k (GStr x) c)) entries c"

lemma set_all_doc:
  assumes "lib_laws L D"
  shows "doc c = Some kvs \<Longrightarrow> \<forall>k \<in> fst ` set entries. path_key k \<and> k \<notin> fst ` set kvs \<Longrightarrow> distinct (map fst entries) \<Longrightarrow>
    \<forall>x \<in> snd ` set entries. utf8 x \<Longrightarrow>
    doc (set_all entries c) = Some (kvs @ map (\<lambda>(k, x). (k, JStr x)) entries)"
proof (induction entries arbitrary: c kvs)
  case (Cons e entries)
  obtain k x where e: "e = (k, x)" by fastforce
  obtain c' where c': "set_at k (GStr x) c = (None, c')" "doc c' = Some (kvs @ [(k, JStr x)])"
    using set_new [OF assms Cons.prems(1), of k "GStr x" "JStr x"] Cons.prems(2,4) e by auto
  have "\<forall>k' \<in> fst ` set entries. path_key k' \<and> k' \<notin> fst ` set (kvs @ [(k, JStr x)])"
    using Cons.prems(2,3) e by auto
  from Cons.IH [OF c'(2) this] Cons.prems(3,4) c'(1) show ?case by (simp add: set_all_def e)
qed (simp add: set_all_def)

lemma set_all_read:
  assumes "lib_laws L D" "val_law L D" "doc c = Some kvs"
    and "\<forall>k \<in> fst ` set entries. path_key k \<and> k \<notin> fst ` set kvs" "distinct (map fst entries)" "(k, x) \<in> set entries"
    and "\<forall>x \<in> snd ` set entries. utf8 x"
  shows "value_at k (set_all entries c) = GStr x"
proof (rule value_text [OF assms(1,2) set_all_doc [OF assms(1,3-5,7)]])
  show "path_key k" using assms(4,6) by force
  have "map_of kvs k = None" using assms(4,6) by (force simp: map_of_eq_None_iff)
  moreover have "map_of (map (\<lambda>(k, x). (k, JStr x)) entries) k = Some (JStr x)"
    using assms(5,6) by (simp add: map_of_map map_of_is_SomeI)
  ultimately show "map_of (kvs @ map (\<lambda>(k, x). (k, JStr x)) entries) k = Some (JStr x)" by (simp add: map_add_def)
qed

end

lemma bytes_set_new:
  assumes "lib_laws L D" "members D b = Some kvs" "path_key k" "k \<notin> fst ` set kvs" "lit_json g = Some v" "lit_ok g"
  shows "\<exists>b'. set_val L b (convertPath k) g = (b', None) \<and> members D b' = Some (kvs @ [(k, v)])"
proof -
  have k: "simple_key k" using assms(3) by (simp add: path_key_def)
  from set_val_append [OF assms]
  obtain b' where "set_val L b k g = (b', None)" "den D b' = Some (JObj (kvs @ [(k, v)]))" "has_prefix b' ''{''" by blast
  then show ?thesis using k by (cases b') (auto simp: simple_key_convertPath members_def has_prefix_def)
qed

lemma bytes_value_text:
  assumes "lib_laws L D" "val_law L D" "members D b = Some kvs" "path_key k" "map_of kvs k = Some (JStr x)"
  shows "val L (get L b (convertPath k)) = GStr x"
proof -
  have b: "den D b = Some (JObj kvs)" using assms(3,5) by (auto simp: members_def split: if_splits option.splits json.splits)
  show ?thesis using get_member [OF assms(1) b, of k] assms(2,4,5)
    by (auto simp: path_key_def simple_key_convertPath val_law_def)
qed

interpretation real_context: message_context L D "msg_Set L"
    "\<lambda>k msg. fst (the (msg_Get n L pf None k msg w))" "\<lambda>msg. members D (raw_bytes msg)" for L D n pf w
proof
  fix c kvs k g v
  assume "lib_laws L D" "members D (raw_bytes c) = Some kvs" "path_key k" "k \<notin> fst ` set kvs" "lit_json g = Some v" "lit_ok g"
  from bytes_set_new [OF this]
  show "\<exists>c'. msg_Set L k g c = (None, c') \<and> members D (raw_bytes c') = Some (kvs @ [(k, v)])"
    by (auto simp: msg_Set_def raw_bytes_def)
qed (simp add: msg_Get_def msg_get_no_store bytes_value_text)

interpretation mock_context: message_context L D "mock_Set L" "mock_Get L" "\<lambda>c. members D (mc_bytes c)" for L D
proof
  fix c kvs k g v
  assume "lib_laws L D" "members D (mc_bytes c) = Some kvs" "path_key k" "k \<notin> fst ` set kvs" "lit_json g = Some v" "lit_ok g"
  from bytes_set_new [OF this]
  show "\<exists>c'. mock_Set L k g c = (None, c') \<and> members D (mc_bytes c') = Some (kvs @ [(k, v)])"
    by (auto simp: mock_Set_def mc_bytes_def mock_convertPath_eq)
qed (simp add: mock_Get_def mock_get_def mock_convertPath_eq bytes_value_text)

lemma WithInputs_ctx:
  "hCtx (WithInputs L (map (\<lambda>(k, x). (k, GStr x)) entries) h) = mock_context.set_all L entries (hCtx h)"
proof (induction entries arbitrary: h)
  case Nil
  then show ?case by (simp add: WithInputs_def mock_context.set_all_def)
next
  case (Cons e entries)
  obtain k x where "e = (k, x)" by fastforce
  then show ?case using Cons [of "WithInput L k (GStr x) h"]
    by (simp add: WithInputs_def mock_context.set_all_def WithInput_def)
qed

text \<open>
  C38. What a test sets is what the node reads: after \<^verbatim>\<open>WithInputs\<close> with texts under different names the
  harness answers each text for its name (UTF-8, as JSON has no other), and a message of the same contents gives
  the node's input variables each text, and as an integer the number a text denotes.
\<close>

theorem harness_inputs_reach_variables:
  assumes "lib_laws (vlib E) D" "val_law (vlib E) D" "den D ''{}'' = Some (JObj [])"
    and "\<forall>(k, x) \<in> set entries. path_key k \<and> utf8 x" "distinct (map fst entries)"
    and "mocks (hCtx (WithInputs (vlib E) (map (\<lambda>(k, x). (k, GStr x)) entries) (NewHarness J node))) msg" "vstore s = None"
  shows "\<forall>(k, x) \<in> set entries.
      GetOutput (vlib E) k (WithInputs (vlib E) (map (\<lambda>(k, x). (k, GStr x)) entries) (NewHarness J node)) = GStr x
    \<and> InVariable_Get n E TString \<lparr>vScope = ''Message'', vName = GStr k\<rparr> msg s = Some (Return (Inr (VStr x), s))
    \<and> (\<forall>i. x = show_int i \<longrightarrow> - (2 ^ 63) \<le> i \<longrightarrow> i < 2 ^ 63 \<longrightarrow>
         InVariable_Get n E (TInt I64) \<lparr>vScope = ''Message'', vName = GStr k\<rparr> msg s = Some (Return (Inr (VInt i), s)))"
proof (intro ballI, clarify)
  fix k x
  assume e: "(k, x) \<in> set entries"
  let ?h = "NewHarness J node" and ?in = "map (\<lambda>(k, x). (k, GStr x)) entries"
  have d: "members D (mc_bytes (hCtx ?h)) = Some []"
    by (simp add: NewHarness_def NewMockContext_def mc_bytes_def members_def assms(3))
  have ok: "\<forall>k \<in> fst ` set entries. path_key k \<and> k \<notin> fst ` set ([] :: (string \<times> json) list)" "\<forall>x \<in> snd ` set entries. utf8 x"
    using assms(4) by auto
  have v: "mock_Get (vlib E) k (hCtx (WithInputs (vlib E) ?in ?h)) = GStr x"
    using mock_context.set_all_read [OF assms(1,2) d ok(1) assms(5) e ok(2)] by (simp add: WithInputs_ctx)
  have "vget n E k msg s = Some (GStr x, s)"
    using v by (simp add: vget_no_store [OF assms(7)] mock_Get_def mock_get_def mocks_bytes [OF assms(6)] mock_convertPath_eq)
  then have get: "InVariable_Get n E T \<lparr>vScope = ''Message'', vName = GStr k\<rparr> msg s
      = convert_or_host n E T \<lparr>vScope = ''Message'', vName = GStr k\<rparr> msg (GStr x) s" for T
    by (simp add: InVariable_Get_def message_value_def IsBlobRefMap_def)
  show "GetOutput (vlib E) k (WithInputs (vlib E) ?in ?h) = GStr x
    \<and> InVariable_Get n E TString \<lparr>vScope = ''Message'', vName = GStr k\<rparr> msg s = Some (Return (Inr (VStr x), s))
    \<and> (\<forall>i. x = show_int i \<longrightarrow> - (2 ^ 63) \<le> i \<longrightarrow> i < 2 ^ 63 \<longrightarrow>
         InVariable_Get n E (TInt I64) \<lparr>vScope = ''Message'', vName = GStr k\<rparr> msg s = Some (Return (Inr (VInt i), s)))"
    using v by (auto simp: GetOutput_def get convert_or_host_def parse_int_show_int wrap_int_id)
qed

theorem harness_inputs_reach_variables_witness:
  "\<exists>msg. InVariable_Get 0 demo_env TString \<lparr>vScope = ''Message'', vName = GStr ''q''\<rparr> msg demo_state
     = Some (Return (Inr (VStr ''hi''), demo_state))"
proof -
  let ?c = "hCtx (WithInputs (vlib demo_env) (map (\<lambda>(k, x). (k, GStr x)) [(''q'', ''hi'')]) (NewHarness demo_jsonlib ()))"
  have l: "lib_laws (vlib demo_env) text_sem" "val_law (vlib demo_env) text_sem" "vstore demo_state = None"
    by (simp_all add: demo_env_def demo_state_def text_lib_laws text_val_law)
  have d: "den text_sem ''{}'' = Some (JObj [])" using json_den_print [of "JObj []"] by (simp add: text_sem_def)
  have m: "mocks ?c \<lparr>ID = mcId ?c, data = mcData ?c\<rparr>" by (simp add: mocks_def)
  from harness_inputs_reach_variables [OF l(1,2) d _ _ m l(3)] demo_keys utf8_ascii [of "''hi''"] show ?thesis by auto
qed

end
