(* ===== verification/Test_Quick.thy ===== *)
theory Test_Quick
  imports Test_Context Cli_Vault
begin

text \<open>
  The rest of the support for unit tests: \<^verbatim>\<open>testing/quick.go\<close>, which configures the variables of a node from
  their tags with a tag parser of its own, and \<^verbatim>\<open>testing/credential.go\<close>, the store of test credentials that
  is filled from the environment and from \<^verbatim>\<open>.env\<close> files.  The environment is a list of names and values.
\<close>

section \<open>The tag parser\<close>

definition skip_sep :: "string \<Rightarrow> string" where
  "skip_sep s = dropWhile (\<lambda>c. c = CHR '' '' \<or> c = CHR '','') s"

definition key_char :: "char \<Rightarrow> bool" where
  "key_char c \<longleftrightarrow> c \<noteq> CHR ''='' \<and> c \<noteq> CHR '',''"

definition value_char :: "char \<Rightarrow> bool" where
  "value_char c \<longleftrightarrow> c \<noteq> CHR '',''"

lemma dropWhile_shorter: "dropWhile P xs \<noteq> xs \<Longrightarrow> length (dropWhile P xs) < length xs"
  by (cases xs) (auto simp: less_Suc_eq_le length_dropWhile_le split: if_splits)

lemma skip_sep_le: "length (skip_sep s) \<le> length s"
  by (simp add: skip_sep_def length_dropWhile_le)

lemma key_shorter:
  assumes "skip_sep s \<noteq> []" "dropWhile key_char (skip_sep s) = [] \<or> hd (dropWhile key_char (skip_sep s)) = CHR '',''"
  shows "length (dropWhile key_char (skip_sep s)) < length s"
proof -
  have "hd (skip_sep s) \<noteq> CHR '',''" using assms(1) hd_dropWhile unfolding skip_sep_def by blast
  then have "dropWhile key_char (skip_sep s) \<noteq> skip_sep s" using assms by metis
  from dropWhile_shorter [OF this] show ?thesis using skip_sep_le [of s] by linarith
qed

lemma value_shorter:
  assumes "r = dropWhile key_char (skip_sep s)" "r \<noteq> []"
  shows "length (dropWhile value_char (tl r)) < length s"
proof -
  have "length (dropWhile value_char (tl r)) \<le> length (tl r)" by (rule length_dropWhile_le)
  also have "\<dots> < length r" using assms(2) by simp
  also have "\<dots> \<le> length (skip_sep s)" unfolding assms(1) by (rule length_dropWhile_le)
  also have "\<dots> \<le> length s" by (rule skip_sep_le)
  finally show ?thesis .
qed

text \<open>
  The loop of \<^verbatim>\<open>parseSpec\<close> of the package \<^verbatim>\<open>testing\<close>, on the text that is left: blanks and commas are
  skipped, a key ends at an equals sign or a comma, and a value at a comma only.
\<close>

function quick_spec :: "string \<Rightarrow> tag_map \<Rightarrow> tag_map" where
  "quick_spec s m =
     (let s1 = skip_sep s in
      if s1 = [] then m
      else let key = takeWhile key_char s1; r = dropWhile key_char s1 in
           if r = [] \<or> hd r = CHR '','' then quick_spec r (AList.update key [] m)
           else if tl r = [] then AList.update key [] m
           else quick_spec (dropWhile value_char (tl r)) (AList.update key (takeWhile value_char (tl r)) m))"
  by pat_completeness auto
termination
proof (relation "measure (\<lambda>(s, m). length s)", goal_cases)
  case (2 s m s1 key r)
  have "length r < length s" using 2(2,5) unfolding 2(4,1) by (rule key_shorter)
  then show ?case by simp
next
  case (3 s m s1 key r)
  have "length (dropWhile value_char (tl r)) < length s"
    using 3(4,5) unfolding 3(1) by (intro value_shorter) auto
  then show ?case by simp
qed simp

declare quick_spec.simps [simp del]

definition quick_parseSpec :: "string \<Rightarrow> tag_map" where
  "quick_parseSpec spec = quick_spec spec []"

section \<open>Variables of a node\<close>

text \<open>\<^verbatim>\<open>Name()\<close> of a struct type: its name without the package; the types that are no structs are not asked.\<close>

fun type_name :: "gotype \<Rightarrow> string" where
  "type_name (TVar k t) = trim_prefix (type_string (TVar k t)) ''runtime.''"
| "type_name (TNamed n) = (case index_byte n (CHR ''.'') of
     None \<Rightarrow> n
   | Some i \<Rightarrow> if CHR ''['' \<in> set (take i n) then n else drop (Suc i) n)"
| "type_name TCredential = ''Credential''"
| "type_name t = []"

fun struct_kind :: "gotype \<Rightarrow> bool" where
  "struct_kind (TVar k t) = True"
| "struct_kind (TNamed n) = True"
| "struct_kind TCredential = True"
| "struct_kind t = False"

definition searchString :: "string \<Rightarrow> string \<Rightarrow> int" where
  "searchString s substr =
     (case find (\<lambda>i. take (length substr) (drop i s) = substr) [0..<length s + 1 - length substr] of
        Some i \<Rightarrow> int i | None \<Rightarrow> - 1)"

definition contains :: "string \<Rightarrow> string \<Rightarrow> bool" where
  "contains s substr \<longleftrightarrow> length substr \<le> length s \<and> 0 \<le> searchString s substr"

definition isVariableType :: "gotype \<Rightarrow> bool" where
  "isVariableType t \<longleftrightarrow> 0 < length (type_name t)
     \<and> (contains (type_name t) ''InVariable'' \<or> contains (type_name t) ''OutVariable'' \<or> contains (type_name t) ''OptVariable'')"

text \<open>The value may not be nil, as in \<open>ConfigureCustomInput\<close>, whose body this is again.\<close>

definition configureVariableCustom :: "go_value \<Rightarrow> vname outcome" where
  "configureVariableCustom value = (case normalizeNumericValue value of
     GNil \<Rightarrow> Panic ''reflect: call of reflect.Value.Set on zero Value''
   | v \<Rightarrow> Return \<lparr>vScope = ''Custom'', vName = v\<rparr>)"

lemma configureVariableCustom_eq: "configureVariableCustom value = ConfigureCustomInput value"
  by (simp add: configureVariableCustom_def ConfigureCustomInput_def)

text \<open>
  The fields' scope and name, by field name.  A field that is not exported is addressable; taking the
  interface of its address panics.
\<close>

definition configure_field :: "field \<Rightarrow> (string \<times> vname) list \<Rightarrow> (string \<times> vname) list outcome" where
  "configure_field f vars =
     (let spec = tag_get f ''spec''; m = quick_parseSpec spec; scope = tm_get m ''scope''; name = tm_get m ''name'' in
      if \<not> struct_kind (ftype f) \<or> \<not> isVariableType (ftype f) \<or> spec = [] then Return vars
      else if \<not> is_exported (fname f) then Panic ''reflect: Interface: cannot return value obtained from unexported field''
      else outcome_bind
        (if name = [] then configureVariableCustom (NPlain (GStr []))
         else Return (configureVariable (if scope = [] then ''Message'' else scope) name))
        (\<lambda>v. Return (AList.update (fname f) v vars)))"

fun autoConfigureVariables :: "node_type \<Rightarrow> (string \<times> vname) list \<Rightarrow> (string \<times> vname) list outcome" where
  "autoConfigureVariables [] vars = Return vars"
| "autoConfigureVariables (f # flds) vars = outcome_bind (configure_field f vars) (autoConfigureVariables flds)"

text \<open>A node under test: its harness, and the scopes and names of its variables.\<close>

record 'e quick =
  qHarness :: "'e harness"
  qVars :: "(string \<times> vname) list"

definition NewQuick :: "json_lib \<Rightarrow> node_type \<Rightarrow> 'e \<Rightarrow> (string \<times> vname) list \<Rightarrow> 'e quick outcome" where
  "NewQuick J t node vars =
     outcome_bind (autoConfigureVariables t vars) (\<lambda>vars'. Return \<lparr>qHarness = NewHarness J node, qVars = vars'\<rparr>)"

text \<open>The other methods of \<^verbatim>\<open>Quick\<close> pass the call on to the harness.\<close>

definition quick_SetInput :: "lib \<Rightarrow> string \<Rightarrow> goval \<Rightarrow> 'e quick \<Rightarrow> 'e quick" where
  "quick_SetInput L name value q = q\<lparr>qHarness := WithInput L name value (qHarness q)\<rparr>"

definition quick_SetInputs :: "lib \<Rightarrow> (string \<times> goval) list \<Rightarrow> 'e quick \<Rightarrow> 'e quick" where
  "quick_SetInputs L inputs q = q\<lparr>qHarness := WithInputs L inputs (qHarness q)\<rparr>"

definition quick_Run :: "'e test_node \<Rightarrow> 'e quick \<Rightarrow> error option \<times> 'e quick" where
  "quick_Run N q = (case Run N (qHarness q) of (err, h) \<Rightarrow> (err, q\<lparr>qHarness := h\<rparr>))"

definition quick_RunFull :: "'e test_node \<Rightarrow> 'e quick \<Rightarrow> error option \<times> 'e quick" where
  "quick_RunFull N q = (case RunFull N (qHarness q) of (err, h) \<Rightarrow> (err, q\<lparr>qHarness := h\<rparr>))"

definition quick_Output :: "lib \<Rightarrow> string \<Rightarrow> 'e quick \<Rightarrow> goval" where
  "quick_Output L name q = GetOutput L name (qHarness q)"

definition quick_OutputString :: "lib \<Rightarrow> string \<Rightarrow> 'e quick \<Rightarrow> string" where
  "quick_OutputString L name q = GetOutputString L name (qHarness q)"

definition quick_OutputInt :: "lib \<Rightarrow> string \<Rightarrow> 'e quick \<Rightarrow> int" where
  "quick_OutputInt L name q = GetOutputInt L name (qHarness q)"

definition quick_Outputs :: "json_lib \<Rightarrow> 'e quick \<Rightarrow> (string \<times> goval) list option" where
  "quick_Outputs J q = GetAllOutputs J (qHarness q)"

definition quick_Reset :: "json_lib \<Rightarrow> 'e quick \<Rightarrow> 'e quick" where
  "quick_Reset J q = q\<lparr>qHarness := Reset J (qHarness q)\<rparr>"

text \<open>
  The field with the name, given a new scope and name: a field that is not exported or no struct panics; a
  struct without the fields \<^verbatim>\<open>Scope\<close> and \<^verbatim>\<open>Name\<close>, as a \<^verbatim>\<open>TNamed\<close> is taken to be, stays as it is.
\<close>

definition set_field :: "node_type \<Rightarrow> string \<Rightarrow> vname outcome \<Rightarrow> (string \<times> vname) list \<Rightarrow> (string \<times> vname) list outcome" where
  "set_field t fieldName v vars = (case field_by_name t fieldName of
     None \<Rightarrow> Return vars
   | Some f \<Rightarrow>
       if \<not> is_exported fieldName then Panic ''reflect: Interface: cannot return value obtained from unexported field''
       else if \<not> struct_kind (ftype f) then Panic ''reflect: call of FieldByName on value of wrong kind''
       else (case ftype f of TNamed n \<Rightarrow> Return vars | _ \<Rightarrow> outcome_bind v (\<lambda>v. Return (AList.update fieldName v vars))))"

definition SetCustom :: "node_type \<Rightarrow> string \<Rightarrow> go_value \<Rightarrow> (string \<times> vname) list \<Rightarrow> (string \<times> vname) list outcome" where
  "SetCustom t fieldName value vars = set_field t fieldName (ConfigureCustomInput value) vars"

definition ConfigureVariable :: "node_type \<Rightarrow> string \<Rightarrow> string \<Rightarrow> string \<Rightarrow> (string \<times> vname) list \<Rightarrow> (string \<times> vname) list outcome" where
  "ConfigureVariable t fieldName scope name vars = set_field t fieldName (Return (configureVariable scope name)) vars"

text \<open>The credential fields, by name; a field that is not exported cannot be set and is left.\<close>

definition zero_credential :: credential where
  "zero_credential = \<lparr>cScope = [], cName = GNil, cVaultID = [], cItemID = []\<rparr>"

definition SetCredential :: "node_type \<Rightarrow> string \<Rightarrow> string \<Rightarrow> string \<Rightarrow> (string \<Rightarrow> credential) \<Rightarrow> (string \<Rightarrow> credential) outcome" where
  "SetCredential t fieldName vaultID itemID creds = (case field_by_name t fieldName of
     None \<Rightarrow> Return creds
   | Some f \<Rightarrow>
       if \<not> is_exported fieldName then Return creds
       else if \<not> struct_kind (ftype f) then Panic ''reflect: call of FieldByName on value of wrong kind''
       else if ftype f \<noteq> TCredential then Return creds
       else Return (creds(fieldName := (creds fieldName)\<lparr>cVaultID := vaultID, cItemID := itemID\<rparr>)))"

section \<open>Credentials\<close>

type_synonym cred_store = "(string \<times> gmap) list"

record database_credential =
  dbServer :: string
  dbPort :: string
  dbDatabase :: string
  dbUsername :: string
  dbPassword :: string

definition NewCredentialStore :: cred_store where
  "NewCredentialStore = []"

definition cred_Get :: "string \<Rightarrow> cred_store \<Rightarrow> gmap option" where
  "cred_Get name s = map_of s name"

declare cred_Get_def [simp]

definition SetCustomCred :: "string \<Rightarrow> gmap \<Rightarrow> cred_store \<Rightarrow> cred_store" where
  "SetCustomCred name d s = AList.update name d s"

definition SetAPIKey :: "string \<Rightarrow> string \<Rightarrow> cred_store \<Rightarrow> cred_store" where
  "SetAPIKey name apiKey s = AList.update name [(''value'', GStr apiKey)] s"

definition SetLogin :: "string \<Rightarrow> string \<Rightarrow> string \<Rightarrow> cred_store \<Rightarrow> cred_store" where
  "SetLogin name username password s =
     AList.update name [(''username'', GStr username), (''password'', GStr password)] s"

definition SetDatabase :: "string \<Rightarrow> database_credential \<Rightarrow> cred_store \<Rightarrow> cred_store" where
  "SetDatabase name config s = AList.update name
     [(''server'', GStr (dbServer config)), (''port'', GStr (dbPort config)), (''database'', GStr (dbDatabase config)),
      (''username'', GStr (dbUsername config)), (''password'', GStr (dbPassword config))] s"

definition SetDocument :: "string \<Rightarrow> string \<Rightarrow> cred_store \<Rightarrow> cred_store" where
  "SetDocument name content s = AList.update name [(''content'', GStr content)] s"

definition fieldMappings :: "(string \<times> string) list" where
  "fieldMappings = [(''API_KEY'', ''value''), (''KEY'', ''value''), (''TOKEN'', ''value''), (''VALUE'', ''value''),
     (''USERNAME'', ''username''), (''USER'', ''username''), (''PASSWORD'', ''password''), (''PASS'', ''password''),
     (''SERVER'', ''server''), (''HOST'', ''server''), (''PORT'', ''port''), (''DATABASE'', ''database''), (''DB'', ''database''),
     (''CONTENT'', ''content'')]"

text \<open>\<^verbatim>\<open>strings.SplitN(s, "=", 2)\<close>; \<open>None\<close> when there is no equals sign.\<close>

definition split_pair :: "string \<Rightarrow> (string \<times> string) option" where
  "split_pair s = map_option (\<lambda>i. (take i s, drop (Suc i) s)) (index_byte s (CHR ''=''))"

definition env_field :: "string \<Rightarrow> string \<Rightarrow> gmap \<Rightarrow> gmap" where
  "env_field prefix env d = (case split_pair env of
     None \<Rightarrow> d
   | Some (key, value) \<Rightarrow>
       if \<not> has_prefix key prefix then d
       else (let fieldName = trim_prefix key prefix in
             case map_of fieldMappings fieldName of
               Some mapped \<Rightarrow> AList.update mapped (GStr value) d
             | None \<Rightarrow> AList.update (to_lower fieldName) (GStr value) d))"

text \<open>\<open>environ\<close> are the lines of \<^verbatim>\<open>os.Environ\<close>, in its order.\<close>

definition LoadFromEnv :: "string list \<Rightarrow> string \<Rightarrow> string \<Rightarrow> cred_store \<Rightarrow> cred_store" where
  "LoadFromEnv environ prefix credName s =
     (let d = fold (env_field (to_upper prefix @ ''_'')) environ [] in
      if d \<noteq> [] then AList.update credName d s else s)"

section \<open>Environment files\<close>

text \<open>
  \<^verbatim>\<open>os.Setenv\<close>, its error dropped: a name that is empty or holds an equals sign or a zero byte, and a value
  with a zero byte, are refused.
\<close>

definition setenv :: "string \<Rightarrow> string \<Rightarrow> (string \<times> string) list \<Rightarrow> (string \<times> string) list" where
  "setenv key value env =
     (if key = [] \<or> CHR ''='' \<in> set key \<or> CHR 0x00 \<in> set key \<or> CHR 0x00 \<in> set value then env
      else AList.update key value env)"

definition unquote :: "string \<Rightarrow> string" where
  "unquote value =
     (if 2 \<le> length value \<and>
         (hd value = CHR 0x22 \<and> last value = CHR 0x22 \<or> hd value = CHR 0x27 \<and> last value = CHR 0x27)
      then butlast (tl value) else value)"

definition dotenv_line :: "string \<Rightarrow> (string \<times> string) list \<Rightarrow> (string \<times> string) list" where
  "dotenv_line text env =
     (let line = trim_space text in
      if line = [] \<or> has_prefix line ''#'' then env
      else (case split_pair line of
          None \<Rightarrow> env
        | Some (k, v) \<Rightarrow> setenv (trim_space k) (unquote (trim_space v)) env))"

text \<open>
  The lines of a \<^verbatim>\<open>bufio.Scanner\<close>: the text after the last newline is a line if it is not empty, a final
  carriage return is cut off, and a line of 65536 bytes ends the scan with an error.
\<close>

definition drop_cr :: "string \<Rightarrow> string" where
  "drop_cr s = (if s \<noteq> [] \<and> last s = CHR 0x0D then butlast s else s)"

fun dotenv_lines :: "string list \<Rightarrow> (string \<times> string) list \<Rightarrow> error option \<times> (string \<times> string) list" where
  "dotenv_lines [] env = (None, env)"
| "dotenv_lines [s] env =
     (if 65536 \<le> length s then (Some (Errorf ''bufio.Scanner: token too long''), env)
      else (None, if s = [] then env else dotenv_line (drop_cr s) env))"
| "dotenv_lines (s # ss) env =
     (if 65536 \<le> length s then (Some (Errorf ''bufio.Scanner: token too long''), env)
      else dotenv_lines ss (dotenv_line (drop_cr s) env))"

definition LoadDotEnv :: "string \<Rightarrow> (string \<times> string) list \<Rightarrow> os \<Rightarrow> (error option \<times> (string \<times> string) list) \<times> os" where
  "LoadDotEnv filename env w = (case os_read_file filename w of
     (Inl e, w') \<Rightarrow> ((Some e, env), w')
   | (Inr d, w') \<Rightarrow> (dotenv_lines (split_on (CHR 0x0A) d) env, w'))"

section \<open>The mock client\<close>

text \<open>\<open>None\<close> is the nil map, the answer when no credential fits.\<close>

definition mock_item :: "cred_store \<Rightarrow> string \<Rightarrow> string \<Rightarrow> gmap option" where
  "mock_item s vaultID itemID = (case cred_Get vaultID s of
     Some d \<Rightarrow> Some d
   | None \<Rightarrow> (case cred_Get itemID s of Some d \<Rightarrow> Some d | None \<Rightarrow> cred_Get (vaultID @ '':'' @ itemID) s))"

definition mock_GetVaultItem :: "cred_store \<Rightarrow> string \<Rightarrow> string \<Rightarrow> ('h, gmap) call" where
  "mock_GetVaultItem s vaultID itemID h =
     Return (Inr (case mock_item s vaultID itemID of None \<Rightarrow> [] | Some d \<Rightarrow> d), h)"

definition mock_SetVaultItem :: "string \<Rightarrow> string \<Rightarrow> bytes \<Rightarrow> ('h, gmap) call" where
  "mock_SetVaultItem vaultID itemID d h = Return (Inr [], h)"

definition InitCredentials :: "cred_store \<Rightarrow> 'h helper option \<Rightarrow> 'h helper option" where
  "InitCredentials s client = SetTestClient (mock_GetVaultItem s) mock_SetVaultItem client"

definition ClearCredentials :: "'h helper option \<Rightarrow> 'h helper option" where
  "ClearCredentials client = ClearTestClient client"

section \<open>Properties\<close>

lemma find_iff: "find P xs \<noteq> None \<longleftrightarrow> (\<exists>x \<in> set xs. P x)"
  by (simp only: find_None_iff) blast

lemma contains_iff: "contains s p \<longleftrightarrow> contains_str s p"
proof -
  let ?P = "\<lambda>i. take (length p) (drop i s) = p" and ?xs = "[0..<length s + 1 - length p]"
  have "contains s p \<longleftrightarrow> length p \<le> length s \<and> find ?P ?xs \<noteq> None"
    by (cases "find ?P ?xs") (simp_all only: contains_def searchString_def option.case, simp_all)
  also have "\<dots> \<longleftrightarrow> length p \<le> length s \<and> (\<exists>i \<in> set ?xs. ?P i)" by (simp only: find_iff)
  also have "\<dots> \<longleftrightarrow> (\<exists>a b. s = a @ p @ b)" (is "?L \<longleftrightarrow> ?R")
  proof
    assume ?L
    then obtain i where "?P i" by blast
    then have "s = take i s @ p @ drop (length p) (drop i s)" by (metis append_take_drop_id)
    then show ?R by blast
  next
    assume ?R
    then obtain a b where "s = a @ p @ b" by blast
    then show ?L by (intro conjI bexI [of _ "length a"]) auto
  qed
  finally show ?thesis by (simp only: contains_str_iff)
qed

text \<open>A key and a value as tags hold them.\<close>

definition tag_pair :: "string \<times> string \<Rightarrow> bool" where
  "tag_pair kv \<longleftrightarrow> fst kv \<noteq> [] \<and> hd (fst kv) \<noteq> CHR '' '' \<and> list_all key_char (fst kv) \<and> CHR '','' \<notin> set (snd kv)"

lemma quick_comma: "quick_spec (CHR '','' # s) m = quick_spec s m"
  by (subst (1 2) quick_spec.simps) (simp add: skip_sep_def)

lemma quick_nil: "quick_spec [] m = m"
  by (subst quick_spec.simps) (simp add: skip_sep_def)

lemma quick_step:
  assumes "skip_sep s = s1" "s1 \<noteq> []" "takeWhile key_char s1 = key" "dropWhile key_char s1 = CHR ''='' # t"
  shows "quick_spec s m = quick_spec (dropWhile value_char t) (AList.update key (takeWhile value_char t) m)"
  using assms(2) by (subst quick_spec.simps) (simp add: assms(1,3,4) quick_nil Let_def)

lemma quick_pair:
  assumes "tag_pair (k, v)" "rest = [] \<or> (\<exists>s. rest = CHR '','' # s)"
  shows "quick_spec (k @ ''='' @ v @ rest) m = quick_spec rest (AList.update k v m)"
proof -
  have k: "k \<noteq> []" "\<forall>c \<in> set k. key_char c" "\<forall>c \<in> set v. value_char c" "\<not> key_char (CHR ''='')"
    using assms(1) by (auto simp: tag_pair_def list_all_iff value_char_def key_char_def)
  have s: "skip_sep (k @ ''='' @ v @ rest) = k @ ''='' @ v @ rest"
    using assms(1) by (cases k) (auto simp: skip_sep_def tag_pair_def key_char_def)
  have t: "takeWhile key_char (k @ ''='' @ v @ rest) = k" "dropWhile key_char (k @ ''='' @ v @ rest) = ''='' @ v @ rest"
    using k by (simp_all add: takeWhile_append2 dropWhile_append2)
  have u: "takeWhile value_char (v @ rest) = v" "dropWhile value_char (v @ rest) = rest"
  proof -
    have "\<not> value_char (CHR '','')" by (simp add: value_char_def)
    then have "takeWhile value_char rest = []" "dropWhile value_char rest = rest" using assms(2) by (elim disjE exE; simp)+
    moreover have "c \<in> set v \<Longrightarrow> value_char c" for c using k(3) by blast
    ultimately show "takeWhile value_char (v @ rest) = v" "dropWhile value_char (v @ rest) = rest"
      by (simp_all add: takeWhile_append2 dropWhile_append2)
  qed
  show ?thesis using quick_step [OF s _ t(1), of "v @ rest"] t(2) u k(1) by simp
qed

lemma render_spec_Cons: "render_spec ((k, v) # kvs) = k @ ''='' @ v @ (if kvs = [] then [] else CHR '','' # render_spec kvs)"
  by (cases kvs) (auto simp: render_spec_def)

lemma quick_render:
  "\<forall>kv \<in> set kvs. tag_pair kv \<Longrightarrow> quick_spec (render_spec kvs) m = fold (\<lambda>(k, v). AList.update k v) kvs m"
proof (induction kvs arbitrary: m)
  case Nil
  then show ?case by (simp add: render_spec_def quick_nil)
next
  case (Cons kv kvs)
  obtain k v where kv: "kv = (k, v)" by fastforce
  let ?rest = "if kvs = [] then [] else CHR '','' # render_spec kvs"
  have "quick_spec (k @ ''='' @ v @ ?rest) m = quick_spec ?rest (AList.update k v m)"
    using Cons.prems kv by (intro quick_pair) auto
  also have "\<dots> = fold (\<lambda>(k, v). AList.update k v) kvs (AList.update k v m)"
    using Cons by (simp add: quick_nil quick_comma)
  finally show ?case by (simp add: kv render_spec_Cons)
qed

lemma fold_update_map: "map_of (fold (\<lambda>(k, v). AList.update k v) kvs m) = map_of m ++ map_of (rev kvs)"
proof (induction kvs arbitrary: m)
  case (Cons kv kvs)
  then show ?case by (cases kv) (simp add: update_conv' map_add_def fun_eq_iff split: option.splits)
qed simp

text \<open>
  C39. The library has two tag parsers, that of the runtime and that of the unit tests.  On a tag of keys
  and values the parser of the tests reads back every value, and the parser of the runtime the part
  before its first equals sign: they agree exactly where no value holds one.
\<close>

theorem tag_parsers_agree:
  assumes "kvs \<noteq> []" "\<forall>kv \<in> set kvs. tag_pair kv"
  shows "map_of (quick_parseSpec (render_spec kvs)) k = map_of (rev kvs) k
    \<and> map_of (parseSpec (render_spec kvs)) k = map_option (takeWhile (\<lambda>c. c \<noteq> CHR ''='')) (map_of (rev kvs) k)"
proof
  show "map_of (quick_parseSpec (render_spec kvs)) k = map_of (rev kvs) k"
    using quick_render [OF assms(2)] by (simp add: quick_parseSpec_def fold_update_map)
  let ?kv = "\<lambda>(k, v). k @ ''='' @ (v :: string)" and ?cut = "takeWhile (\<lambda>c. c \<noteq> CHR ''='')"
  have key: "CHR ''='' \<notin> set k \<and> CHR '','' \<notin> set k \<and> CHR '','' \<notin> set v" if "(k, v) \<in> set kvs" for k v
    using assms(2) that by (fastforce simp: tag_pair_def list_all_iff key_char_def)
  then have "split_on (CHR '','') (join_with [CHR '',''] (map ?kv kvs)) = map ?kv kvs"
    using assms(1) by (intro split_join) (auto dest: key)
  moreover have "map spec_pair (map ?kv kvs) = map (\<lambda>(k, v). (k, ?cut v)) kvs"
    using key spec_pair_cut by (auto simp: split_def)
  ultimately have "map_of (parseSpec (render_spec kvs)) k = map_of (rev (map (\<lambda>(k, v). (k, ?cut v)) kvs)) k"
    by (simp add: parseSpec_def render_spec_def parse_pairs_map_of del: map_map split: option.splits)
  also have "\<dots> = map_option ?cut (map_of (rev kvs) k)"
    using map_of_map [of ?cut "rev kvs"] by (simp add: rev_map split_def fun_eq_iff)
  finally show "map_of (parseSpec (render_spec kvs)) k = map_option ?cut (map_of (rev kvs) k)" .
qed

theorem tag_parsers_agree_witness:
  "map_of (quick_parseSpec ''scope=Message,name=b64:YQ=='') ''name'' = Some ''b64:YQ==''
   \<and> map_of (parseSpec ''scope=Message,name=b64:YQ=='') ''name'' = Some ''b64:YQ''"
  using tag_parsers_agree [of "[(''scope'', ''Message''), (''name'', ''b64:YQ=='')]" "''name''"]
  by (simp add: render_spec_def tag_pair_def key_char_def)

text \<open>A name and a value that an environment file can hold in double quotes, and the file.\<close>

definition env_pair :: "string \<times> string \<Rightarrow> bool" where
  "env_pair kv \<longleftrightarrow>
     (let k = fst kv; v = snd kv in
      k \<noteq> [] \<and> \<not> is_space (hd k) \<and> \<not> is_space (last k) \<and> hd k \<noteq> CHR ''#''
      \<and> CHR ''='' \<notin> set k \<and> CHR 0x00 \<notin> set k \<and> CHR 0x0A \<notin> set k \<and> CHR 0x00 \<notin> set v \<and> CHR 0x0A \<notin> set v
      \<and> length k + length v + 3 < 65536)"

definition env_text :: "string \<times> string \<Rightarrow> string" where
  "env_text kv = fst kv @ ''='' @ [CHR 0x22] @ snd kv @ [CHR 0x22]"

definition render_env :: "(string \<times> string) list \<Rightarrow> bytes" where
  "render_env kvs = concat (map (\<lambda>kv. env_text kv @ [CHR 0x0A]) kvs)"

lemma trim_space_id: "s \<noteq> [] \<Longrightarrow> \<not> is_space (hd s) \<Longrightarrow> \<not> is_space (last s) \<Longrightarrow> trim_space s = s"
  using trim_space_padded [of "[]" s] by simp

lemma quote_no_space: "\<not> is_space (CHR 0x22)"
  by (simp add: is_space_def)

lemma split_pair_eq: "CHR ''='' \<notin> set k \<Longrightarrow> split_pair (k @ ''='' @ v) = Some (k, v)"
  by (simp add: split_pair_def)

lemma unquote_quoted: "unquote ([CHR 0x22] @ v @ [CHR 0x22]) = v"
  by (simp add: unquote_def)

lemma dotenv_line_pair:
  assumes "env_pair (k, v)"
  shows "dotenv_line (env_text (k, v)) env = AList.update k v env" "drop_cr (env_text (k, v)) = env_text (k, v)"
proof -
  note p = assms [unfolded env_pair_def Let_def fst_conv snd_conv]
  let ?q = "[CHR 0x22] @ v @ [CHR 0x22]"
  have t: "trim_space (env_text (k, v)) = env_text (k, v)"
    using p quote_no_space by (intro trim_space_id) (simp_all add: env_text_def)
  have n: "env_text (k, v) \<noteq> []" "\<not> has_prefix (env_text (k, v)) ''#''"
    using p by (cases k; simp add: env_text_def has_prefix_def)+
  have s: "split_pair (env_text (k, v)) = Some (k, ?q)" using p by (simp add: env_text_def split_pair_eq [simplified])
  have tk: "trim_space k = k" "trim_space ?q = ?q" using p quote_no_space by (intro trim_space_id; simp)+
  have e: "setenv k v env = AList.update k v env" using p by (simp add: setenv_def)
  show "dotenv_line (env_text (k, v)) env = AList.update k v env"
    by (simp only: dotenv_line_def Let_def t n s tk e unquote_quoted option.case prod.case if_False disj_not1 simp_thms)
  show "drop_cr (env_text (k, v)) = env_text (k, v)" by (simp add: drop_cr_def env_text_def)
qed

lemma split_render: "\<forall>l \<in> set ls. c \<notin> set l \<Longrightarrow> split_on c (concat (map (\<lambda>l. l @ [c]) ls)) = ls @ [[]]"
  by (induction ls) auto

lemma dotenv_lines_render:
  "\<forall>kv \<in> set kvs. env_pair kv \<Longrightarrow>
    dotenv_lines (map env_text kvs @ [[]]) env = (None, fold (\<lambda>(k, v). AList.update k v) kvs env)"
proof (induction kvs arbitrary: env)
  case (Cons kv kvs)
  obtain k v where kv: "kv = (k, v)" by fastforce
  have l: "length (env_text kv) < 65536" using Cons.prems by (simp add: kv env_text_def env_pair_def Let_def)
  obtain t ts where ts: "map env_text kvs @ [[]] = t # ts" by (cases "map env_text kvs @ [[]]") auto
  have "dotenv_lines (map env_text (kv # kvs) @ [[]]) env
      = dotenv_lines (map env_text kvs @ [[]]) (dotenv_line (drop_cr (env_text kv)) env)"
    using l by (simp add: ts)
  also have "\<dots> = dotenv_lines (map env_text kvs @ [[]]) (AList.update k v env)"
    using Cons.prems by (simp add: kv dotenv_line_pair)
  finally show ?case using Cons by (simp add: kv)
qed simp

text \<open>
  An environment file that gives each name its value in double quotes is read back exactly, whatever
  blanks, equals signs or quotes the values hold: \<^verbatim>\<open>LoadDotEnv\<close> sets these variables, the last value of a
  name winning, and leaves all others.
\<close>

theorem dotenv_roundtrip:
  assumes "os_read_file filename w = (Inr (render_env kvs), w')" "\<forall>kv \<in> set kvs. env_pair kv"
  shows "fst (fst (LoadDotEnv filename env w)) = None
    \<and> map_of (snd (fst (LoadDotEnv filename env w))) = map_of env ++ map_of (rev kvs)"
proof -
  have "\<forall>l \<in> set (map env_text kvs). CHR 0x0A \<notin> set l"
    using assms(2) by (auto simp: env_text_def env_pair_def Let_def)
  then have "split_on (CHR 0x0A) (render_env kvs) = map env_text kvs @ [[]]"
    using split_render [of "map env_text kvs"] by (simp add: render_env_def comp_def)
  then show ?thesis
    using assms dotenv_lines_render [of kvs env] by (simp add: LoadDotEnv_def fold_update_map)
qed

theorem dotenv_roundtrip_witness:
  "map_of (snd (fst (LoadDotEnv ''.env'' [] (demo_os\<lparr>files := [''.env'' \<mapsto> render_env [(''A'', '' b=1 '')]]\<rparr>)))) ''A'' = Some '' b=1 ''"
proof -
  have "os_read_file ''.env'' (demo_os\<lparr>files := [''.env'' \<mapsto> render_env [(''A'', '' b=1 '')]]\<rparr>)
      = (Inr (render_env [(''A'', '' b=1 '')]), snd (os_read_file ''.env'' (demo_os\<lparr>files := [''.env'' \<mapsto> render_env [(''A'', '' b=1 '')]]\<rparr>)))"
    by (simp add: os_read_file_def demo_os_def next_fault_def)
  from dotenv_roundtrip [OF this, of "[]"] show ?thesis by (simp add: env_pair_def is_space_def)
qed

text \<open>The answers of the mock client as a credential reads them.\<close>

definition mock_vault :: "cred_store \<Rightarrow> string \<Rightarrow> string \<Rightarrow> goval res" where
  "mock_vault s vaultID itemID = Inr (case mock_item s vaultID itemID of None \<Rightarrow> GNil | Some d \<Rightarrow> GMap d)"

text \<open>
  A test credential is found only when both ids are set: \<^verbatim>\<open>SetCredential\<close> with a stored name and any item id
  makes the node read that credential, but with an empty item id, as the example in its comment has it,
  the node reads nothing.
\<close>

theorem test_credential_needs_both_ids:
  assumes "field_by_name t fieldName = Some f" "ftype f = TCredential" "is_exported fieldName"
    and "decode (VDyn GNil) = Inr ([], [])"
    and "map_of store name = Some d" "name \<noteq> []" "map_of store [] = None" "map_of store '':'' = None"
    and "SetCredential t fieldName name itemID (\<lambda>_. zero_credential) = Return creds"
  shows "Credential_use n E decode (Some (mock_vault store)) (creds fieldName) msg s
    = Some (Return (Inr (if itemID = [] then GNil else GMap d), s))"
proof -
  have c: "creds fieldName = zero_credential\<lparr>cVaultID := name, cItemID := itemID\<rparr>"
    using assms(1-3,9) by (simp add: SetCredential_def) (metis fun_upd_same)
  show ?thesis
    using assms(4-8) by (simp add: Credential_use_def cred_target_def c zero_credential_def mock_vault_def mock_item_def)
qed

definition demo_creds :: node_type where
  "demo_creds = [\<lparr>fname = ''OptApiKey'', ftype = TCredential, ftags = []\<rparr>]"

theorem test_credential_needs_both_ids_witness:
  "\<exists>creds. SetCredential demo_creds ''OptApiKey'' ''key'' [] (\<lambda>_. zero_credential) = Return creds
    \<and> Credential_use 0 demo_env (\<lambda>_. Inr ([], [])) (Some (mock_vault (SetAPIKey ''key'' ''s3cret'' []))) (creds ''OptApiKey'')
        (NewContext text_lib ''{}'') \<lparr>vstore = None, vfs = demo_os\<rparr>
      = Some (Return (Inr GNil, \<lparr>vstore = None, vfs = demo_os\<rparr>))"
proof -
  have f: "field_by_name demo_creds ''OptApiKey'' = Some (hd demo_creds)" "ftype (hd demo_creds) = TCredential" "is_exported ''OptApiKey''"
    by (simp_all add: demo_creds_def field_by_name_def is_exported_def)
  obtain creds where "SetCredential demo_creds ''OptApiKey'' ''key'' [] (\<lambda>_. zero_credential) = Return creds"
    using f by (simp add: SetCredential_def)
  from this test_credential_needs_both_ids [OF f _ _ _ _ _ this, where decode = "\<lambda>_. Inr ([], [])"
      and store = "SetAPIKey ''key'' ''s3cret'' []"]
  show ?thesis by (simp add: SetAPIKey_def)
qed

end
