(* ===== verification/Spec2Isabelle.thy ===== *)
theory Spec2Isabelle
  imports Lmo_Concurrent Spec_Gen Close_Concurrent Lifecycle Packed_Value Flow Session_Run Skill_Md Oauth Test_Quick
begin

text \<open>
  A model of the Go runtime library robomotion-go, on which the packages of the Robomotion platform are
  built, with the theorems that make its parts correct.  All paths below are under \<^verbatim>\<open>src/\<close>.

  \<^bold>\<open>The program.\<close>  A package is a program that links the library and registers its node types; its \<^verbatim>\<open>main\<close>
  calls \<^verbatim>\<open>Start\<close> (\<^verbatim>\<open>runtime/registry.go\<close>), which picks one of several modes.  As a plugin it serves the
  node protocol of a robot over gRPC (\<^verbatim>\<open>runtime/grpc.go\<close>): the robot creates nodes, sends them
  messages and closes them, and the process ends with its last node.  A node reads and writes the message
  through typed variables (\<^verbatim>\<open>runtime/variable.go\<close>), and calls back the robot through a client.  Large parts
  of a message live outside it, in a content-addressed store of files (\<^verbatim>\<open>runtime/lmo\<close>), if both sides
  have that capability.  On the command line the same node types are commands (\<^verbatim>\<open>runtime/cli.go\<close>), with
  credentials from a vault and sessions that keep the nodes of several calls in one daemon.  Other modes
  print the spec file of the package and a description of it for agents.

  \<^bold>\<open>The theories\<close>, in the order they build on each other:

  \<^item> \<open>Prelude\<close>, \<open>Strconv\<close>, \<open>Go_Value\<close>, \<open>Os\<close>: what the source uses of Go and its library.  Errors are the
    type \<open>error\<close> and a fallible function returns \<open>error + 'a\<close>; a function that may panic returns an \<open>outcome\<close>;
    bytes are lists of characters; base64 and hexadecimal coding with their round trips; generic values
    \<open>goval\<close> with finite float64 as rationals; the file system \<open>os\<close>, in which a schedule of failures says
    which call fails with which error.
  \<^item> \<open>Gjson\<close>: the third-party JSON, compression and hash libraries are the fields of a record \<open>lib\<close>, and their
    documented behaviour is stated as laws about the JSON value of a text.  The laws speak of UTF-8 texts, of
    compressing what is not empty, and of member names that are paths of their own: objects have plain keys (letters,
    digits, underscores, hyphens, blanks and dots), since \<^verbatim>\<open>escape\<close> of the store protects dots only, and a name set
    by a variable is neither a number nor \<open>-1\<close>, which sjson takes for an index (\<open>path_key\<close>).  \<open>Json_Text\<close> is a
    concrete library that has the laws; the witnesses use it.
  \<^item> \<open>Lmo_File\<close>, \<open>Lmo_Store\<close>, \<open>Lmo_Blob\<close>, \<open>Lmo_Walk\<close>, \<open>Lmo_Roundtrip\<close>, \<open>Lmo_Props\<close>,
    \<open>Lmo_Concurrent\<close>: \<^verbatim>\<open>runtime/lmo\<close>.  The first two hold the code: atomic renaming with retries, and the
    store with \<^verbatim>\<open>PutBlob\<close>, \<^verbatim>\<open>GetBlob\<close>, \<^verbatim>\<open>Pack\<close> and the resolvers.  The locale \<open>blob_store\<close> of \<open>Lmo_Blob\<close> is the contract of one put and one get, and the walks
    over documents are proved against it; \<open>Lmo_Roundtrip\<close> states the contract of the whole store the same
    way, for every marker that stands for a blob (\<open>stands_for\<close>), whichever side wrote it.  Properties: packing and
    resolving give the message back, also when it was packed twice, and whatever files failed; a blob is
    complete or absent; chains of markers up to depth 31 are followed and cycles are cut off by one resolver
    but not by the other.
  \<^item> \<open>Lmo_Runtime\<close>, \<open>Capabilities\<close>: \<^verbatim>\<open>runtime/lmo_rt.go\<close>, \<^verbatim>\<open>runtime/message.go\<close>, \<^verbatim>\<open>message/context.go\<close> and
    \<^verbatim>\<open>runtime/capabilities.go\<close>: the process-wide store, the message context, and the bits as \<open>64 word\<close>.
  \<^item> \<open>Node_Server\<close>, \<open>Node_Server_Props\<close>, \<open>Handshake\<close>: the methods of \<^verbatim>\<open>GRPCServer\<close>, \<^verbatim>\<open>runtime/handler.go\<close>, \<^verbatim>\<open>runtime/factory.go\<close>,
    \<^verbatim>\<open>runtime/tool_interceptor.go\<close>, \<^verbatim>\<open>runtime/tool_response.go\<close> and the cache of \<^verbatim>\<open>runtime/properties.go\<close>.  The
    global variables are the record \<open>server\<close>; the package's own node code is the record \<open>node_code\<close>, a
    parameter.  Remote calls are the step relation \<open>rpc\<close>.  Properties: every handler stands under its guid, the
    process ends with the last node (and when it does so too early), tool requests never flow on, and the
    reply to a message is the message the node left, once resolved.  \<open>Handshake\<close> adds the goroutine of \<^verbatim>\<open>Init\<close> and the
    channel \<^verbatim>\<open>initReady\<close>: no node exists before the capabilities are negotiated, and they stay.
  \<^item> \<open>Struct_Value\<close>, \<open>Variables\<close>, \<open>Host_Client\<close>: \<^verbatim>\<open>runtime/struct.go\<close>, \<^verbatim>\<open>runtime/variable.go\<close>, \<^verbatim>\<open>runtime/credential.go\<close>,
    and the interface \<^verbatim>\<open>RuntimeHelper\<close> with its three implementations, \<^verbatim>\<open>runtime/event.go\<close> and the setup
    context of \<^verbatim>\<open>runtime/setup.go\<close>.  Properties: what is written through a variable is read back, which
    conversions panic, and how numbers travel to the host and back.
  \<^item> \<open>Packed_Message\<close>, \<open>Packed_Value\<close>, \<open>Flow\<close>: the blob store, the variables and the node server together.
    Properties: what a node leaves in the message, the variables of the next node read from the reply of the
    server, packed or not; and a large map or slice that one variable writes another reads back.  The second
    goes through Go values, so the document is the same up to the order of members and the spelling of
    numbers (the relation \<open>recoded\<close>), and \<open>packed_recoded\<close> says that packed documents survive such a rewriting.
  \<^item> \<open>Spec_Tags\<close>, \<open>Spec_Gen\<close>, \<open>Skill_Md\<close>: the parser of struct tags and the generators of \<^verbatim>\<open>runtime/spec.go\<close> and
    \<^verbatim>\<open>runtime/skillmd.go\<close>.  A node type is the list of its fields with their types and tags.
  \<^item> \<open>Cli_Vault\<close>, \<open>Cli\<close>, \<open>Cli_Session\<close>, \<open>Startup\<close>: \<^verbatim>\<open>runtime/cli_vault.go\<close>, \<^verbatim>\<open>runtime/cli.go\<close>, the three files
    \<^verbatim>\<open>runtime/cli_session*.go\<close>, \<^verbatim>\<open>runtime/compress.go\<close> and \<^verbatim>\<open>Start\<close>.  \<open>Cli\<close> also has the locale \<open>registry\<close>, the contract
    of the tables that are filled entry by entry, interpreted on the factories, the handlers and the Go maps
    of the code.  The session daemon is the step relation \<open>session_step\<close> over the states of \<open>Node_Server\<close>,
    labelled with what happens (a call, a panic, the timer, the signal, a change of the files), and \<open>session_run\<close>
    collects the labels.  An error of a node reaches the client as gRPC transports it: the field \<open>grpc_status\<close> of the
    environment gives code and description, and the text starts with the words of gRPC.
    \<open>Session_Run\<close> compares a command in a session with the direct run of \<open>Cli\<close>.
  \<^item> \<open>Oauth\<close>: the browser dialog of \<^verbatim>\<open>runtime/oauth.go\<close>.
  \<^item> \<open>Test_Context\<close>, \<open>Test_Quick\<close>: the package \<^verbatim>\<open>testing\<close>, doubles for the unit tests of nodes.  Properties: the
    message context in memory refines that of the runtime (both are instances of the locale
    \<open>message_context\<close>, in which the reads after a series of writes are proved), what a test sets is what the
    node's variables read, the second tag parser agrees with the first except
    on values with an equals sign; lemmas give the round trip of environment files.
  \<^item> \<open>Fair_Runs\<close>, \<open>Lifecycle\<close>: the goroutines of a plugin process: \<^verbatim>\<open>Start\<close>, the watch over the connection
    (\<^verbatim>\<open>checkConnState\<close>), the signal handler and \<^verbatim>\<open>debug.Attach\<close>, with the channel \<^verbatim>\<open>done\<close> between them, as the step
    relation \<open>process_step\<close> over the connection of \<open>Handshake\<close>.  The locale \<open>fair_stage\<close> is the rule of one stage
    of a liveness proof, interpreted on the three stages of the end.  Properties: the process ends when the
    last node is closed, the user interrupts or the connection is lost, and it serves until then.
  \<^item> \<open>Utils\<close>, \<open>Debug\<close>: \<^verbatim>\<open>utils\<close>, \<^verbatim>\<open>runtime/error.go\<close>, and attaching a package to a robot (\<^verbatim>\<open>debug\<close>, for the three
    systems).  Property: whatever \<^verbatim>\<open>netstat\<close> prints, the robots are the rows of listening TCP sockets of a robot's
    process, a package attaches to one of them, and when no choice ends.

  \<^bold>\<open>Bounds and fuel.\<close>  The recursive walks over documents carry fuel; \<open>pack_total\<close> shows that the nesting depth
  is enough for \<^verbatim>\<open>Pack\<close>, and the round trips say the same of \<^verbatim>\<open>ResolveAll\<close> on packed documents.  Only
  \<^verbatim>\<open>ResolveAll\<close> on cyclic blobs runs out of every fuel, as the code recurses without end.  An operation of the
  server that reads the message returns \<open>None\<close> in that case only.  All other loops are total functions; the
  waits of \<^verbatim>\<open>acquireOAuthPort\<close> and \<^verbatim>\<open>StartDaemonProcess\<close> count time in milliseconds.

  \<^bold>\<open>Order and concurrency.\<close>  A Go map whose entries the code visits is an association list, and its order is
  the order of the visit.  The handlers' and factories' maps are guarded by mutexes in the code; remote calls
  are modelled as atomic steps in any order, and the timer of a session as a step of its own.  \<open>Lmo_Concurrent\<close>
  takes \<^verbatim>\<open>PutBlob\<close> apart into system calls (\<open>PutBlob_steps\<close>: run alone it is the same function) and lets any
  number of writers interleave and be killed (\<open>put_sys\<close>); the files of the store stay complete.
  \<open>Close_Concurrent\<close> does the same for \<^verbatim>\<open>OnClose\<close>: calls for different nodes may interleave step by step
  (\<open>close_sys\<close>), and the counter still tells the process to end after the last node and not before.

  \<^bold>\<open>Parameters.\<close>  The code of the node types, the generated RPC stubs, \<^verbatim>\<open>encoding/json\<close> on user types, \<^verbatim>\<open>fmt.Sprint\<close>,
  \<^verbatim>\<open>strconv.ParseFloat\<close>, the case conversions of \<^verbatim>\<open>strcase\<close>, the cryptographic functions, HTTP, clocks, process
  creation, the status that gRPC makes of an error, the browser, the choice of a \<^verbatim>\<open>select\<close> with several ready
  channels, the output of \<^verbatim>\<open>netstat\<close> and the list of processes.  Error texts leave out the quotation marks of
  the verb \<^verbatim>\<open>%q\<close>.

  \<^bold>\<open>Not modelled.\<close>  \<^verbatim>\<open>proto\<close> (generated), \<^verbatim>\<open>runtime/icons\<close> (a table of drawings), logging, the limit of 64 MB on a message
  between client and server, and the server of the package go-plugin that \<^verbatim>\<open>Start\<close> runs.
\<close>

end
